(* ===== verification/Prelude.thy ===== *)
theory Prelude
  imports Main "HOL-Library.Sublist" "HOL-Library.AList"
begin

text \<open>
  Shared ground of the development: the collections of rewrite and introduction rules the
  component theories fill, the type of Go's \<open>error\<close> results, and generic facts about lists
  and association lists.

  A Go \<open>error\<close> is \<open>string option\<close>: \<open>None\<close> is \<open>nil\<close>, \<open>Some m\<close> an error whose message is
  \<open>m\<close>. A function that returns a value and an error is a sum: \<open>Inl\<close> the message, \<open>Inr\<close> the
  value (the value the Go code returns beside an error is never looked at by its callers).
\<close>

named_theorems go_simps \<open>rewrite rules that evaluate the model of a Go construct\<close>
named_theorems frame_simps \<open>what an operation leaves unchanged\<close>
named_theorems emits_intros \<open>which calls an operation can issue\<close>
named_theorems leaves_intros \<open>which view of the world an operation leaves alone\<close>
named_theorems keeps_intros \<open>preservation of an invariant of the host by an operation\<close>

type_synonym go_error = "string option"
type_synonym 'a go_result = "string + 'a"

abbreviation nil :: go_error where
  "nil \<equiv> None"

subsection \<open>Lists\<close>

lemma filter_remove1_neq: "P x = False \<Longrightarrow> filter P (remove1 x xs) = filter P xs"
  by (induction xs) auto

lemma count_list_remove1:
  "count_list (remove1 x xs) y = count_list xs y - (if x = y then 1 else 0)"
  by (induction xs) (auto simp: count_list_0_iff)

lemma count_list_append_single:
  "count_list (xs @ [x]) y = count_list xs y + (if x = y then 1 else 0)"
  by simp

lemma remove1_commute_filter: "filter P (remove1 x xs) = (if P x then remove1 x (filter P xs) else filter P xs)"
  by (induction xs) auto

lemma in_set_remove1_neq [simp]: "x \<noteq> y \<Longrightarrow> x \<in> set (remove1 y xs) \<longleftrightarrow> x \<in> set xs"
  by (induction xs) auto

lemma set_filter_notin_disjoint: "set (filter (\<lambda>x. x \<notin> B) xs) \<inter> B = {}"
  by auto

subsection \<open>Folding a state through a list\<close>

text \<open>
  A Go loop that calls a procedure for every element is \<open>fold f xs s\<close>, in the order of the
  list. An invariant kept by every step is kept by the loop.
\<close>

lemma fold_invariant:
  assumes "P s" and "\<And>x s. x \<in> set xs \<Longrightarrow> P s \<Longrightarrow> P (f x s)"
  shows "P (fold f xs s)"
  using assms by (induction xs arbitrary: s) auto

lemma fold_frame:
  assumes "\<And>x s. x \<in> set xs \<Longrightarrow> g (f x s) = g s"
  shows "g (fold f xs s) = g s"
  using assms by (induction xs arbitrary: s) auto

subsection \<open>Association lists as Go maps\<close>

text \<open>
  A Go map that is only ever looked up is a HOL map. A map whose entries are also iterated is
  an association list with distinct keys: its order stands for the iteration order, which Go
  leaves open, so statements about it hold for every order.
\<close>

type_synonym ('k, 'v) go_map = "('k \<times> 'v) list"

definition map_keys :: "('k, 'v) go_map \<Rightarrow> 'k list" where
  "map_keys m = map fst m"

lemma set_map_keys: "set (map_keys m) = dom (map_of m)"
  by (simp add: map_keys_def dom_map_of_conv_image_fst)

lemma distinct_update: "distinct (map fst m) \<Longrightarrow> distinct (map fst (AList.update k v m))"
  by (rule distinct_update)

lemma map_of_update: "map_of (AList.update k v m) = (map_of m)(k \<mapsto> v)"
  by (simp add: update_conv')

end
