(* ===== verification/GoStrings.thy ===== *)
theory GoStrings
  imports Prelude
begin

text \<open>
  The parts of Go's \<open>strings\<close> and \<open>strconv\<close> packages the agent uses, over byte strings.
  A Go string is a sequence of bytes, here a \<open>string\<close> (a list of 8-bit characters).

  White space follows \<open>unicode.IsSpace\<close>: the six ASCII characters and the UTF-8 encodings of
  the Unicode white-space runes. No byte of an encoding but its first is ASCII or a first byte
  of another encoding, so scanning the bytes from the left (or, for the right end of a string,
  the reversed bytes) finds exactly the runes Go's decoder finds, also in strings that are not
  valid UTF-8.
\<close>

section \<open>White space\<close>

definition space_runes :: "string list" where
  "space_runes =
     [[CHR 0x20], [CHR 0x0A], [CHR 0x09], [CHR 0x0D], [CHR 0x0B], [CHR 0x0C],
      [CHR 0xC2, CHR 0x85], [CHR 0xC2, CHR 0xA0],
      [CHR 0xE1, CHR 0x9A, CHR 0x80],
      [CHR 0xE2, CHR 0x80, CHR 0x80], [CHR 0xE2, CHR 0x80, CHR 0x81],
      [CHR 0xE2, CHR 0x80, CHR 0x82], [CHR 0xE2, CHR 0x80, CHR 0x83],
      [CHR 0xE2, CHR 0x80, CHR 0x84], [CHR 0xE2, CHR 0x80, CHR 0x85],
      [CHR 0xE2, CHR 0x80, CHR 0x86], [CHR 0xE2, CHR 0x80, CHR 0x87],
      [CHR 0xE2, CHR 0x80, CHR 0x88], [CHR 0xE2, CHR 0x80, CHR 0x89],
      [CHR 0xE2, CHR 0x80, CHR 0x8A], [CHR 0xE2, CHR 0x80, CHR 0xA8],
      [CHR 0xE2, CHR 0x80, CHR 0xA9], [CHR 0xE2, CHR 0x80, CHR 0xAF],
      [CHR 0xE2, CHR 0x81, CHR 0x9F], [CHR 0xE3, CHR 0x80, CHR 0x80]]"

text \<open>The width in bytes of the white-space rune at the head of \<open>s\<close>, 0 when there is none.\<close>

definition width_in :: "string list \<Rightarrow> string \<Rightarrow> nat" where
  "width_in rs s = (case find (\<lambda>r. prefix r s) rs of None \<Rightarrow> 0 | Some r \<Rightarrow> length r)"

abbreviation space_width :: "string \<Rightarrow> nat" where
  "space_width \<equiv> width_in space_runes"

definition space_free :: "string \<Rightarrow> bool" where
  "space_free s \<longleftrightarrow> (\<forall>t \<in> set (suffixes s). space_width t = 0)"

text \<open>A field of a line: not empty and without white space.\<close>

definition is_field :: "string \<Rightarrow> bool" where
  "is_field s \<longleftrightarrow> s \<noteq> [] \<and> space_free s"

lemma width_in_eq_0: "[] \<notin> set rs \<Longrightarrow> width_in rs s = 0 \<longleftrightarrow> (\<forall>r \<in> set rs. \<not> prefix r s)"
  by (auto simp: width_in_def find_None_iff find_Some_iff split: option.splits
      dest: nth_mem)

lemma Nil_notin_space_runes: "[] \<notin> set space_runes"
  by (simp add: space_runes_def)

lemma space_width_eq_0: "space_width s = 0 \<longleftrightarrow> (\<forall>r \<in> set space_runes. \<not> prefix r s)"
  by (rule width_in_eq_0[OF Nil_notin_space_runes])

lemma space_width_Nil [simp]: "space_width [] = 0"
  by (simp add: space_width_eq_0) (simp add: space_runes_def)

lemma space_width_space [simp]: "space_width (CHR '' '' # s) = 1"
  by (simp add: width_in_def space_runes_def)

lemma space_runes_tl: "r \<in> set space_runes \<Longrightarrow> CHR '' '' \<notin> set (tl r)"
  by (auto simp: space_runes_def)

text \<open>A rune that starts in a nonempty text cannot run into a blank that follows it.\<close>

lemma space_width_before_space:
  assumes "t \<noteq> []" "space_width t = 0"
  shows "space_width (t @ CHR '' '' # s) = 0"
  unfolding space_width_eq_0
proof (intro ballI notI)
  fix r assume r: "r \<in> set space_runes" and p: "prefix r (t @ CHR '' '' # s)"
  from p consider "prefix r t" | us where "r = t @ us" "prefix us (CHR '' '' # s)"
    by (auto simp: prefix_append)
  then show False
  proof cases
    case 1 with assms(2) r show False by (auto simp: space_width_eq_0)
  next
    case (2 us)
    show False
    proof (cases us)
      case Nil
      with 2 assms(2) r show False by (auto simp: space_width_eq_0)
    next
      case (Cons c us')
      with 2 have "CHR '' '' \<in> set (tl r)" using assms(1) by (cases t) auto
      with space_runes_tl[OF r] show False by simp
    qed
  qed
qed

lemma space_width_prefix: "space_width (t @ s) = 0 \<Longrightarrow> space_width t = 0"
  by (auto simp: space_width_eq_0 intro: prefix_prefix)

lemma space_free_Nil [simp]: "space_free []"
  by (simp add: space_free_def)

lemma space_free_Cons: "space_free (c # s) \<longleftrightarrow> space_width (c # s) = 0 \<and> space_free s"
  by (auto simp: space_free_def)

section \<open>Fields\<close>

text \<open>
  \<open>strings.Fields\<close>: the maximal runs of bytes outside white space. The first argument is the
  current field, reversed.
\<close>

function fields_acc :: "string \<Rightarrow> string \<Rightarrow> string list" where
  "fields_acc cur [] = (if cur = [] then [] else [rev cur])"
| "fields_acc cur (c # s) =
     (let n = space_width (c # s)
      in if n = 0 then fields_acc (c # cur) s
         else (if cur = [] then [] else [rev cur]) @ fields_acc [] (drop n (c # s)))"
  by pat_completeness auto
termination
  by (relation "measure (\<lambda>(cur, s). length s)") auto

declare fields_acc.simps(2) [simp del]

definition Fields :: "string \<Rightarrow> string list" where
  "Fields s = fields_acc [] s"

lemma fields_acc_nonspace:
  "space_width (c # s) = 0 \<Longrightarrow> fields_acc cur (c # s) = fields_acc (c # cur) s"
  by (simp add: fields_acc.simps)

lemma fields_acc_blank:
  "fields_acc cur (CHR '' '' # s) = (if cur = [] then [] else [rev cur]) @ fields_acc [] s"
  by (simp add: fields_acc.simps)

lemma fields_acc_field:
  assumes "space_free f"
  shows "fields_acc cur (f @ CHR '' '' # s)
       = (if cur = [] \<and> f = [] then [] else [rev cur @ f]) @ fields_acc [] s"
  using assms
proof (induction f arbitrary: cur)
  case (Cons c f)
  then have "space_width (c # f @ CHR '' '' # s) = 0"
    using space_width_before_space[of "c # f" s] by (simp add: space_free_Cons)
  with Cons show ?case
    by (simp add: fields_acc_nonspace space_free_Cons)
qed (simp add: fields_acc_blank)

lemma fields_acc_last:
  assumes "space_free f"
  shows "fields_acc cur f = (if cur = [] \<and> f = [] then [] else [rev cur @ f])"
  using assms
  by (induction f arbitrary: cur) (auto simp: fields_acc_nonspace space_free_Cons)

lemma Fields_cons_field:
  "is_field f \<Longrightarrow> Fields (f @ CHR '' '' # s) = f # Fields s"
  by (simp add: Fields_def fields_acc_field is_field_def)

lemma Fields_single: "is_field f \<Longrightarrow> Fields f = [f]"
  by (simp add: Fields_def fields_acc_last is_field_def)

lemma Fields_Nil [simp]: "Fields [] = []"
  by (simp add: Fields_def)

text \<open>Every field of a line is one: it is not empty and holds no white space.\<close>

lemma fields_acc_is_field:
  assumes "\<And>t. t \<noteq> [] \<Longrightarrow> suffix t (rev cur) \<Longrightarrow> space_width (t @ s) = 0"
    and "f \<in> set (fields_acc cur s)"
  shows "is_field f"
  using assms
proof (induction cur s rule: fields_acc.induct)
  case (1 cur)
  then have "space_width t = 0" if "suffix t (rev cur)" for t
    using that by (cases "t = []") auto
  with 1 show ?case by (auto simp: is_field_def space_free_def split: if_splits)
next
  case (2 cur c s)
  show ?case
  proof (cases "space_width (c # s) = 0")
    case True
    have "space_width (t @ s) = 0" if "t \<noteq> []" "suffix t (rev (c # cur))" for t
    proof -
      from that obtain u where t: "t = u @ [c]" "suffix u (rev cur)"
        by (auto simp: suffix_snoc)
      show ?thesis
        using t True 2(3)[of u] by (cases "u = []") auto
    qed
    with 2 True show ?thesis by (simp add: fields_acc_nonspace)
  next
    case False
    have cur: "is_field (rev cur)" if "cur \<noteq> []"
      unfolding is_field_def space_free_def
    proof (intro conjI ballI)
      fix t assume "t \<in> set (suffixes (rev cur))"
      then show "space_width t = 0"
        using 2(3)[of t] space_width_prefix[of t "c # s"] by (cases "t = []") auto
    qed (use that in simp)
    have "f \<in> set (if cur = [] then [] else [rev cur])
        \<or> f \<in> set (fields_acc [] (drop (space_width (c # s)) (c # s)))"
      using "2.prems"(2) False by (auto simp: fields_acc.simps Let_def split: if_splits)
    then show ?thesis
      using cur 2(2)[OF refl False] by (auto split: if_splits)
  qed
qed

lemma Fields_is_field: "f \<in> set (Fields s) \<Longrightarrow> is_field f"
  unfolding Fields_def by (rule fields_acc_is_field[of "[]" s]) auto

lemma space_free_no_ascii_space:
  assumes "space_free s" "[c] \<in> set space_runes"
  shows "c \<notin> set s"
proof
  assume "c \<in> set s"
  then obtain u v where "s = u @ c # v" by (meson split_list)
  then have "space_width (c # v) = 0" using assms(1) by (auto simp: space_free_def suffix_def)
  with assms(2) show False by (auto simp: space_width_eq_0)
qed

lemma is_field_no_newline: "is_field f \<Longrightarrow> CHR 0x0A \<notin> set f"
  by (rule space_free_no_ascii_space) (auto simp: is_field_def space_runes_def)

section \<open>Join and Split\<close>

fun Join :: "string list \<Rightarrow> string \<Rightarrow> string" where
  "Join [] sep = []"
| "Join [x] sep = x"
| "Join (x # y # xs) sep = x @ sep @ Join (y # xs) sep"

lemma Join_Cons: "Join (x # xs) sep = (if xs = [] then x else x @ sep @ Join xs sep)"
  by (cases xs) auto

lemma Join_append:
  "Join (xs @ ys) sep
     = (if xs = [] then Join ys sep else if ys = [] then Join xs sep
        else Join xs sep @ sep @ Join ys sep)"
  by (induction xs) (auto simp: Join_Cons)

text \<open>\<open>strings.Split\<close> with a separator of one byte, which is all the agent uses.\<close>

fun Split :: "string \<Rightarrow> char \<Rightarrow> string list" where
  "Split [] sep = [[]]"
| "Split (c # s) sep =
     (if c = sep then [] # Split s sep
      else (case Split s sep of [] \<Rightarrow> [[c]] | x # xs \<Rightarrow> (c # x) # xs))"

lemma Split_neq_Nil [simp]: "Split s sep \<noteq> []"
  by (induction s) (auto split: list.splits)

lemma Join_Split: "Join (Split s sep) [sep] = s"
  by (induction s) (auto simp: Join_Cons split: list.splits)

lemma Split_no_sep: "x \<in> set (Split s sep) \<Longrightarrow> sep \<notin> set x"
  by (induction s arbitrary: x) (auto split: list.splits if_splits)

lemma Split_single: "sep \<notin> set x \<Longrightarrow> Split x sep = [x]"
  by (induction x) auto

lemma Split_append_sep: "sep \<notin> set x \<Longrightarrow> Split (x @ sep # s) sep = x # Split s sep"
  by (induction x) auto

lemma Split_Join:
  assumes "xs \<noteq> []" "\<And>x. x \<in> set xs \<Longrightarrow> sep \<notin> set x"
  shows "Split (Join xs [sep]) sep = xs"
  using assms
proof (induction xs)
  case (Cons x xs)
  then have "sep \<notin> set x" by simp
  with Cons show ?case
    by (cases "xs = []") (simp_all add: Join_Cons Split_single Split_append_sep)
qed simp

text \<open>A line built from fields splits into them again.\<close>

lemma Fields_Join:
  assumes "\<And>f. f \<in> set fs \<Longrightarrow> is_field f"
  shows "Fields (Join fs '' '') = fs"
  using assms
  by (induction fs) (auto simp: Join_Cons Fields_single Fields_cons_field)

lemma Join_Fields_inject:
  assumes "\<And>f. f \<in> set fs \<Longrightarrow> is_field f" "\<And>g. g \<in> set gs \<Longrightarrow> is_field g"
  shows "Join fs '' '' = Join gs '' '' \<longleftrightarrow> fs = gs"
proof
  assume "Join fs '' '' = Join gs '' ''"
  then have "Fields (Join fs '' '') = Fields (Join gs '' '')" by (rule arg_cong)
  then show "fs = gs" by (simp only: Fields_Join[OF assms(1)] Fields_Join[OF assms(2)])
qed simp

lemma Fields_Join_Fields [simp]: "Fields (Join (Fields s) '' '') = Fields s"
  by (rule Fields_Join) (rule Fields_is_field)

section \<open>Trimming\<close>

lemma width_in_le: "width_in rs s \<le> length s"
  by (auto simp: width_in_def find_Some_iff prefix_length_le split: option.splits)

function trim_left_by :: "string list \<Rightarrow> string \<Rightarrow> string" where
  "trim_left_by rs s =
     (let n = width_in rs s in if n = 0 then s else trim_left_by rs (drop n s))"
  by pat_completeness auto
termination
proof (relation "measure (\<lambda>(rs, s). length s)", simp)
  fix rs and s :: string and n
  assume "n = width_in rs s" "n \<noteq> 0"
  then show "((rs, drop n s), (rs, s)) \<in> measure (\<lambda>(rs, s). length s)"
    using width_in_le[of rs s] by auto
qed

declare trim_left_by.simps [simp del]

definition TrimSpace :: "string \<Rightarrow> string" where
  "TrimSpace s = rev (trim_left_by (map rev space_runes) (rev (trim_left_by space_runes s)))"

lemma trim_left_by_width: "width_in rs (trim_left_by rs s) = 0"
proof (induction rs s rule: trim_left_by.induct)
  case (1 rs s)
  then show ?case by (subst trim_left_by.simps) (auto simp: Let_def)
qed

lemma trim_left_by_id: "width_in rs s = 0 \<Longrightarrow> trim_left_by rs s = s"
  by (simp add: trim_left_by.simps)

lemma trim_left_by_suffix: "suffix (trim_left_by rs s) s"
proof (induction rs s rule: trim_left_by.induct)
  case (1 rs s)
  then show ?case
    by (subst trim_left_by.simps)
      (auto simp: Let_def intro: suffix_order.trans suffix_drop)
qed

text \<open>\<open>blank_ends s\<close>: \<open>s\<close> begins or ends with white space.\<close>

definition blank_ends :: "string \<Rightarrow> bool" where
  "blank_ends s \<longleftrightarrow> (\<exists>r \<in> set space_runes. prefix r s \<or> suffix r s)"

lemma rev_width_eq_0:
  "width_in (map rev space_runes) (rev s) = 0 \<longleftrightarrow> (\<forall>r \<in> set space_runes. \<not> suffix r s)"
proof -
  have "[] \<notin> set (map rev space_runes)" using Nil_notin_space_runes by auto
  then show ?thesis by (simp add: width_in_eq_0 suffix_to_prefix)
qed

lemma TrimSpace_id: "\<not> blank_ends s \<Longrightarrow> TrimSpace s = s"
  by (simp add: TrimSpace_def blank_ends_def trim_left_by_id rev_width_eq_0 space_width_eq_0)

lemma TrimSpace_not_blank_ends: "\<not> blank_ends (TrimSpace s)"
proof -
  let ?u = "trim_left_by space_runes s"
  let ?v = "trim_left_by (map rev space_runes) (rev ?u)"
  have pre: "prefix (rev ?v) ?u"
    using trim_left_by_suffix[of "map rev space_runes" "rev ?u"]
    by (simp add: suffix_to_prefix)
  have "space_width ?u = 0" by (rule trim_left_by_width)
  moreover from pre obtain z where "?u = rev ?v @ z" by (auto simp: prefix_def)
  ultimately have "space_width (rev ?v) = 0"
    using space_width_prefix[of "rev ?v" z] by simp
  moreover have "width_in (map rev space_runes) (rev (rev ?v)) = 0"
    by (simp only: rev_rev_ident trim_left_by_width)
  ultimately show ?thesis
    unfolding TrimSpace_def blank_ends_def rev_width_eq_0 space_width_eq_0 by blast
qed

lemma TrimSpace_idem [simp]: "TrimSpace (TrimSpace s) = TrimSpace s"
  by (rule TrimSpace_id[OF TrimSpace_not_blank_ends])

lemma field_not_blank_ends: "is_field f \<Longrightarrow> \<not> blank_ends f"
proof -
  assume f: "is_field f"
  have "\<not> suffix r f" if "r \<in> set space_runes" for r
  proof
    assume "suffix r f"
    with f have "space_width r = 0" by (auto simp: is_field_def space_free_def)
    with that show False by (auto simp: space_width_eq_0)
  qed
  moreover have "space_width f = 0" using f by (auto simp: is_field_def space_free_def)
  ultimately show ?thesis by (auto simp: blank_ends_def space_width_eq_0)
qed

lemma space_runes_butlast: "r \<in> set space_runes \<Longrightarrow> CHR '' '' \<notin> set (butlast r)"
  by (auto simp: space_runes_def)

lemma blank_ends_before_field:
  assumes "is_field f" "r \<in> set space_runes"
  shows "\<not> suffix r (s @ CHR '' '' # f)"
proof
  assume "suffix r (s @ CHR '' '' # f)"
  then consider "suffix r f" | us where "r = us @ CHR '' '' # f" "suffix us s"
    using suffix_append[of r "s @ [CHR '' '']" f] by (auto simp: suffix_snoc)
  then show False
  proof cases
    case 1 with assms field_not_blank_ends show False by (auto simp: blank_ends_def)
  next
    case (2 us)
    with assms(1) have "CHR '' '' \<in> set (butlast r)"
      by (auto simp: is_field_def butlast_append)
    with space_runes_butlast[OF assms(2)] show False by simp
  qed
qed

lemma Join_fields_not_blank_ends:
  assumes "\<And>f. f \<in> set fs \<Longrightarrow> is_field f"
  shows "\<not> blank_ends (Join fs '' '')"
proof (cases "length fs \<le> 1")
  case True
  then show ?thesis
    using assms field_not_blank_ends Nil_notin_space_runes
    by (cases fs) (auto simp: blank_ends_def)
next
  case False
  then obtain f fs' where fs: "fs = f # fs'" "fs' \<noteq> []" by (cases fs) auto
  then obtain gs g where gs: "fs' = gs @ [g]" by (meson rev_exhaust)
  have ends: "Join fs '' '' = Join (f # gs) '' '' @ CHR '' '' # g"
    using fs gs Join_append[of "f # gs" "[g]" "'' ''"] by simp
  have "Join fs '' '' = f @ CHR '' '' # Join fs' '' ''"
    using fs by (simp add: Join_Cons)
  moreover have "space_width f = 0" "f \<noteq> []"
    using assms[of f] fs by (auto simp: is_field_def space_free_def)
  ultimately have "space_width (Join fs '' '') = 0"
    by (simp add: space_width_before_space)
  moreover have "\<not> suffix r (Join fs '' '')" if "r \<in> set space_runes" for r
    using blank_ends_before_field[of g r "Join (f # gs) '' ''"] assms fs gs that ends by auto
  ultimately show ?thesis by (auto simp: blank_ends_def space_width_eq_0)
qed

lemma TrimSpace_Join_fields:
  "(\<And>f. f \<in> set fs \<Longrightarrow> is_field f) \<Longrightarrow> TrimSpace (Join fs '' '') = Join fs '' ''"
  by (rule TrimSpace_id[OF Join_fields_not_blank_ends])

section \<open>Prefixes, substrings and letter case\<close>

definition HasPrefix :: "string \<Rightarrow> string \<Rightarrow> bool" where
  "HasPrefix s p \<longleftrightarrow> prefix p s"

definition TrimPrefix :: "string \<Rightarrow> string \<Rightarrow> string" where
  "TrimPrefix s p = (if prefix p s then drop (length p) s else s)"

fun Contains :: "string \<Rightarrow> string \<Rightarrow> bool" where
  "Contains [] p = (p = [])"
| "Contains (c # s) p = (prefix p (c # s) \<or> Contains s p)"

lemma Contains_iff: "Contains s p \<longleftrightarrow> (\<exists>u v. s = u @ p @ v)"
proof (induction s)
  case (Cons c s)
  show ?case
  proof
    assume "Contains (c # s) p"
    then consider "prefix p (c # s)" | "Contains s p" by auto
    then show "\<exists>u v. c # s = u @ p @ v"
    proof cases
      case 1
      then obtain v where "c # s = [] @ p @ v" by (auto simp: prefix_def)
      then show ?thesis by blast
    next
      case 2
      with Cons obtain u v where "c # s = (c # u) @ p @ v" by auto
      then show ?thesis by blast
    qed
  next
    assume "\<exists>u v. c # s = u @ p @ v"
    then obtain u v where e: "c # s = u @ p @ v" by blast
    show "Contains (c # s) p"
    proof (cases u)
      case Nil
      with e have "prefix p (c # s)" by (simp add: prefix_def)
      then show ?thesis by simp
    next
      case (Cons d u')
      with e have "s = u' @ p @ v" by simp
      with Cons.IH show ?thesis by auto
    qed
  qed
qed auto

lemma Contains_trans: "Contains s t \<Longrightarrow> Contains t p \<Longrightarrow> Contains s p"
  unfolding Contains_iff by (metis append.assoc)

lemma Contains_append: "Contains (a @ p @ b) p"
  by (auto simp: Contains_iff)

text \<open>
  \<open>strings.TrimRight(s, "/")\<close> and \<open>strings.Trim(s, "/")\<close>, with a cutset of one byte.
\<close>

definition TrimRight :: "string \<Rightarrow> char \<Rightarrow> string" where
  "TrimRight s c = rev (dropWhile (\<lambda>d. d = c) (rev s))"

definition Trim :: "string \<Rightarrow> char \<Rightarrow> string" where
  "Trim s c = TrimRight (dropWhile (\<lambda>d. d = c) s) c"

text \<open>
  \<open>strings.ToUpper\<close>, as far as it can produce ASCII letters: the ASCII lower-case letters and
  the two runes outside ASCII whose upper case is an ASCII letter (long s, U+017F, and dotless
  i, U+0131). Every other rune outside ASCII has an upper case outside ASCII and is left as it
  is here; the agent only compares the result with ASCII words.
\<close>

fun ToUpper :: "string \<Rightarrow> string" where
  "ToUpper [] = []"
| "ToUpper (c # s) =
     (case s of
        d # t \<Rightarrow> (if c = CHR 0xC5 \<and> d = CHR 0xBF then CHR ''S'' # ToUpper t
                  else if c = CHR 0xC4 \<and> d = CHR 0xB1 then CHR ''I'' # ToUpper t
                  else (if 97 \<le> (of_char c :: nat) \<and> of_char c \<le> (122 :: nat)
                        then char_of (of_char c - 32 :: nat) else c) # ToUpper s)
      | [] \<Rightarrow> [if 97 \<le> (of_char c :: nat) \<and> of_char c \<le> (122 :: nat)
               then char_of (of_char c - 32 :: nat) else c])"

section \<open>Decimal numbers\<close>

definition digit_char :: "nat \<Rightarrow> char" where
  "digit_char d = char_of (48 + d)"

fun nat_str :: "nat \<Rightarrow> string" where
  "nat_str n = (if n < 10 then [digit_char n] else nat_str (n div 10) @ [digit_char (n mod 10)])"

declare nat_str.simps [simp del]

text \<open>\<open>strconv.Itoa\<close>, and \<open>%d\<close> of \<open>fmt\<close>.\<close>

definition Itoa :: "int \<Rightarrow> string" where
  "Itoa i = (if i < 0 then CHR ''-'' # nat_str (nat (- i)) else nat_str (nat i))"

text \<open>A byte that begins no white-space rune.\<close>

definition plain :: "char \<Rightarrow> bool" where
  "plain c \<longleftrightarrow> c \<notin> hd ` set space_runes"

lemma plain_space_width: "plain c \<Longrightarrow> space_width (c # s) = 0"
proof -
  assume c: "plain c"
  have "\<not> prefix r (c # s)" if "r \<in> set space_runes" for r
  proof
    assume p: "prefix r (c # s)"
    from that have "r \<noteq> []" using Nil_notin_space_runes by auto
    with p have "hd r = c" by (cases r) auto
    with that c show False by (auto simp: plain_def)
  qed
  then show ?thesis by (simp add: space_width_eq_0)
qed

lemma plain_space_free: "list_all plain s \<Longrightarrow> space_free s"
  by (induction s) (auto simp: space_free_Cons plain_space_width)

lemma plain_is_field: "s \<noteq> [] \<Longrightarrow> list_all plain s \<Longrightarrow> is_field s"
  by (simp add: is_field_def plain_space_free)

lemma TrimSpace_plain: "list_all plain s \<Longrightarrow> TrimSpace s = s"
proof (cases "s = []")
  case False
  assume "list_all plain s"
  with False have "is_field s" by (rule plain_is_field)
  then show ?thesis by (rule TrimSpace_id[OF field_not_blank_ends])
qed (simp add: TrimSpace_def trim_left_by.simps width_in_def space_runes_def)

lemma digit_of_char: "d < 10 \<Longrightarrow> (of_char (digit_char d) :: nat) = 48 + d"
  by (simp add: digit_char_def)

lemma plain_digit: "d < 10 \<Longrightarrow> plain (digit_char d)"
proof -
  assume d: "d < 10"
  have "(of_char c :: nat) \<noteq> 48 + d" if "c \<in> hd ` set space_runes" for c
    using that d by (auto simp: space_runes_def)
  with digit_of_char[OF d] show ?thesis unfolding plain_def by metis
qed

lemma nat_str_neq_Nil [simp]: "nat_str n \<noteq> []"
  by (subst nat_str.simps) auto

lemma plain_nat_str: "list_all plain (nat_str n)"
proof (induction n rule: nat_str.induct)
  case (1 n)
  then show ?case by (subst nat_str.simps) (auto simp: plain_digit)
qed

lemma is_field_Itoa [simp]: "is_field (Itoa i)"
proof -
  have "plain (CHR ''-'')" by (simp add: plain_def space_runes_def)
  then show ?thesis by (intro plain_is_field) (auto simp: Itoa_def plain_nat_str)
qed

fun dec_val :: "nat \<Rightarrow> string \<Rightarrow> nat" where
  "dec_val n [] = n"
| "dec_val n (c # s) = dec_val (10 * n + (of_char c - 48)) s"

lemma dec_val_snoc: "dec_val n (s @ [c]) = 10 * dec_val n s + (of_char c - 48)"
  by (induction n s rule: dec_val.induct) auto

lemma dec_val_nat_str: "dec_val 0 (nat_str n) = n"
proof (induction n rule: nat_str.induct)
  case (1 n)
  show ?case
  proof (cases "n < 10")
    case True
    then show ?thesis by (subst nat_str.simps) (simp add: digit_of_char)
  next
    case False
    with 1 show ?thesis by (subst nat_str.simps) (simp add: dec_val_snoc digit_of_char)
  qed
qed

lemma nat_str_inject: "nat_str m = nat_str n \<longleftrightarrow> m = n"
  by (metis dec_val_nat_str)

end
