(* ===== verification/Host.thy ===== *)
theory Host
  imports GoStrings "HOL-Library.State_Monad" "HOL-Library.Word" "HOL-Library.Multiset"
begin

text \<open>
  The machine the agent runs on, as far as the agent can see it.

  Everything outside the agent's own memory (other programs, the kernel, files, the clock, the
  panel's HTTP server) is one parameter of the model: a \<open>sys\<close>, which answers a \<open>call\<close> with a
  \<open>reply\<close> and moves its own state, of any type \<open>'w\<close>. Nothing is assumed of it here; a property
  that relies on documented behaviour of an outside program states that as a hypothesis on the
  \<open>sys\<close> (see \<open>Netfilter\<close>).

  A Go procedure is a state-monad program over the process state: the outside world, the list
  of calls made so far (a history, which no program reads) and the package-level variables of the
  agent's packages. Its result is the value the Go procedure returns.
\<close>

section \<open>Calls and replies\<close>

text \<open>
  \<open>net.IP\<close> in its 16-byte form: an IPv4 address \<open>a\<close> is \<open>::ffff:a\<close>, as \<open>net.ParseIP\<close> returns it
  and \<open>IP.Equal\<close> compares it.
\<close>

type_synonym ip = "128 word"

text \<open>A network interface as netlink hands it out: found on the host, or just created.\<close>

datatype link = FoundLink int | NewLink string

text \<open>
  \<open>wgtypes.Key\<close> is an array of bytes, \<open>wgtypes.PeerConfig\<close> and \<open>wgtypes.Config\<close> the structs
  the agent fills in; fields it never sets are left out. A \<open>net.IPNet\<close> is its address and mask.
\<close>

type_synonym key = string
type_synonym ipnet = "ip \<times> nat \<times> nat"

record peer_config =
  pc_PublicKey :: key
  pc_Remove :: bool
  pc_PresharedKey :: "key option"
  pc_PersistentKeepalive :: "int option"
  pc_ReplaceAllowedIPs :: bool
  pc_AllowedIPs :: "ipnet list"

record device_config =
  dc_PrivateKey :: "key option"
  dc_ListenPort :: "int option"
  dc_ReplacePeers :: bool
  dc_Peers :: "peer_config list"

text \<open>
  A peer of a device as \<open>wgctrl\<close> reports it; \<open>None\<close> for a zero handshake time and a nil endpoint.
\<close>

record device_peer =
  dp_PublicKey :: key
  dp_LastHandshake :: "int option"
  dp_ReceiveBytes :: int
  dp_TransmitBytes :: int
  dp_Endpoint :: "string option"

datatype call =
    Exec string "string list"          \<comment> \<open>\<open>exec.Command(name, args...)\<close>, run to its end\<close>
  | StartProcess string "string list"  \<comment> \<open>\<open>cmd.Start\<close>\<close>
  | KillProcess int                    \<comment> \<open>\<open>cmd.Process.Kill\<close> and \<open>Wait\<close>\<close>
  | LookPath string
  | ReadFile string
  | WriteFile string string nat        \<comment> \<open>path, contents, permissions\<close>
  | MkdirAll string nat
  | Rename string string
  | RemoveFile string
  | CreateTemp string string           \<comment> \<open>directory and name pattern\<close>
  | CopyBody string int                \<comment> \<open>the response body into a file, up to a limit; then its \<open>Close\<close>\<close>
  | Chmod string nat
  | OpenFile string
  | ReadHead string nat                \<comment> \<open>\<open>io.ReadFull\<close> of the first bytes\<close>
  | ReadBody int                       \<comment> \<open>\<open>io.ReadAll\<close> of the response body, up to a limit\<close>
  | Stat string
  | Getenv string
  | Executable                         \<comment> \<open>\<open>os.Executable\<close>\<close>
  | ReExec string                      \<comment> \<open>\<open>syscall.Exec\<close> with the process's own arguments\<close>
  | Now                                \<comment> \<open>\<open>time.Now\<close>, in nanoseconds\<close>
  | LogWarning string                  \<comment> \<open>a log line, by the key of its message\<close>
  | HttpGet string
  | HttpPanel string string "(string \<times> string) list" "string option"
                                       \<comment> \<open>method, URL, headers and body of a panel request\<close>
  | RandRead nat                       \<comment> \<open>\<open>io.ReadFull\<close> of that many bytes of \<open>rand.Reader\<close>\<close>
  | Getpid
  | Stdout string                      \<comment> \<open>a write to the standard output\<close>
  | LinkByName string
  | LinkAdd string "int option"        \<comment> \<open>a WireGuard link: name, MTU when one is set\<close>
  | AddrReplace link string
  | LinkSetUp link
  | LinkDel link
  | LinkList
  | AddrList int
  | RouteListV4
  | LinkByIndex int
  | WgctrlNew
  | ConfigureDevice string device_config
  | Device string

text \<open>The requests a program makes.\<close>

definition is_get :: "call \<Rightarrow> bool" where
  "is_get c = (case c of HttpGet url \<Rightarrow> True | _ \<Rightarrow> False)"

lemma is_get_simps [simp]:
  "is_get (HttpGet u)" "\<not> is_get Executable" "\<not> is_get (Chmod p n)" "\<not> is_get (Exec a args)"
  "\<not> is_get (Rename a b)" "\<not> is_get (ReExec a)" "\<not> is_get (RemoveFile a)" "\<not> is_get (CreateTemp a b)"
  "\<not> is_get (CopyBody a k)" "\<not> is_get (OpenFile a)" "\<not> is_get (ReadHead a n)" "\<not> is_get (Getenv a)" "\<not> is_get Now"
  "\<not> is_get (LookPath p)" "\<not> is_get (Stat p)"
  by (simp_all add: is_get_def)

text \<open>
  The reply to a call: its error, its output (for a command standard output, for a file its
  contents), the combined output of a command, a number (a time, an index, a status, a size), the
  modification time of a file and whether it is a directory, and the structured results of the netlink and wgctrl calls. A caller reads the fields its call fills.
\<close>

record reply =
  rerr :: go_error
  rout :: string
  rcomb :: string
  rnum :: int
  rtime :: int
  risdir :: bool
  rlinks :: "(int \<times> string) list"
  raddrs :: "ip list"
  rroutes :: "(ip option \<times> int) list"
  rpeers :: "device_peer list"

definition ok_reply :: reply where
  "ok_reply = \<lparr>rerr = None, rout = [], rcomb = [], rnum = 0, rtime = 0, risdir = False, rlinks = [], raddrs = [],
               rroutes = [], rpeers = []\<rparr>"

definition err_reply :: "string \<Rightarrow> reply" where
  "err_reply e = ok_reply\<lparr>rerr := Some e\<rparr>"

lemma ok_reply_simps [simp]:
  "rerr ok_reply = None" "rout ok_reply = []" "rcomb ok_reply = []" "rnum ok_reply = 0" "rtime ok_reply = 0" "\<not> risdir ok_reply"
  "rlinks ok_reply = []" "raddrs ok_reply = []" "rroutes ok_reply = []" "rpeers ok_reply = []"
  "rerr (err_reply e) = Some e" "rout (err_reply e) = []" "rcomb (err_reply e) = []"
  by (simp_all add: ok_reply_def err_reply_def)

type_synonym 'w sys = "call \<Rightarrow> 'w \<Rightarrow> reply \<times> 'w"

text \<open>
  A clock that does not run backwards: \<open>T\<close> is the time in a state of the world, which no call
  turns back, and \<open>time.Now\<close> reads it. (Go compares times on the monotonic clock.)
\<close>

definition monotone_clock :: "'w sys \<Rightarrow> ('w \<Rightarrow> int) \<Rightarrow> bool" where
  "monotone_clock S T \<longleftrightarrow>
     (\<forall>w. rnum (fst (S Now w)) = T w) \<and> (\<forall>w c. T w \<le> T (snd (S c w)))"

section \<open>The process\<close>

text \<open>
  The errors of \<open>singbox.install\<close> and \<open>singbox.Ensure\<close>, a constructor per \<open>fmt.Errorf\<close> (the messages
  are Chinese text); the last one is kept in a package-level variable.
\<close>

datatype install_error =
    VersionQuery string
  | DownloadFailed string string
  | DownloadStatus string int
  | ReadAsset string string
  | UnpackFailed string string
  | BinaryTooSmall string nat
  | MakeDirFailed string string
  | WriteFailed string string
  | InstallFailed string string
  | LastInstallFailed install_error int

text \<open>
  The state of the process: the world, the history of calls, and the package-level variables
  (\<open>overlay.warnSeen\<close>; \<open>selfupdate.upgradeErr\<close>, \<open>upgrading\<close>, \<open>attemptVersion\<close>, \<open>lastAttempt\<close>;
  \<open>singbox.lastAttempt\<close>, \<open>lastErr\<close>). A \<open>time.Time\<close> is \<open>None\<close> when it is the zero time.
\<close>

record 'w host =
  world :: 'w
  trace :: "call list"
  ov_warnSeen :: "string \<Rightarrow> int option"
  su_upgradeErr :: string
  su_upgrading :: bool
  su_attemptVersion :: string
  su_lastAttempt :: "int option"
  sb_lastAttempt :: "int option"
  sb_lastErr :: "install_error option"

definition init_host :: "'w \<Rightarrow> 'w host" where
  "init_host w = \<lparr>world = w, trace = [], ov_warnSeen = Map.empty, su_upgradeErr = [],
     su_upgrading = False, su_attemptVersion = [], su_lastAttempt = None,
     sb_lastAttempt = None, sb_lastErr = None\<rparr>"

lemma init_host_simps [simp]:
  "world (init_host w) = w" "trace (init_host w) = []" "ov_warnSeen (init_host w) = Map.empty"
  "su_upgradeErr (init_host w) = []" "su_upgrading (init_host w) = False"
  "su_attemptVersion (init_host w) = []" "su_lastAttempt (init_host w) = None"
  "sb_lastAttempt (init_host w) = None" "sb_lastErr (init_host w) = None"
  by (simp_all add: init_host_def)

type_synonym ('w, 'm, 'a) prog = "(('w, 'm) host_scheme, 'a) state"

abbreviation result :: "('w, 'm, 'a) prog \<Rightarrow> ('w, 'm) host_scheme \<Rightarrow> 'a" where
  "result m h \<equiv> fst (run_state m h)"

abbreviation after :: "('w, 'm, 'a) prog \<Rightarrow> ('w, 'm) host_scheme \<Rightarrow> ('w, 'm) host_scheme" where
  "after m h \<equiv> snd (run_state m h)"

lemma after_bind:
  "after (State_Monad.bind m f) h = after (f (result m h)) (after m h)"
  by (simp split: prod.splits)

lemma result_bind:
  "result (State_Monad.bind m f) h = result (f (result m h)) (after m h)"
  by (simp split: prod.splits)

definition do_call :: "'w sys \<Rightarrow> call \<Rightarrow> ('w, 'm, reply) prog" where
  "do_call S c = State (\<lambda>h. case S c (world h) of
     (r, w) \<Rightarrow> (r, h\<lparr>world := w, trace := trace h @ [c]\<rparr>))"

lemma run_do_call:
  "run_state (do_call S c) h
     = (fst (S c (world h)), h\<lparr>world := snd (S c (world h)), trace := trace h @ [c]\<rparr>)"
  by (simp add: do_call_def split: prod.splits)

text \<open>\<open>exec.Command(name, args...).Run()\<close>: the error alone.\<close>

definition run_cmd :: "'w sys \<Rightarrow> string \<Rightarrow> string list \<Rightarrow> ('w, 'm, go_error) prog" where
  "run_cmd S name args = do { r \<leftarrow> do_call S (Exec name args); State_Monad.return (rerr r) }"

lemma run_run_cmd:
  "run_state (run_cmd S name args) h
     = (rerr (fst (S (Exec name args) (world h))),
        h\<lparr>world := snd (S (Exec name args) (world h)), trace := trace h @ [Exec name args]\<rparr>)"
  by (simp add: run_cmd_def run_do_call)

subsection \<open>Loops\<close>

text \<open>\<open>for _, x := range xs { f(x) }\<close>\<close>

fun for_each :: "'a list \<Rightarrow> ('a \<Rightarrow> ('s, unit) state) \<Rightarrow> ('s, unit) state" where
  "for_each [] f = State_Monad.return ()"
| "for_each (x # xs) f = do { f x; for_each xs f }"

text \<open>
  \<open>for i := 0; i < n; i++ { if step() != nil { break } }\<close>; the result is the number of rounds that
  succeeded.
\<close>

fun retry_loop :: "nat \<Rightarrow> ('s, go_error) state \<Rightarrow> ('s, nat) state" where
  "retry_loop 0 step = State_Monad.return 0"
| "retry_loop (Suc n) step = do {
     e \<leftarrow> step;
     if e = nil then do { k \<leftarrow> retry_loop n step; State_Monad.return (Suc k) }
     else State_Monad.return 0 }"

text \<open>
  \<open>for _, x := range xs { if err := f(x); err != nil { return err } }\<close>
\<close>

fun for_each_err :: "'a list \<Rightarrow> ('a \<Rightarrow> ('s, go_error) state) \<Rightarrow> ('s, go_error) state" where
  "for_each_err [] f = State_Monad.return nil"
| "for_each_err (x # xs) f = do {
     e \<leftarrow> f x;
     (case e of None \<Rightarrow> for_each_err xs f | Some m \<Rightarrow> State_Monad.return (Some m)) }"

text \<open>
  A loop that adds up the results of its body: \<open>for _, x := range xs { n += f(x) }\<close>
\<close>

fun sum_each :: "'a list \<Rightarrow> ('a \<Rightarrow> ('s, nat) state) \<Rightarrow> ('s, nat) state" where
  "sum_each [] f = State_Monad.return 0"
| "sum_each (x # xs) f = do {
     n \<leftarrow> f x;
     k \<leftarrow> sum_each xs f;
     State_Monad.return (n + k) }"

text \<open>
  The order in which Go ranges over a map with string keys is not specified. A model of such a
  loop takes it as an argument \<open>ord\<close>, any permutation of the keys.
\<close>

definition range_order :: "(string list \<Rightarrow> string list) \<Rightarrow> bool" where
  "range_order ord \<longleftrightarrow> (\<forall>ks. mset (ord ks) = mset ks)"

lemma range_order_id: "range_order (\<lambda>ks. ks)" "range_order rev"
  by (simp_all add: range_order_def)

lemma range_order_set: "range_order ord \<Longrightarrow> set (ord ks) = set ks"
  by (metis range_order_def set_mset_mset)

lemma range_order_distinct: "range_order ord \<Longrightarrow> distinct (ord ks) \<longleftrightarrow> distinct ks"
  by (metis range_order_def mset_eq_imp_distinct_iff)

section \<open>Which calls a program makes\<close>

definition emits :: "(call \<Rightarrow> bool) \<Rightarrow> ('w, 'm, 'a) prog \<Rightarrow> bool" where
  "emits P m \<longleftrightarrow> (\<forall>h. \<exists>cs. trace (after m h) = trace h @ cs \<and> list_all P cs)"

text \<open>The calls a program makes from a state.\<close>

definition calls :: "('w, 'm, 'a) prog \<Rightarrow> ('w, 'm) host_scheme \<Rightarrow> call list" where
  "calls m h = drop (length (trace h)) (trace (after m h))"

lemma emits_calls: "emits P m \<Longrightarrow> list_all P (calls m h)"
  unfolding emits_def calls_def by (metis append_eq_conv_conj)

lemma emits_trace: "emits P m \<Longrightarrow> trace (after m h) = trace h @ calls m h"
  unfolding emits_def calls_def by (metis append_eq_conv_conj)

lemma emits_return [emits_intros]: "emits P (State_Monad.return x)"
  by (simp add: emits_def)

lemma emits_do_call [emits_intros]: "P c \<Longrightarrow> emits P (do_call S c)"
  by (simp add: emits_def run_do_call)

lemma emits_bind [emits_intros]:
  assumes "emits P m" "\<And>x. emits P (f x)"
  shows "emits P (State_Monad.bind m f)"
  unfolding emits_def
proof
  fix h
  obtain x h' where m: "run_state m h = (x, h')" by fastforce
  from assms(1) m obtain cs where "trace h' = trace h @ cs" "list_all P cs"
    unfolding emits_def by (metis snd_conv)
  moreover from assms(2)[of x] obtain ds
    where "trace (after (f x) h') = trace h' @ ds" "list_all P ds"
    unfolding emits_def by blast
  ultimately show "\<exists>cs. trace (after (State_Monad.bind m f) h) = trace h @ cs \<and> list_all P cs"
    using m by (intro exI[of _ "cs @ ds"]) simp
qed

lemma emits_run_cmd [emits_intros]: "P (Exec name args) \<Longrightarrow> emits P (run_cmd S name args)"
  unfolding run_cmd_def by (intro emits_intros)

lemma emits_if [emits_intros]:
  "(b \<Longrightarrow> emits P m) \<Longrightarrow> (\<not> b \<Longrightarrow> emits P n) \<Longrightarrow> emits P (if b then m else n)"
  by simp

lemma emits_option [emits_intros]:
  "(x = None \<Longrightarrow> emits P m) \<Longrightarrow> (\<And>y. x = Some y \<Longrightarrow> emits P (f y))
   \<Longrightarrow> emits P (case x of None \<Rightarrow> m | Some y \<Rightarrow> f y)"
  by (cases x) auto

lemma emits_sum [emits_intros]:
  "(\<And>e. x = Inl e \<Longrightarrow> emits P (f e)) \<Longrightarrow> (\<And>y. x = Inr y \<Longrightarrow> emits P (g y))
   \<Longrightarrow> emits P (case x of Inl e \<Rightarrow> f e | Inr y \<Rightarrow> g y)"
  by (cases x) auto

lemma emits_prod [emits_intros]:
  "(\<And>a b. x = (a, b) \<Longrightarrow> emits P (f a b)) \<Longrightarrow> emits P (case x of (a, b) \<Rightarrow> f a b)"
  by (cases x) auto

lemma emits_let [emits_intros]:
  "emits P (f x) \<Longrightarrow> emits P (Let x f)"
  by simp

lemma emits_for_each [emits_intros]:
  "(\<And>x. x \<in> set xs \<Longrightarrow> emits P (f x)) \<Longrightarrow> emits P (for_each xs f)"
  by (induction xs) (auto intro!: emits_intros)

lemma emits_for_each_err [emits_intros]:
  "(\<And>x. x \<in> set xs \<Longrightarrow> emits P (f x)) \<Longrightarrow> emits P (for_each_err xs f)"
  by (induction xs) (auto intro!: emits_intros)

lemma emits_sum_each [emits_intros]:
  "(\<And>x. x \<in> set xs \<Longrightarrow> emits P (f x)) \<Longrightarrow> emits P (sum_each xs f)"
  by (induction xs) (auto intro!: emits_intros)

lemma emits_retry_loop [emits_intros]: "emits P step \<Longrightarrow> emits P (retry_loop n step)"
  by (induction n) (auto intro!: emits_intros)

lemma emits_get [emits_intros]: "emits P State_Monad.get"
  by (simp add: emits_def)

lemma emits_update [emits_intros]:
  "(\<And>h. trace (f h) = trace h) \<Longrightarrow> emits P (State_Monad.update f)"
  by (simp add: emits_def State_Monad.update_def)

lemma emits_mono: "emits P m \<Longrightarrow> (\<And>c. P c \<Longrightarrow> Q c) \<Longrightarrow> emits Q m"
  unfolding emits_def by (metis list.pred_mono_strong)

text \<open>The calls of a sequence of programs, when the programs only add to the history.\<close>

lemma calls_bind:
  assumes "emits P m" "\<And>x. emits P (f x)"
  shows "calls (State_Monad.bind m f) h = calls m h @ calls (f (result m h)) (after m h)"
proof -
  have "trace (after (f (result m h)) (after m h)) = trace h @ calls m h @ calls (f (result m h)) (after m h)"
    using emits_trace[OF assms(1), of h] emits_trace[OF assms(2), of "result m h" "after m h"] by simp
  then have "calls (State_Monad.bind m f) h
      = drop (length (trace h)) (trace h @ calls m h @ calls (f (result m h)) (after m h))"
    by (simp only: calls_def[of "State_Monad.bind m f"] after_bind)
  then show ?thesis by simp
qed

lemma filter_calls_none: "emits (\<lambda>cl. \<not> P cl) m \<Longrightarrow> filter P (calls m h) = []"
  using emits_calls[of "\<lambda>cl. \<not> P cl" m h] by (simp add: filter_empty_conv list_all_iff)

lemma calls_return [simp]: "calls (State_Monad.return x) h = []"
  by (simp add: calls_def)

lemma calls_do_call [simp]: "calls (do_call S c) h = [c]"
  by (simp add: calls_def run_do_call)

lemma calls_run_cmd [simp]: "calls (run_cmd S name args) h = [Exec name args]"
  by (simp add: calls_def run_run_cmd)

text \<open>Every program built from \<open>do_call\<close> and the loops only adds to the history.\<close>

lemma calls_for_each_Cons:
  assumes "\<And>x. emits (\<lambda>_. True) (f x)"
  shows "calls (for_each (x # xs) f) h = calls (f x) h @ calls (for_each xs f) (after (f x) h)"
  using calls_bind[of "\<lambda>_. True" "f x" "\<lambda>_. for_each xs f" h] assms
  by (simp add: emits_for_each)

lemma calls_for_each_append:
  assumes "\<And>x. emits (\<lambda>_. True) (f x)"
  shows "calls (for_each (xs @ ys) f) h
     = calls (for_each xs f) h @ calls (for_each ys f) (after (for_each xs f) h)"
proof (induction xs arbitrary: h)
  case (Cons x xs)
  have "after (for_each (x # xs) f) h = after (for_each xs f) (after (f x) h)"
    by (simp split: prod.splits)
  then show ?case
    using Cons calls_for_each_Cons[of f x "xs @ ys" h] calls_for_each_Cons[of f x xs h] assms by simp
qed simp

lemma for_each_map_filter:
  "for_each xs (\<lambda>x. if P x then State_Monad.return () else f x) = for_each (filter (\<lambda>x. \<not> P x) xs) f"
  by (induction xs) auto

section \<open>What a program leaves alone\<close>

text \<open>
  \<open>g\<close> is a view of the world: the rules of the firewall, the links, the peers of the devices. A
  program none of whose calls changes it leaves it alone.
\<close>

definition leaves :: "('w \<Rightarrow> 'v) \<Rightarrow> ('w, 'm, 'a) prog \<Rightarrow> bool" where
  "leaves g m \<longleftrightarrow> (\<forall>h. g (world (after m h)) = g (world h))"

lemma leavesD: "leaves g m \<Longrightarrow> g (world (after m h)) = g (world h)"
  by (simp add: leaves_def)

lemma leaves_do_call: "(\<And>w. g (snd (S c w)) = g w) \<Longrightarrow> leaves g (do_call S c)"
  by (simp add: leaves_def run_do_call)

lemma leaves_return [leaves_intros]: "leaves g (State_Monad.return x)"
  by (simp add: leaves_def)

lemma leaves_bind [leaves_intros]:
  "leaves g m \<Longrightarrow> (\<And>x. leaves g (f x)) \<Longrightarrow> leaves g (State_Monad.bind m f)"
  by (simp add: leaves_def after_bind del: run_state_bind)

lemma leaves_then:
  "(\<And>x. leaves g (f x)) \<Longrightarrow> g (world (after (State_Monad.bind m f) h)) = g (world (after m h))"
  by (simp add: leaves_def after_bind del: run_state_bind)

lemma leaves_run_cmd: "(\<And>w. g (snd (S (Exec name args) w)) = g w) \<Longrightarrow> leaves g (run_cmd S name args)"
  unfolding run_cmd_def by (intro leaves_intros leaves_do_call)

lemma leaves_if [leaves_intros]:
  "(b \<Longrightarrow> leaves g m) \<Longrightarrow> (\<not> b \<Longrightarrow> leaves g n) \<Longrightarrow> leaves g (if b then m else n)"
  by simp

lemma leaves_let [leaves_intros]: "leaves g (f x) \<Longrightarrow> leaves g (Let x f)"
  by simp

lemma leaves_option [leaves_intros]:
  "(x = None \<Longrightarrow> leaves g m) \<Longrightarrow> (\<And>y. x = Some y \<Longrightarrow> leaves g (f y))
   \<Longrightarrow> leaves g (case x of None \<Rightarrow> m | Some y \<Rightarrow> f y)"
  by (cases x) auto

lemma leaves_sum [leaves_intros]:
  "(\<And>e. x = Inl e \<Longrightarrow> leaves g (f e)) \<Longrightarrow> (\<And>y. x = Inr y \<Longrightarrow> leaves g (k y))
   \<Longrightarrow> leaves g (case x of Inl e \<Rightarrow> f e | Inr y \<Rightarrow> k y)"
  by (cases x) auto

lemma leaves_prod [leaves_intros]:
  "(\<And>a b. x = (a, b) \<Longrightarrow> leaves g (f a b)) \<Longrightarrow> leaves g (case x of (a, b) \<Rightarrow> f a b)"
  by (cases x) auto

lemma leaves_for_each [leaves_intros]:
  "(\<And>x. x \<in> set xs \<Longrightarrow> leaves g (f x)) \<Longrightarrow> leaves g (for_each xs f)"
  by (induction xs) (auto intro!: leaves_intros)

lemma leaves_for_each_err [leaves_intros]:
  "(\<And>x. x \<in> set xs \<Longrightarrow> leaves g (f x)) \<Longrightarrow> leaves g (for_each_err xs f)"
  by (induction xs) (auto intro!: leaves_intros)

lemma leaves_get [leaves_intros]: "leaves g State_Monad.get"
  by (simp add: leaves_def)

lemma leaves_update [leaves_intros]:
  "(\<And>h. world (f h) = world h) \<Longrightarrow> leaves g (State_Monad.update f)"
  by (simp add: leaves_def State_Monad.update_def)

section \<open>What a program keeps\<close>

definition keeps :: "('s \<Rightarrow> bool) \<Rightarrow> ('s, 'a) state \<Rightarrow> bool" where
  "keeps I m \<longleftrightarrow> (\<forall>h. I h \<longrightarrow> I (snd (run_state m h)))"

lemma keepsD: "keeps I m \<Longrightarrow> I h \<Longrightarrow> I (snd (run_state m h))"
  by (simp add: keeps_def)

lemma keeps_return [keeps_intros]: "keeps I (State_Monad.return x)"
  by (simp add: keeps_def)

lemma keeps_bind [keeps_intros]:
  "keeps I m \<Longrightarrow> (\<And>x. keeps I (f x)) \<Longrightarrow> keeps I (State_Monad.bind m f)"
  by (auto simp: keeps_def split: prod.splits)

lemma keeps_if [keeps_intros]:
  "(b \<Longrightarrow> keeps I m) \<Longrightarrow> (\<not> b \<Longrightarrow> keeps I n) \<Longrightarrow> keeps I (if b then m else n)"
  by simp

lemma keeps_option [keeps_intros]:
  "(x = None \<Longrightarrow> keeps I m) \<Longrightarrow> (\<And>y. x = Some y \<Longrightarrow> keeps I (f y))
   \<Longrightarrow> keeps I (case x of None \<Rightarrow> m | Some y \<Rightarrow> f y)"
  by (cases x) auto

lemma keeps_sum [keeps_intros]:
  "(\<And>e. x = Inl e \<Longrightarrow> keeps I (f e)) \<Longrightarrow> (\<And>y. x = Inr y \<Longrightarrow> keeps I (g y))
   \<Longrightarrow> keeps I (case x of Inl e \<Rightarrow> f e | Inr y \<Rightarrow> g y)"
  by (cases x) auto

lemma keeps_prod [keeps_intros]:
  "(\<And>a b. x = (a, b) \<Longrightarrow> keeps I (f a b)) \<Longrightarrow> keeps I (case x of (a, b) \<Rightarrow> f a b)"
  by (cases x) auto

lemma keeps_let [keeps_intros]: "keeps I (f x) \<Longrightarrow> keeps I (Let x f)"
  by simp

lemma keeps_for_each [keeps_intros]:
  "(\<And>x. x \<in> set xs \<Longrightarrow> keeps I (f x)) \<Longrightarrow> keeps I (for_each xs f)"
  by (induction xs) (auto intro!: keeps_intros)

lemma keeps_for_each_err [keeps_intros]:
  "(\<And>x. x \<in> set xs \<Longrightarrow> keeps I (f x)) \<Longrightarrow> keeps I (for_each_err xs f)"
  by (induction xs) (auto intro!: keeps_intros)

lemma keeps_sum_each [keeps_intros]:
  "(\<And>x. x \<in> set xs \<Longrightarrow> keeps I (f x)) \<Longrightarrow> keeps I (sum_each xs f)"
  by (induction xs) (auto intro!: keeps_intros)

lemma keeps_retry_loop [keeps_intros]: "keeps I step \<Longrightarrow> keeps I (retry_loop n step)"
  by (induction n) (auto intro!: keeps_intros)

lemma keeps_do_call:
  "(\<And>h. I h \<Longrightarrow> I (h\<lparr>world := snd (S c (world h)), trace := trace h @ [c]\<rparr>))
   \<Longrightarrow> keeps I (do_call S c)"
  by (simp add: keeps_def run_do_call)

text \<open>A view of the state every element of a loop leaves alone is left alone by the loop.\<close>

lemma for_each_frame:
  assumes "\<And>x h. x \<in> set xs \<Longrightarrow> g (snd (run_state (f x) h)) = g h"
  shows "g (snd (run_state (for_each xs f) h)) = g h"
  using assms
proof (induction xs arbitrary: h)
  case (Cons x xs)
  then show ?case by (auto split: prod.splits) (metis snd_conv)
qed simp

text \<open>A loop whose body acts on a view of the state as \<open>F\<close> acts on it as the fold of \<open>F\<close>.\<close>

lemma for_each_fold:
  assumes "\<And>x h. x \<in> set xs \<Longrightarrow> I h \<Longrightarrow> g (snd (run_state (f x) h)) = F x (g h)"
    and "\<And>x. x \<in> set xs \<Longrightarrow> keeps I (f x)" and "I h"
  shows "g (snd (run_state (for_each xs f) h)) = fold F xs (g h)"
  using assms
proof (induction xs arbitrary: h)
  case (Cons x xs)
  obtain u h' where r: "run_state (f x) h = (u, h')" by (rule prod.exhaust)
  have "I h'" using Cons.prems(2)[of x] Cons.prems(3) r by (auto simp: keeps_def)
  moreover have "g h' = F x (g h)" using Cons.prems(1)[of x h] Cons.prems(3) r by simp
  ultimately show ?case using Cons.IH[of h'] Cons.prems r by simp
qed simp

end
