(* ===== verification/Netfilter.thy ===== *)
theory Netfilter
  imports Host
begin

text \<open>
  The firewall as the agent uses it: the \<open>iptables\<close> program is code outside the repository, so
  what it does is a hypothesis, \<open>iptables_ok S R\<close>: \<open>R w t c\<close> reads the rules of chain \<open>c\<close> of
  table \<open>t\<close> (\<open>[]\<close> for the default table) in state \<open>w\<close>, and the commands \<open>-C\<close>, \<open>-A\<close>, \<open>-I\<close> and
  \<open>-D\<close> act on it as the manual page of iptables says. A rule is the argument list of its match
  and target. \<open>iptables_list_ok\<close> adds the format of \<open>-S\<close>.

  The locale \<open>netfilter\<close> proves once what the two idioms of the agent do to the rules:
  check-then-add and repeated deletion. It is interpreted on \<open>sim_sys\<close>, a host with the
  documented iptables, a file system and a clock, on which the witnesses run.
\<close>

section \<open>The documented commands\<close>

type_synonym spec = "string list"
type_synonym rules = "string \<Rightarrow> string \<Rightarrow> spec list"

definition ipt_args :: "string \<Rightarrow> string \<Rightarrow> string \<Rightarrow> spec \<Rightarrow> string list" where
  "ipt_args t act c spec = (if t = [] then [] else [''-t'', t]) @ act # c # spec"

definition set_chain :: "rules \<Rightarrow> string \<Rightarrow> string \<Rightarrow> spec list \<Rightarrow> rules" where
  "set_chain R t c rs = R(t := (R t)(c := rs))"

lemma set_chain_same [simp]: "set_chain R t c rs t c = rs"
  by (simp add: set_chain_def)

lemma set_chain_other [simp]: "(t', c') \<noteq> (t, c) \<Longrightarrow> set_chain R t c rs t' c' = R t' c'"
  by (auto simp: set_chain_def)

lemma set_chain_id [simp]: "set_chain R t c (R t c) = R"
  by (simp add: set_chain_def)

lemma set_chain_set_chain [simp]: "set_chain (set_chain R t c rs) t c rs' = set_chain R t c rs'"
  by (simp add: set_chain_def)

text \<open>The command letter of an iptables argument list, and the calls that can change a rule.\<close>

definition ipt_action :: "string list \<Rightarrow> string" where
  "ipt_action args =
     (case args of
        [] \<Rightarrow> []
      | a # rest \<Rightarrow>
          (if a = ''-t'' then (case rest of t # b # _ \<Rightarrow> b | _ \<Rightarrow> []) else a))"

fun changes_rules :: "call \<Rightarrow> bool" where
  "changes_rules (Exec name args) =
     (name = ''iptables'' \<and> ipt_action args \<in> {''-A'', ''-I'', ''-D''})"
| "changes_rules (ReExec _) = True"
| "changes_rules (StartProcess _ _) = True"
| "changes_rules (KillProcess _) = True"
| "changes_rules _ = False"

lemma ipt_action_args: "act \<noteq> ''-t'' \<Longrightarrow> ipt_action (ipt_args t act c spec) = act"
  by (simp add: ipt_action_def ipt_args_def)

definition iptables_ok :: "'w sys \<Rightarrow> ('w \<Rightarrow> rules) \<Rightarrow> bool" where
  "iptables_ok S R \<longleftrightarrow>
     (\<forall>w t c spec.
        (rerr (fst (S (Exec ''iptables'' (ipt_args t ''-C'' c spec)) w)) = None
           \<longleftrightarrow> spec \<in> set (R w t c))
      \<and> (rerr (fst (S (Exec ''iptables'' (ipt_args t ''-D'' c spec)) w)) = None
           \<longleftrightarrow> spec \<in> set (R w t c))
      \<and> R (snd (S (Exec ''iptables'' (ipt_args t ''-D'' c spec)) w))
           = set_chain (R w) t c (remove1 spec (R w t c))
      \<and> R (snd (S (Exec ''iptables'' (ipt_args t ''-A'' c spec)) w))
           = (if rerr (fst (S (Exec ''iptables'' (ipt_args t ''-A'' c spec)) w)) = None
              then set_chain (R w) t c (R w t c @ [spec]) else R w)
      \<and> R (snd (S (Exec ''iptables'' (ipt_args t ''-I'' c spec)) w))
           = (if rerr (fst (S (Exec ''iptables'' (ipt_args t ''-I'' c spec)) w)) = None
              then set_chain (R w) t c (spec # R w t c) else R w))
   \<and> (\<forall>w cl. \<not> changes_rules cl \<longrightarrow> R (snd (S cl w)) = R w)"

text \<open>Every insertion and addition succeeds (no lock held, every specification valid).\<close>

definition iptables_accepts :: "'w sys \<Rightarrow> bool" where
  "iptables_accepts S \<longleftrightarrow>
     (\<forall>w t c spec. \<forall>act \<in> {''-A'', ''-I''}.
        rerr (fst (S (Exec ''iptables'' (ipt_args t act c spec)) w)) = None)"

text \<open>
  \<open>iptables -S CHAIN\<close> prints the policy line and then every rule on a line of its own, as the
  \<open>-A\<close> command that makes it.
\<close>

definition list_output :: "string \<Rightarrow> string \<Rightarrow> spec list \<Rightarrow> string" where
  "list_output pol c rs =
     concat (map (\<lambda>l. l @ [CHR 0x0A])
       ((''-P '' @ c @ '' '' @ pol) # map (\<lambda>r. ''-A '' @ c @ '' '' @ Join r '' '') rs))"

definition printable_rules :: "spec list \<Rightarrow> bool" where
  "printable_rules rs \<longleftrightarrow> (\<forall>r \<in> set rs. r \<noteq> [] \<and> (\<forall>f \<in> set r. is_field f))"

definition iptables_list_ok :: "'w sys \<Rightarrow> ('w \<Rightarrow> rules) \<Rightarrow> bool" where
  "iptables_list_ok S R \<longleftrightarrow>
     (\<forall>w c. printable_rules (R w [] c) \<longrightarrow>
        rerr (fst (S (Exec ''iptables'' [''-S'', c]) w)) = None
      \<and> (\<exists>pol. CHR 0x0A \<notin> set pol
            \<and> rout (fst (S (Exec ''iptables'' [''-S'', c]) w)) = list_output pol c (R w [] c)))"

section \<open>The two idioms of the agent\<close>

text \<open>
  Check for a rule and add it when it is missing; the result is the error of the addition.
  \<open>act\<close> is \<open>-A\<close> or \<open>-I\<close>.
\<close>

definition ensure_spec ::
  "'w sys \<Rightarrow> string \<Rightarrow> string \<Rightarrow> string \<Rightarrow> spec \<Rightarrow> ('w, 'm, go_error) prog" where
  "ensure_spec S act t c spec = do {
     e \<leftarrow> run_cmd S ''iptables'' (ipt_args t ''-C'' c spec);
     if e = nil then State_Monad.return nil
     else run_cmd S ''iptables'' (ipt_args t act c spec) }"

text \<open>Delete up to \<open>n\<close> copies of a rule.\<close>

definition drop_copies ::
  "'w sys \<Rightarrow> nat \<Rightarrow> string \<Rightarrow> string \<Rightarrow> spec \<Rightarrow> ('w, 'm, nat) prog" where
  "drop_copies S n t c spec = retry_loop n (run_cmd S ''iptables'' (ipt_args t ''-D'' c spec))"

text \<open>What they do to a chain.\<close>

definition add_missing :: "string \<Rightarrow> spec \<Rightarrow> spec list \<Rightarrow> spec list" where
  "add_missing act spec rs =
     (if spec \<in> set rs then rs else if act = ''-I'' then spec # rs else rs @ [spec])"

definition remove_copies :: "nat \<Rightarrow> spec \<Rightarrow> spec list \<Rightarrow> spec list" where
  "remove_copies n spec rs = (remove1 spec ^^ n) rs"

lemma add_missing_idem [simp]: "add_missing act spec (add_missing act spec rs) = add_missing act spec rs"
  by (auto simp: add_missing_def)

lemma set_add_missing: "set (add_missing act spec rs) = insert spec (set rs)"
  by (auto simp: add_missing_def)

lemma count_add_missing:
  "count_list (add_missing act spec rs) r
     = (if r = spec then max 1 (count_list rs r) else count_list rs r)"
proof -
  have "spec \<in> set rs \<Longrightarrow> 1 \<le> count_list rs spec"
    by (metis count_list_0_iff less_one not_le_imp_less)
  then show ?thesis by (auto simp: add_missing_def count_list_0_iff)
qed

lemma add_missing_filter_neq:
  "filter (\<lambda>r. r \<noteq> spec) (add_missing act spec rs) = filter (\<lambda>r. r \<noteq> spec) rs"
  by (simp add: add_missing_def)

lemma remove_copies_0 [simp]: "remove_copies 0 spec rs = rs"
  by (simp add: remove_copies_def)

lemma remove_copies_Suc: "remove_copies (Suc n) spec rs = remove_copies n spec (remove1 spec rs)"
  by (simp add: remove_copies_def funpow_swap1)

lemma count_remove_copies:
  "count_list (remove_copies n spec rs) r
     = (if r = spec then count_list rs r - n else count_list rs r)"
  by (induction n arbitrary: rs) (auto simp: remove_copies_Suc count_list_remove1)

lemma remove_copies_notin: "spec \<notin> set rs \<Longrightarrow> remove_copies n spec rs = rs"
  by (induction n) (auto simp: remove_copies_Suc remove1_idem)

lemma remove_copies_filter_neq:
  "filter (\<lambda>r. r \<noteq> spec) (remove_copies n spec rs) = filter (\<lambda>r. r \<noteq> spec) rs"
  by (induction n arbitrary: rs) (auto simp: remove_copies_Suc remove1_commute_filter)

lemma set_remove_copies_subset: "set (remove_copies n spec rs) \<subseteq> set rs"
  by (induction n arbitrary: rs) (auto simp: remove_copies_Suc dest!: set_remove1_subset[THEN subsetD] subsetD)

lemma in_remove_copies: "r \<noteq> spec \<Longrightarrow> r \<in> set (remove_copies n spec rs) \<longleftrightarrow> r \<in> set rs"
  by (induction n arbitrary: rs) (auto simp: remove_copies_Suc)

text \<open>Both idioms over a list of rules of one chain.\<close>

definition ensure_all ::
  "'w sys \<Rightarrow> string \<Rightarrow> string \<Rightarrow> string \<Rightarrow> spec list \<Rightarrow> ('w, 'm, unit) prog" where
  "ensure_all S act t c specs = for_each specs (\<lambda>spec. do {
     _ \<leftarrow> ensure_spec S act t c spec; State_Monad.return () })"

definition drop_all ::
  "'w sys \<Rightarrow> nat \<Rightarrow> string \<Rightarrow> string \<Rightarrow> spec list \<Rightarrow> ('w, 'm, unit) prog" where
  "drop_all S n t c specs = for_each specs (\<lambda>spec. do {
     _ \<leftarrow> drop_copies S n t c spec; State_Monad.return () })"

lemma set_fold_add_missing: "set (fold (add_missing act) specs rs) = set specs \<union> set rs"
  by (induction specs arbitrary: rs) (auto simp: set_add_missing)

lemma count_fold_add_missing:
  "count_list (fold (add_missing act) specs rs) r
     = (if r \<in> set specs then max 1 (count_list rs r) else count_list rs r)"
  by (induction specs arbitrary: rs) (auto simp: count_add_missing)

lemma filter_fold_add_missing:
  "set specs \<subseteq> A \<Longrightarrow> filter (\<lambda>r. r \<notin> A) (fold (add_missing act) specs rs) = filter (\<lambda>r. r \<notin> A) rs"
  by (induction specs arbitrary: rs) (auto simp: add_missing_def)

lemma fold_add_missing_id: "set specs \<subseteq> set rs \<Longrightarrow> fold (add_missing act) specs rs = rs"
  by (induction specs) (auto simp: add_missing_def)

lemma fold_add_missing_idem:
  "fold (add_missing act) specs (fold (add_missing act) specs rs) = fold (add_missing act) specs rs"
  by (rule fold_add_missing_id) (simp add: set_fold_add_missing)

lemma count_fold_remove_copies:
  "distinct specs \<Longrightarrow> count_list (fold (remove_copies n) specs rs) r
     = (if r \<in> set specs then count_list rs r - n else count_list rs r)"
  by (induction specs arbitrary: rs) (auto simp: count_remove_copies)

lemma filter_fold_remove_copies:
  "set specs \<subseteq> A \<Longrightarrow> filter (\<lambda>r. r \<notin> A) (fold (remove_copies n) specs rs) = filter (\<lambda>r. r \<notin> A) rs"
proof (induction specs arbitrary: rs)
  case (Cons s specs)
  have "filter (\<lambda>r. r \<notin> A) (remove_copies n s rs) = filter (\<lambda>r. r \<notin> A) rs"
    using Cons.prems by (induction n arbitrary: rs) (auto simp: remove_copies_Suc remove1_commute_filter)
  with Cons show ?case by simp
qed simp

section \<open>The interface\<close>

locale netfilter =
  fixes S :: "'w sys" and R :: "'w \<Rightarrow> rules"
  assumes iptables: "iptables_ok S R"
begin

lemma check_iff:
  "rerr (fst (S (Exec ''iptables'' (ipt_args t ''-C'' c spec)) w)) = None \<longleftrightarrow> spec \<in> set (R w t c)"
  using iptables unfolding iptables_ok_def by blast

lemma delete_iff:
  "rerr (fst (S (Exec ''iptables'' (ipt_args t ''-D'' c spec)) w)) = None \<longleftrightarrow> spec \<in> set (R w t c)"
  using iptables unfolding iptables_ok_def by blast

lemma delete_effect:
  "R (snd (S (Exec ''iptables'' (ipt_args t ''-D'' c spec)) w))
     = set_chain (R w) t c (remove1 spec (R w t c))"
  using iptables unfolding iptables_ok_def by blast

lemma add_effect:
  assumes "act \<in> {''-A'', ''-I''}"
  shows "R (snd (S (Exec ''iptables'' (ipt_args t act c spec)) w))
     = (if rerr (fst (S (Exec ''iptables'' (ipt_args t act c spec)) w)) = None
        then set_chain (R w) t c (if act = ''-I'' then spec # R w t c else R w t c @ [spec]) else R w)"
proof (cases "act = ''-I''")
  case True
  then show ?thesis using iptables unfolding iptables_ok_def by simp
next
  case False
  with assms have "act = ''-A''" by simp
  then show ?thesis using iptables unfolding iptables_ok_def by simp
qed

lemma other_effect: "\<not> changes_rules cl \<Longrightarrow> R (snd (S cl w)) = R w"
  using iptables unfolding iptables_ok_def by blast

lemma check_effect: "R (snd (S (Exec ''iptables'' (ipt_args t ''-C'' c spec)) w)) = R w"
  by (rule other_effect) (simp add: ipt_action_args)

lemma ensure_spec_effect:
  assumes "act \<in> {''-A'', ''-I''}"
  shows "R (world (after (ensure_spec S act t c spec) h))
     = (if result (ensure_spec S act t c spec) h = nil
        then set_chain (R (world h)) t c (add_missing act spec (R (world h) t c))
        else R (world h))"
    and "result (ensure_spec S act t c spec) h = nil
       \<Longrightarrow> spec \<in> set (R (world (after (ensure_spec S act t c spec) h)) t c)"
proof -
  show eff: "R (world (after (ensure_spec S act t c spec) h))
     = (if result (ensure_spec S act t c spec) h = nil
        then set_chain (R (world h)) t c (add_missing act spec (R (world h) t c))
        else R (world h))"
    using assms
    by (auto simp: ensure_spec_def run_run_cmd check_iff add_effect check_effect add_missing_def)
  show "spec \<in> set (R (world (after (ensure_spec S act t c spec) h)) t c)"
    if "result (ensure_spec S act t c spec) h = nil"
    using that by (simp add: eff set_add_missing)
qed

lemma ensure_spec_accepts:
  assumes "act \<in> {''-A'', ''-I''}" "iptables_accepts S"
  shows "R (world (after (ensure_spec S act t c spec) h))
     = set_chain (R (world h)) t c (add_missing act spec (R (world h) t c))"
proof -
  have "result (ensure_spec S act t c spec) h = nil"
    using assms unfolding iptables_accepts_def
    by (auto simp: ensure_spec_def run_run_cmd)
  then show ?thesis by (simp add: ensure_spec_effect(1)[OF assms(1), of t c spec h])
qed

lemma drop_copies_effect:
  "R (world (after (drop_copies S n t c spec) h))
     = set_chain (R (world h)) t c (remove_copies n spec (R (world h) t c))
   \<and> result (drop_copies S n t c spec) h = min n (count_list (R (world h) t c) spec)"
proof (induction n arbitrary: h)
  case 0
  then show ?case by (simp add: drop_copies_def)
next
  case (Suc n)
  let ?c = "Exec ''iptables'' (ipt_args t ''-D'' c spec)"
  let ?h = "h\<lparr>world := snd (S ?c (world h)), trace := trace h @ [?c]\<rparr>"
  show ?case
  proof (cases "spec \<in> set (R (world h) t c)")
    case True
    then have "1 \<le> count_list (R (world h) t c) spec"
      by (metis count_list_0_iff less_one not_le_imp_less)
    moreover have "run_state (drop_copies S (Suc n) t c spec) h
        = (Suc (result (drop_copies S n t c spec) ?h), after (drop_copies S n t c spec) ?h)"
      using True
      by (simp add: drop_copies_def run_run_cmd delete_iff split: prod.splits)
    ultimately show ?thesis
      using Suc.IH[of ?h] by (simp add: delete_effect remove_copies_Suc count_list_remove1)
  next
    case False
    then show ?thesis
      by (simp add: drop_copies_def run_run_cmd delete_iff delete_effect remove1_idem
          remove_copies_notin count_list_0_iff)
  qed
qed

lemmas drop_copies_rules = drop_copies_effect[THEN conjunct1]
lemmas drop_copies_result = drop_copies_effect[THEN conjunct2]

lemma ensure_all_effect:
  assumes "act \<in> {''-A'', ''-I''}" "iptables_accepts S"
  shows "R (world (after (ensure_all S act t c specs) h))
     = set_chain (R (world h)) t c (fold (add_missing act) specs (R (world h) t c))"
proof (induction specs arbitrary: h)
  case (Cons s specs)
  let ?h = "after (ensure_spec S act t c s) h"
  have "after (ensure_all S act t c (s # specs)) h = after (ensure_all S act t c specs) ?h"
    by (simp add: ensure_all_def split: prod.splits)
  then show ?case
    using Cons.IH[of ?h] by (simp add: ensure_spec_accepts[OF assms, of t c s h])
qed (simp add: ensure_all_def)

lemma drop_all_effect:
  "R (world (after (drop_all S n t c specs) h))
     = set_chain (R (world h)) t c (fold (remove_copies n) specs (R (world h) t c))"
proof (induction specs arbitrary: h)
  case (Cons s specs)
  let ?h = "after (drop_copies S n t c s) h"
  have "after (drop_all S n t c (s # specs)) h = after (drop_all S n t c specs) ?h"
    by (simp add: drop_all_def split: prod.splits)
  then show ?case
    using Cons.IH[of ?h] by (simp add: drop_copies_rules)
qed (simp add: drop_all_def)

text \<open>A program none of whose calls changes a rule leaves the rules alone.\<close>

abbreviation quiet :: "('w, 'm, 'a) prog \<Rightarrow> bool" where
  "quiet \<equiv> leaves R"

lemma quiet_do_call: "\<not> changes_rules cl \<Longrightarrow> quiet (do_call S cl)"
  by (rule leaves_do_call) (rule other_effect)

lemma quiet_run_cmd: "\<not> changes_rules (Exec name args) \<Longrightarrow> quiet (run_cmd S name args)"
  by (rule leaves_run_cmd) (rule other_effect)

lemmas quietD = leavesD[of R]

lemmas quiet_return = leaves_return[of R]
  and quiet_bind = leaves_bind[of R]
  and quiet_if = leaves_if[of _ R]
  and quiet_for_each = leaves_for_each[of _ R]

lemmas quiet_intros = leaves_return[of R] leaves_bind[of R] leaves_if[of _ R] leaves_let[of R]
  leaves_option[of _ R] leaves_sum[of _ R] leaves_prod[of _ R] leaves_for_each[of _ R]
  leaves_for_each_err[of _ R] leaves_get[of R] leaves_update[of _ R] quiet_run_cmd quiet_do_call

end

section \<open>A host with the documented iptables\<close>

record sim =
  sim_rules :: rules
  sim_files :: "string \<Rightarrow> string option"
  sim_clock :: int
  sim_tick :: nat
  sim_answers :: "(call \<times> reply) list"

definition sim_host :: sim where
  "sim_host = \<lparr>sim_rules = (\<lambda>t c. []), sim_files = Map.empty, sim_clock = 0, sim_tick = 1,
     sim_answers = []\<rparr>"

definition sim_iptables :: "string \<Rightarrow> string \<Rightarrow> string \<Rightarrow> spec \<Rightarrow> sim \<Rightarrow> reply \<times> sim" where
  "sim_iptables t act c spec w =
     (let rs = sim_rules w t c;
          put = (\<lambda>rs'. w\<lparr>sim_rules := set_chain (sim_rules w) t c rs'\<rparr>)
      in if act = ''-C'' then (if spec \<in> set rs then ok_reply else err_reply ''exit status 1'', w)
         else if act = ''-D''
           then (if spec \<in> set rs then ok_reply else err_reply ''exit status 1'', put (remove1 spec rs))
         else if act = ''-A'' then (ok_reply, put (rs @ [spec]))
         else if act = ''-I'' then (ok_reply, put (spec # rs))
         else if act = ''-S'' then (ok_reply\<lparr>rout := list_output ''ACCEPT'' c rs\<rparr>, w)
         else (err_reply ''exit status 2'', w))"

text \<open>
  Commands other than iptables, and the netlink and wgctrl calls, are answered from a table, with
  a failure by default; they change nothing.
\<close>

definition sim_answer :: "call \<Rightarrow> sim \<Rightarrow> reply" where
  "sim_answer c w = (case map_of (sim_answers w) c of
     None \<Rightarrow> err_reply ''exit status 1'' | Some r \<Rightarrow> r)"

fun sim_sys :: "sim sys" where
  "sim_sys (Exec name args) w =
     (if name = ''iptables'' then
        (case args of
           a # b # rest \<Rightarrow>
             (if a = ''-t'' then (case rest of x # y # spec \<Rightarrow> sim_iptables b x y spec w
                                 | _ \<Rightarrow> (err_reply ''exit status 2'', w))
              else sim_iptables [] a b rest w)
         | _ \<Rightarrow> (err_reply ''exit status 2'', w))
      else (sim_answer (Exec name args) w, w))"
| "sim_sys (ReadFile p) w =
     (case sim_files w p of None \<Rightarrow> (err_reply ''no such file'', w)
      | Some s \<Rightarrow> (ok_reply\<lparr>rout := s\<rparr>, w))"
| "sim_sys (WriteFile p s m) w = (ok_reply, w\<lparr>sim_files := (sim_files w)(p \<mapsto> s)\<rparr>)"
| "sim_sys Now w = (ok_reply\<lparr>rnum := sim_clock w\<rparr>, w\<lparr>sim_clock := sim_clock w + int (sim_tick w)\<rparr>)"
| "sim_sys (LogWarning k) w = (ok_reply, w)"
| "sim_sys c w = (sim_answer c w, w)"

lemma sim_sys_ipt:
  "act \<noteq> ''-t'' \<Longrightarrow> sim_sys (Exec ''iptables'' (ipt_args t act c spec)) w = sim_iptables t act c spec w"
  by (simp add: ipt_args_def)

lemma sim_iptables_keeps:
  "act \<notin> {''-A'', ''-I'', ''-D''} \<Longrightarrow> sim_rules (snd (sim_iptables t act c spec w)) = sim_rules w"
  by (simp add: sim_iptables_def Let_def)

lemma sim_keeps: "\<not> changes_rules cl \<Longrightarrow> sim_rules (snd (sim_sys cl w)) = sim_rules w"
  by (cases "(cl, w)" rule: sim_sys.cases)
    (auto simp: ipt_action_def sim_iptables_keeps split: list.splits option.splits)

declare sim_sys.simps(1) [simp del]

lemmas sim_ipt_simps = sim_sys_ipt sim_iptables_def Let_def

theorem sim_iptables_ok: "iptables_ok sim_sys sim_rules"
  unfolding iptables_ok_def
  using sim_keeps by (simp add: sim_ipt_simps remove1_idem)

theorem sim_iptables_accepts: "iptables_accepts sim_sys"
  unfolding iptables_accepts_def by (simp add: sim_ipt_simps)

lemma sim_sys_list: "sim_sys (Exec ''iptables'' [''-S'', c]) w = sim_iptables [] ''-S'' c [] w"
  by (simp add: sim_sys.simps)

theorem sim_iptables_list_ok: "iptables_list_ok sim_sys sim_rules"
  unfolding iptables_list_ok_def
  by (auto simp: sim_sys_list sim_iptables_def Let_def intro!: exI[of _ "''ACCEPT''"])

text \<open>Its clock advances by a fixed amount each time it is read.\<close>

theorem sim_monotone_clock: "monotone_clock sim_sys sim_clock"
proof -
  have "sim_clock w \<le> sim_clock (snd (sim_sys cl w))" for cl w
    by (cases "(cl, w)" rule: sim_sys.cases)
      (auto simp: sim_sys.simps(1) sim_iptables_def Let_def split: list.splits option.splits)
  then show ?thesis by (simp add: monotone_clock_def)
qed

interpretation sim: netfilter sim_sys sim_rules
  by unfold_locales (rule sim_iptables_ok)

end
