(* ===== verification/Interfaces.thy ===== *)
theory Interfaces
  imports Host
begin

text \<open>
  The contracts several components of the agent share, as locales. Each is interpreted, in the
  theory of the component that provides it, on that component's own definitions.

  \<^item> \<open>stale_plan\<close>: what a reconcile step tears down. Every reconciler of the agent (overlay
    links, policy lines, policy subnets, interfaces, peers) computes the things that were applied
    and are no longer wanted.
  \<^item> \<open>cooldown\<close>: a step that acts at most once per period and key (self-check warnings, upgrade
    attempts, installs), with the skipped calls leaving the window where it is.
\<close>

section \<open>Tearing down what is no longer wanted\<close>

locale stale_plan =
  fixes applied :: "'o \<Rightarrow> 'k set" and wanted :: "'n \<Rightarrow> 'k set"
    and stale :: "'o \<Rightarrow> 'n \<Rightarrow> 'k list"
  assumes set_stale: "set (stale old new) = applied old - wanted new"
begin

lemma stale_disjoint: "set (stale old new) \<inter> wanted new = {}"
  by (simp add: set_stale Diff_disjoint inf_commute)

lemma stale_subset: "set (stale old new) \<subseteq> applied old"
  by (auto simp: set_stale)

lemma stale_empty: "applied old \<subseteq> wanted new \<Longrightarrow> stale old new = []"
  by (metis Diff_eq_empty_iff set_empty set_stale)

lemma left_after_removal: "applied old - set (stale old new) = applied old \<inter> wanted new"
  by (auto simp: set_stale)

text \<open>What is present after the stale things are removed and the wanted ones are ensured.\<close>

lemma converged: "applied old - set (stale old new) \<union> wanted new = wanted new"
  by (auto simp: set_stale)

end

section \<open>At most once per period\<close>

text \<open>
  \<open>act k (a, b) s\<close> is one call about \<open>k\<close>, in which the clock is read twice: \<open>a\<close> when the time
  since the last action is taken, \<open>b\<close> when the new action is stamped. It gives whether the call
  acts, and the new state. \<open>last s k\<close> is the stamp of the last action about \<open>k\<close>.
\<close>

type_synonym readings = "int \<times> int"

text \<open>The readings at which a sequence of calls acts about a key.\<close>

fun act_times ::
  "('k \<Rightarrow> readings \<Rightarrow> 's \<Rightarrow> bool \<times> 's) \<Rightarrow> 'k \<Rightarrow> ('k \<times> readings) list \<Rightarrow> 's \<Rightarrow> readings list" where
  "act_times act j [] s = []"
| "act_times act j ((k, t) # cs) s =
     (if j = k \<and> fst (act k t s) then [t] else []) @ act_times act j cs (snd (act k t s))"

text \<open>The state after a sequence of calls.\<close>

definition act_states :: "('k \<Rightarrow> readings \<Rightarrow> 's \<Rightarrow> bool \<times> 's) \<Rightarrow> ('k \<times> readings) list \<Rightarrow> 's \<Rightarrow> 's" where
  "act_states act cs s = fold (\<lambda>(k, t) s. snd (act k t s)) cs s"

lemma act_states_simps [simp]:
  "act_states act [] s = s"
  "act_states act ((k, t) # cs) s = act_states act cs (snd (act k t s))"
  "act_states act (cs @ ds) s = act_states act ds (act_states act cs s)"
  by (simp_all add: act_states_def)

lemma act_times_append:
  "act_times act j (cs @ ds) s = act_times act j cs s @ act_times act j ds (act_states act cs s)"
  by (induction act j cs s rule: act_times.induct) auto

locale cooldown =
  fixes act :: "'k \<Rightarrow> readings \<Rightarrow> 's \<Rightarrow> bool \<times> 's" and last :: "'s \<Rightarrow> 'k \<Rightarrow> int option"
    and period :: int
  assumes acts_iff:
      "fst (act k (a, b) s) \<longleftrightarrow> (case last s k of None \<Rightarrow> True | Some t \<Rightarrow> period \<le> a - t)"
    and last_act: "fst (act k (a, b) s) \<Longrightarrow> last (snd (act k (a, b) s)) k = Some b"
    and last_skip: "\<not> fst (act k (a, b) s) \<Longrightarrow> last (snd (act k (a, b) s)) k = last s k"
    and last_other: "j \<noteq> k \<Longrightarrow> last (snd (act k (a, b) s)) j = last s j"
    and period_pos: "0 < period"
begin

lemma act_times_subset: "t \<in> set (act_times act j cs s) \<Longrightarrow> (j, t) \<in> set cs"
  by (induction act j cs s rule: act_times.induct) (auto split: if_splits)

lemma first_act_after_last:
  "last s j = Some t \<Longrightarrow> act_times act j cs s = (a, b) # us \<Longrightarrow> t + period \<le> a"
proof (induction cs arbitrary: s)
  case (Cons c cs)
  obtain k a' b' where c: "c = (k, a', b')" by (metis surj_pair)
  show ?case
  proof (cases "j = k \<and> fst (act k (a', b') s)")
    case True
    with Cons.prems c acts_iff[of k a' b' s] show ?thesis by auto
  next
    case False
    then have "last (snd (act k (a', b') s)) j = Some t"
      using Cons.prems(1) last_skip[of k a' b' s] last_other[of j k a' b' s]
      by (cases "j = k") auto
    with Cons False c show ?thesis by auto
  qed
qed simp

text \<open>
  Two actions about one key are at least a period apart, whatever calls come between, on a
  clock that does not run backwards within a call.
\<close>

lemma acts_spaced:
  assumes "\<forall>(k, a, b) \<in> set cs. a \<le> b"
  shows "sorted_wrt (\<lambda>(a, b) (a', b'). b + period \<le> a') (act_times act j cs s)"
  using assms
proof (induction cs arbitrary: s)
  case (Cons c cs)
  obtain k a b where c: "c = (k, a, b)" by (metis surj_pair)
  let ?s = "snd (act k (a, b) s)"
  let ?us = "act_times act j cs ?s"
  have IH: "sorted_wrt (\<lambda>(a, b) (a', b'). b + period \<le> a') ?us" using Cons by simp
  show ?case
  proof (cases "j = k \<and> fst (act k (a, b) s)")
    case True
    have "b + period \<le> fst u" if "u \<in> set ?us" for u
    proof (cases ?us)
      case (Cons v vs)
      obtain va vb where v: "v = (va, vb)" by fastforce
      have first: "b + period \<le> va"
        using first_act_after_last[of ?s j b cs va vb vs] last_act[of k a b s] True Cons v by auto
      have "(j, v) \<in> set cs" using act_times_subset[of v j cs ?s] Cons by simp
      with Cons.prems v have "va \<le> vb" by auto
      moreover have "u = v \<or> vb + period \<le> fst u"
        using that IH Cons v by (cases u) auto
      ultimately show ?thesis using first v period_pos by auto
    qed (use that in simp)
    with True IH c show ?thesis by (auto split: prod.splits)
  next
    case False
    with IH c show ?thesis by auto
  qed
qed simp

text \<open>So \<open>n\<close> actions about one key take at least \<open>n - 1\<close> periods.\<close>

lemma spaced_bound:
  assumes "sorted_wrt (\<lambda>(a, b) (a', b'). b + period \<le> a') ts"
    and "\<forall>(a, b) \<in> set ts. lo \<le> a \<and> a \<le> b \<and> b \<le> hi" and "lo \<le> hi"
  shows "(int (length ts) - 1) * period \<le> hi - lo"
  using assms
proof (induction ts arbitrary: lo)
  case (Cons t ts)
  obtain a b where t: "t = (a, b)" by fastforce
  show ?case
  proof (cases ts)
    case Nil
    with Cons.prems show ?thesis by simp
  next
    case (Cons u us)
    have "\<forall>(a', b') \<in> set ts. b + period \<le> a' \<and> a' \<le> b' \<and> b' \<le> hi"
      using Cons.prems(1,2) t by (auto simp: case_prod_unfold)
    moreover from this Cons have "b + period \<le> hi" by auto
    ultimately have "(int (length ts) - 1) * period \<le> hi - (b + period)"
      using Cons.IH[of "b + period"] Cons.prems(1) by simp
    moreover have "lo \<le> b" using Cons.prems(2) t by auto
    ultimately show ?thesis by (simp add: algebra_simps)
  qed
next
  case Nil
  with period_pos show ?case by simp
qed

lemma acts_bound:
  assumes "\<forall>(k, a, b) \<in> set cs. lo \<le> a \<and> a \<le> b \<and> b \<le> hi" and "lo \<le> hi"
  shows "(int (length (act_times act j cs s)) - 1) * period \<le> hi - lo"
proof (rule spaced_bound)
  show "sorted_wrt (\<lambda>(a, b) (a', b'). b + period \<le> a') (act_times act j cs s)"
    using assms(1) by (intro acts_spaced) auto
  show "\<forall>(a, b) \<in> set (act_times act j cs s). lo \<le> a \<and> a \<le> b \<and> b \<le> hi"
    using assms(1) act_times_subset[of _ j cs s] by fastforce
qed (fact assms(2))

text \<open>
  Skipped calls do not move the window: a call a full period after the last action acts, however
  many calls were made in between.
\<close>

lemma acts_after_period:
  assumes "last s k = Some t" and "\<forall>(j, a, b) \<in> set cs. j = k \<longrightarrow> a < t + period"
    and "t + period \<le> a"
  shows "fst (act k (a, b) (fold (\<lambda>(j, u) s. snd (act j u s)) cs s))"
  using assms(1,2)
proof (induction cs arbitrary: s)
  case Nil
  with assms(3) show ?case by (simp add: acts_iff)
next
  case (Cons c cs)
  obtain j a' b' where c: "c = (j, a', b')" by (metis surj_pair)
  have "last (snd (act j (a', b') s)) k = Some t"
    using Cons.prems c acts_iff[of k a' b' s] last_skip[of k a' b' s] last_other[of k j a' b' s]
    by (cases "j = k") auto
  with Cons c show ?case by auto
qed

end

end
