(* ===== verification/Overlay.thy ===== *)
theory Overlay
  imports Netfilter Interfaces
begin

text \<open>
  \<open>src/overlay/overlay.go\<close>: the point-to-point overlay links (VXLAN, IPIP, GRE) of a node. This
  theory holds the definitions, one per Go function and in its order, and the lemmas on the pure
  ones; \<open>OverlayEffects\<close> has what the procedures do to the host.

  Log lines are left out, but for the self-check warnings, whose rate limit is part of the
  component's behaviour. The integers of a \<open>Config\<close> are only compared, printed and, in
  \<open>linkMTU\<close>, subtracted from a larger one, so no operation on them can wrap.
\<close>

section \<open>Configuration\<close>

definition VXLANOverhead :: int where
  "VXLANOverhead = 50"

definition KindVXLAN :: string where "KindVXLAN = ''vxlan''"

definition KindIPIP :: string where "KindIPIP = ''ipip''"

definition KindGRE :: string where "KindGRE = ''gre''"

lemmas kind_consts = KindVXLAN_def KindIPIP_def KindGRE_def

record ov_config =
  cfg_Kind :: string
  cfg_Name :: string
  cfg_VNI :: int
  cfg_Port :: int
  cfg_Key :: int
  cfg_LocalIP :: string
  cfg_Dev :: string
  cfg_Local :: string
  cfg_Remote :: string
  cfg_MTU :: int
  cfg_TunnelMTU :: int
  cfg_Routes :: "string list"

text \<open>The zero value of the struct.\<close>

definition empty_config :: ov_config where
  "empty_config = \<lparr>cfg_Kind = [], cfg_Name = [], cfg_VNI = 0, cfg_Port = 0, cfg_Key = 0,
     cfg_LocalIP = [], cfg_Dev = [], cfg_Local = [], cfg_Remote = [], cfg_MTU = 0,
     cfg_TunnelMTU = 0, cfg_Routes = []\<rparr>"

section \<open>Routes, kinds and sizes\<close>

definition routeArgs :: "string \<Rightarrow> string list" where
  "routeArgs spec = [''route'', ''replace''] @ Fields spec"

definition routeDelArgs :: "string \<Rightarrow> string list" where
  "routeDelArgs spec = [''route'', ''del''] @ Fields spec"

text \<open>\<open>wanted[c.Name] = set of c.Routes\<close>, a later config of the same name replacing the former.\<close>

fun wanted_routes :: "ov_config list \<Rightarrow> (string \<rightharpoonup> string set) \<Rightarrow> string \<rightharpoonup> string set" where
  "wanted_routes [] m = m"
| "wanted_routes (c # cs) m = wanted_routes cs (m(cfg_Name c \<mapsto> set (cfg_Routes c)))"

definition staleRoutes :: "ov_config list \<Rightarrow> ov_config list \<Rightarrow> string list" where
  "staleRoutes prev next =
     (let wanted = wanted_routes next Map.empty
      in concat (map (\<lambda>c. case wanted (cfg_Name c) of
                        None \<Rightarrow> []
                      | Some s \<Rightarrow> filter (\<lambda>r. r \<notin> s) (cfg_Routes c)) prev))"

definition kind :: "ov_config \<Rightarrow> string" where
  "kind c = (if cfg_Kind c = KindIPIP \<or> cfg_Kind c = KindGRE then cfg_Kind c else KindVXLAN)"

definition overhead :: "ov_config \<Rightarrow> int" where
  "overhead c = (if kind c = KindIPIP then 20 else if kind c = KindGRE then 24 else VXLANOverhead)"

definition linkMTU :: "ov_config \<Rightarrow> int" where
  "linkMTU c =
     (if cfg_MTU c > 0 then cfg_MTU c
      else if cfg_TunnelMTU c > overhead c then cfg_TunnelMTU c - overhead c
      else 0)"

text \<open>The loop of \<open>RouteDev\<close> over the remaining fields.\<close>

fun route_dev_in :: "string list \<Rightarrow> string" where
  "route_dev_in (f # g # fs) = (if f = ''dev'' then g else route_dev_in (g # fs))"
| "route_dev_in _ = []"

definition RouteDev :: "string \<Rightarrow> string" where
  "RouteDev text = route_dev_in (Fields text)"

definition opt_arg :: "bool \<Rightarrow> string \<Rightarrow> string \<Rightarrow> string list" where
  "opt_arg b key val = (if b then [key, val] else [])"

definition addArgs :: "ov_config \<Rightarrow> string list" where
  "addArgs c =
     (let k = kind c
      in if k \<noteq> KindVXLAN then
           [''tunnel'', ''add'', cfg_Name c, ''mode'', k]
           @ opt_arg (cfg_Remote c \<noteq> []) ''remote'' (cfg_Remote c)
           @ opt_arg (cfg_LocalIP c \<noteq> []) ''local'' (cfg_LocalIP c)
           @ opt_arg (cfg_Dev c \<noteq> []) ''dev'' (cfg_Dev c)
           @ opt_arg (k = KindGRE \<and> cfg_Key c > 0) ''key'' (Itoa (cfg_Key c))
         else
           [''link'', ''add'', cfg_Name c, ''type'', ''vxlan'', ''id'', Itoa (cfg_VNI c)]
           @ opt_arg (cfg_LocalIP c \<noteq> []) ''local'' (cfg_LocalIP c)
           @ opt_arg (cfg_Remote c \<noteq> []) ''remote'' (cfg_Remote c)
           @ opt_arg (cfg_Dev c \<noteq> []) ''dev'' (cfg_Dev c)
           @ opt_arg (cfg_Port c > 0) ''dstport'' (Itoa (cfg_Port c)))"

definition matches :: "string \<Rightarrow> ov_config \<Rightarrow> bool" where
  "matches show c =
     (if TrimSpace show = [] then False
      else let k = kind c
      in if k \<noteq> KindVXLAN then
           (if \<not> Contains show (''link/'' @ k) then False
            else if cfg_Remote c \<noteq> [] \<and> \<not> Contains show (k @ '' remote '' @ cfg_Remote c) then False
            else if cfg_LocalIP c \<noteq> [] \<and> \<not> Contains show (''local '' @ cfg_LocalIP c) then False
            else if cfg_Dev c \<noteq> [] \<and> Contains show ''local any'' then False
            else if cfg_Dev c \<noteq> [] \<and> Contains show ''dev '' \<and> \<not> Contains show (''dev '' @ cfg_Dev c)
              then False
            else if k = KindGRE \<and> cfg_Key c > 0 \<and> \<not> Contains show (''key '' @ Itoa (cfg_Key c)) then False
            else True)
         else
           (let checks = [''vxlan id '' @ Itoa (cfg_VNI c) @ '' '']
                  @ (if cfg_Remote c \<noteq> [] then [''remote '' @ cfg_Remote c] else [])
                  @ (if cfg_Port c > 0 then [''dstport '' @ Itoa (cfg_Port c)] else [])
                  @ (if cfg_Dev c \<noteq> [] then [''dev '' @ cfg_Dev c] else [])
                  @ (if cfg_LocalIP c \<noteq> [] then [''local '' @ cfg_LocalIP c] else [])
            in list_all (Contains show) checks))"

section \<open>Planning\<close>

definition Plan :: "ov_config list \<Rightarrow> ov_config list \<Rightarrow> string list \<times> ov_config list" where
  "Plan prev next =
     (let wanted = set (map cfg_Name (filter (\<lambda>c. cfg_Name c \<noteq> []) next));
          remove = map cfg_Name
            (filter (\<lambda>c. cfg_Name c \<notin> wanted) (filter (\<lambda>c. cfg_Name c \<noteq> []) prev));
          ensure = filter (\<lambda>c. cfg_Name c \<noteq> []) next
      in (remove, ensure))"

section \<open>Running ip and iptables\<close>

definition overlay_ip :: "'w sys \<Rightarrow> string list \<Rightarrow> ('w, 'm, go_error) prog" where
  "overlay_ip S args = do {
     r \<leftarrow> do_call S (Exec ''ip'' args);
     State_Monad.return (case rerr r of
       None \<Rightarrow> nil
     | Some e \<Rightarrow> Some (''ip '' @ Join args '' '' @ '': '' @ e @ '' ('' @ TrimSpace (rcomb r) @ '')''))
   }"

definition showLink :: "'w sys \<Rightarrow> string \<Rightarrow> ('w, 'm, string) prog" where
  "showLink S name = do {
     r \<leftarrow> do_call S (Exec ''ip'' [''-d'', ''link'', ''show'', ''dev'', name]);
     State_Monad.return (if rerr r \<noteq> nil then [] else rcomb r) }"

definition showAddr :: "'w sys \<Rightarrow> string \<Rightarrow> ('w, 'm, string) prog" where
  "showAddr S name = do {
     r \<leftarrow> do_call S (Exec ''ip'' [''-4'', ''addr'', ''show'', ''dev'', name]);
     State_Monad.return (if rerr r \<noteq> nil then [] else rcomb r) }"

definition fwSpecs :: "ov_config \<Rightarrow> spec list" where
  "fwSpecs c = [[''-p'', ''4''], [''-p'', ''47'']]
     @ (if cfg_Name c \<noteq> [] then [[''-i'', cfg_Name c]] else [])"

definition firewallAllow :: "'w sys \<Rightarrow> ov_config \<Rightarrow> ('w, 'm, unit) prog" where
  "firewallAllow S c = for_each (fwSpecs c) (\<lambda>spec. do {
     e \<leftarrow> run_cmd S ''iptables'' ([''-C'', ''INPUT''] @ spec @ [''-j'', ''ACCEPT'']);
     if e = nil then State_Monad.return ()
     else do {
       _ \<leftarrow> do_call S (Exec ''iptables'' ([''-I'', ''INPUT''] @ spec @ [''-j'', ''ACCEPT'']));
       State_Monad.return () } })"

definition firewallForget :: "'w sys \<Rightarrow> string \<Rightarrow> ('w, 'm, unit) prog" where
  "firewallForget S name =
     (if name = [] then State_Monad.return ()
      else do {
        _ \<leftarrow> retry_loop 8 (run_cmd S ''iptables''
               [''-D'', ''INPUT'', ''-i'', name, ''-j'', ''ACCEPT'']);
        State_Monad.return () })"

definition forwardSpecs :: "ov_config \<Rightarrow> spec list" where
  "forwardSpecs c =
     (if cfg_Name c = [] then [] else [[''-i'', cfg_Name c], [''-o'', cfg_Name c]])"

definition ip_forward_path :: string where
  "ip_forward_path = ''/proc/sys/net/ipv4/ip_forward''"

definition ensureForwarding :: "'w sys \<Rightarrow> ('w, 'm, unit) prog" where
  "ensureForwarding S = do {
     r \<leftarrow> do_call S (ReadFile ip_forward_path);
     if rerr r = nil \<and> TrimSpace (rout r) = ''1'' then State_Monad.return ()
     else do {
       _ \<leftarrow> do_call S (WriteFile ip_forward_path (''1'' @ [CHR 0x0A]) 420);
       State_Monad.return () } }"

definition forwardAllow :: "'w sys \<Rightarrow> ov_config \<Rightarrow> ('w, 'm, unit) prog" where
  "forwardAllow S c = for_each (forwardSpecs c) (\<lambda>spec. do {
     e \<leftarrow> run_cmd S ''iptables'' ([''-C'', ''FORWARD''] @ spec @ [''-j'', ''ACCEPT'']);
     if e = nil then State_Monad.return ()
     else do {
       _ \<leftarrow> do_call S (Exec ''iptables'' ([''-I'', ''FORWARD''] @ spec @ [''-j'', ''ACCEPT'']));
       State_Monad.return () } })"

definition forwardForget :: "'w sys \<Rightarrow> string \<Rightarrow> ('w, 'm, unit) prog" where
  "forwardForget S name = for_each (forwardSpecs (empty_config\<lparr>cfg_Name := name\<rparr>)) (\<lambda>spec. do {
     _ \<leftarrow> retry_loop 8 (run_cmd S ''iptables''
            ([''-D'', ''FORWARD''] @ spec @ [''-j'', ''ACCEPT'']));
     State_Monad.return () })"

definition rp_filter_path :: "string \<Rightarrow> string" where
  "rp_filter_path name = ''/proc/sys/net/ipv4/conf/'' @ name @ ''/rp_filter''"

definition relaxRPFilter :: "'w sys \<Rightarrow> string \<Rightarrow> ('w, 'm, unit) prog" where
  "relaxRPFilter S name =
     (if name = [] then State_Monad.return ()
      else do {
        r \<leftarrow> do_call S (ReadFile (rp_filter_path ''all''));
        (if rerr r = nil \<and> TrimSpace (rout r) = ''1''
         then do { _ \<leftarrow> do_call S (WriteFile (rp_filter_path ''all'') (''2'' @ [CHR 0x0A]) 420);
                   State_Monad.return () }
         else State_Monad.return ());
        _ \<leftarrow> do_call S (WriteFile (rp_filter_path name) (''2'' @ [CHR 0x0A]) 420);
        State_Monad.return () })"

section \<open>One link\<close>

definition applicable :: "ov_config \<Rightarrow> bool" where
  "applicable c =
     (if cfg_Name c = [] \<or> TrimSpace (cfg_Local c) = [] then False
      else if kind c = KindVXLAN \<and> cfg_VNI c < 1 then False
      else True)"

text \<open>
  The first part of \<open>Ensure\<close>: keep, create or recreate the link. The result says whether to go
  on (\<open>False\<close> is the early return after a failed creation).
\<close>

definition ensure_link :: "'w sys \<Rightarrow> ov_config \<Rightarrow> ('w, 'm, bool) prog" where
  "ensure_link S c = do {
     show \<leftarrow> showLink S (cfg_Name c);
     if matches show c then State_Monad.return True
     else do {
       (if TrimSpace show \<noteq> []
        then do { _ \<leftarrow> overlay_ip S [''link'', ''del'', cfg_Name c]; State_Monad.return () }
        else State_Monad.return ());
       e \<leftarrow> overlay_ip S (addArgs c);
       State_Monad.return (e = nil) } }"

text \<open>
  The rest of \<open>Ensure\<close>, for a link that exists: it is brought up and let through the firewall,
  then sized, addressed and given its routes.
\<close>

definition finish_link :: "'w sys \<Rightarrow> ov_config \<Rightarrow> ('w, 'm, unit) prog" where
  "finish_link S c = do {
     (let mtu = linkMTU c
      in if mtu > 0
         then do { _ \<leftarrow> overlay_ip S [''link'', ''set'', cfg_Name c, ''mtu'', Itoa mtu];
                   State_Monad.return () }
         else State_Monad.return ());
     addrs \<leftarrow> showAddr S (cfg_Name c);
     (if \<not> Contains addrs ('' '' @ cfg_Local c @ '' '')
      then do {
        _ \<leftarrow> overlay_ip S [''addr'', ''flush'', ''dev'', cfg_Name c];
        _ \<leftarrow> overlay_ip S [''addr'', ''add'', cfg_Local c, ''dev'', cfg_Name c];
        State_Monad.return () }
      else State_Monad.return ());
     for_each (cfg_Routes c) (\<lambda>r. do { _ \<leftarrow> overlay_ip S (routeArgs r); State_Monad.return () }) }"

definition configure_link :: "'w sys \<Rightarrow> ov_config \<Rightarrow> ('w, 'm, unit) prog" where
  "configure_link S c = do {
     _ \<leftarrow> overlay_ip S [''link'', ''set'', cfg_Name c, ''up''];
     relaxRPFilter S (cfg_Name c);
     firewallAllow S c;
     ensureForwarding S;
     forwardAllow S c;
     finish_link S c }"

definition overlay_Ensure :: "'w sys \<Rightarrow> ov_config \<Rightarrow> ('w, 'm, unit) prog" where
  "overlay_Ensure S c =
     (if \<not> applicable c then State_Monad.return ()
      else do {
        go_on \<leftarrow> ensure_link S c;
        if go_on then configure_link S c else State_Monad.return () })"

definition overlay_Remove :: "'w sys \<Rightarrow> string \<Rightarrow> ('w, 'm, unit) prog" where
  "overlay_Remove S name =
     (if name = [] then State_Monad.return ()
      else do {
        firewallForget S name;
        forwardForget S name;
        _ \<leftarrow> overlay_ip S [''link'', ''del'', name];
        State_Monad.return () })"

section \<open>Duplicate rules and the self-check\<close>

definition managedInputRules :: "ov_config list \<Rightarrow> string set" where
  "managedInputRules links =
     {''-p 4 -j ACCEPT'', ''-p 47 -j ACCEPT''}
     \<union> set (map (\<lambda>c. ''-i '' @ cfg_Name c @ '' -j ACCEPT'') (filter (\<lambda>c. cfg_Name c \<noteq> []) links))"

definition managedForwardRules :: "ov_config list \<Rightarrow> string set" where
  "managedForwardRules links =
     set (concat (map (\<lambda>c. if cfg_Name c = [] then []
                         else [''-i '' @ cfg_Name c @ '' -j ACCEPT'',
                               ''-o '' @ cfg_Name c @ '' -j ACCEPT'']) links))"

definition ruleSpec :: "string \<Rightarrow> string" where
  "ruleSpec line =
     (case Fields line of
        a # c # r # rs \<Rightarrow> if a \<noteq> ''-A'' then [] else Join (r # rs) '' ''
      | _ \<Rightarrow> [])"

fun count_rules :: "string set \<Rightarrow> string list \<Rightarrow> (string, nat) go_map \<Rightarrow> (string, nat) go_map" where
  "count_rules keep [] counts = counts"
| "count_rules keep (line # lines) counts =
     (let spec = ruleSpec line
      in if spec = [] then count_rules keep lines counts
         else if spec \<in> keep
         then count_rules keep lines
                (AList.update spec (case map_of counts spec of None \<Rightarrow> 1 | Some n \<Rightarrow> Suc n) counts)
         else count_rules keep lines counts)"

definition dedupeRules ::
  "'w sys \<Rightarrow> (string list \<Rightarrow> string list) \<Rightarrow> string \<Rightarrow> string set \<Rightarrow> ('w, 'm, nat) prog" where
  "dedupeRules S ord chain keep =
     (if keep = {} then State_Monad.return 0
      else do {
        r \<leftarrow> do_call S (Exec ''iptables'' [''-S'', chain]);
        if rerr r \<noteq> nil then State_Monad.return 0
        else (let counts = count_rules keep (Split (rout r) (CHR 0x0A)) []
              in sum_each (ord (map_keys counts)) (\<lambda>spec.
                   case map_of counts spec of
                     None \<Rightarrow> State_Monad.return 0
                   | Some n \<Rightarrow> retry_loop (n - 1)
                       (run_cmd S ''iptables'' ([''-D'', chain] @ Fields spec)))) })"

definition warnPeriod :: int where
  "warnPeriod = 5 * 60 * 1000000000"

definition warnOnce :: "'w sys \<Rightarrow> string \<Rightarrow> ('w, 'm, unit) prog" where
  "warnOnce S key = do {
     h \<leftarrow> State_Monad.get;
     skip \<leftarrow> (case ov_warnSeen h key of
                None \<Rightarrow> State_Monad.return False
              | Some seen \<Rightarrow> do {
                  r \<leftarrow> do_call S Now;
                  State_Monad.return (rnum r - seen < warnPeriod) });
     if skip then State_Monad.return ()
     else do {
       r \<leftarrow> do_call S Now;
       State_Monad.update (\<lambda>h. h\<lparr>ov_warnSeen := (ov_warnSeen h)(key \<mapsto> rnum r)\<rparr>);
       _ \<leftarrow> do_call S (LogWarning key);
       State_Monad.return () } }"

definition SelfCheck ::
  "'w sys \<Rightarrow> (string list \<Rightarrow> string list) \<Rightarrow> ov_config list \<Rightarrow> ('w, 'm, unit) prog" where
  "SelfCheck S ord links =
     (if links = [] then State_Monad.return ()
      else do {
        r \<leftarrow> do_call S (ReadFile ip_forward_path);
        (if rerr r = nil \<and> TrimSpace (rout r) \<noteq> ''1'' then warnOnce S ''ip_forward''
         else State_Monad.return ());
        m \<leftarrow> dedupeRules S ord ''INPUT'' (managedInputRules links);
        n \<leftarrow> dedupeRules S ord ''FORWARD'' (managedForwardRules links);
        (if m + n > 0 then warnOnce S ''dedupe'' else State_Monad.return ());
        for_each links (\<lambda>c. for_each (forwardSpecs c) (\<lambda>spec. do {
          e \<leftarrow> run_cmd S ''iptables'' ([''-C'', ''FORWARD''] @ spec @ [''-j'', ''ACCEPT'']);
          if e \<noteq> nil then warnOnce S (''forward'' @ cfg_Name c @ Join spec [])
          else State_Monad.return () })) })"

definition overlay_Reconcile ::
  "'w sys \<Rightarrow> (string list \<Rightarrow> string list) \<Rightarrow> ov_config list \<Rightarrow> ov_config list
     \<Rightarrow> ('w, 'm, unit) prog" where
  "overlay_Reconcile S ord prev next =
     (case Plan prev next of (remove, ensure) \<Rightarrow> do {
        for_each remove (overlay_Remove S);
        for_each (staleRoutes prev next) (\<lambda>spec. do {
          _ \<leftarrow> overlay_ip S (routeDelArgs spec); State_Monad.return () });
        for_each ensure (overlay_Ensure S);
        SelfCheck S ord next })"

end
