(* ===== verification/OverlayPlan.thy ===== *)
theory OverlayPlan
  imports Overlay
begin

text \<open>
  The pure half of the overlay component: which links and routes a sync removes, the size of a
  link, its creation arguments, when an existing link is taken for the wanted one, and the
  reading of command output.
\<close>

section \<open>Links\<close>

definition link_names :: "ov_config list \<Rightarrow> string set" where
  "link_names cs = set (map cfg_Name (filter (\<lambda>c. cfg_Name c \<noteq> []) cs))"

lemma link_names_iff: "n \<in> link_names cs \<longleftrightarrow> n \<noteq> [] \<and> (\<exists>c \<in> set cs. cfg_Name c = n)"
  by (auto simp: link_names_def)

lemma Plan_remove: "set (fst (Plan prev next)) = link_names prev - link_names next"
  by (auto simp: Plan_def Let_def link_names_def)

lemma Plan_ensure: "snd (Plan prev next) = filter (\<lambda>c. cfg_Name c \<noteq> []) next"
  by (simp add: Plan_def Let_def)

interpretation overlay_links:
  stale_plan link_names link_names "\<lambda>prev next. fst (Plan prev next)"
  by unfold_locales (rule Plan_remove)

text \<open>
  The plan of a sync removes exactly the named links that are no longer wanted, ensures every
  named wanted config in the panel's order, never removes a link it is about to ensure, and what
  is left after the removals together with what is ensured is exactly the wanted set of links.
\<close>
theorem plan_converges:
  "set (fst (Plan prev next)) = link_names prev - link_names next
   \<and> snd (Plan prev next) = filter (\<lambda>c. cfg_Name c \<noteq> []) next
   \<and> set (fst (Plan prev next)) \<inter> link_names next = {}
   \<and> (link_names prev - set (fst (Plan prev next))) \<union> cfg_Name ` set (snd (Plan prev next))
       = link_names next
   \<and> [] \<notin> set (fst (Plan prev next))"
proof -
  have "cfg_Name ` set (snd (Plan prev next)) = link_names next"
    by (auto simp: Plan_ensure link_names_def)
  then show ?thesis
    using overlay_links.converged[of prev "next"] overlay_links.stale_disjoint[of prev "next"]
    by (simp add: Plan_remove Plan_ensure link_names_iff)
qed

section \<open>Routes\<close>

lemma wanted_routes_map:
  "wanted_routes cs m = m ++ map_of (rev (map (\<lambda>c. (cfg_Name c, set (cfg_Routes c))) cs))"
  by (induction cs arbitrary: m) (auto simp: map_add_def fun_eq_iff split: option.splits)

text \<open>The config that decides about the routes of link \<open>n\<close>: the last one of that name.\<close>

definition config_of :: "ov_config list \<Rightarrow> string \<Rightarrow> ov_config option" where
  "config_of cs n = find (\<lambda>c. cfg_Name c = n) (rev cs)"

lemma map_of_find:
  "map_of (map (\<lambda>c. (f c, g c)) cs) n = map_option g (find (\<lambda>c. f c = n) cs)"
  by (induction cs) auto

lemma wanted_routes_config_of:
  "wanted_routes cs Map.empty n = map_option (\<lambda>c. set (cfg_Routes c)) (config_of cs n)"
  by (simp add: wanted_routes_map rev_map map_of_find config_of_def)

lemma config_of_distinct:
  assumes "distinct (map cfg_Name cs)" "c \<in> set cs"
  shows "config_of cs (cfg_Name c) = Some c"
proof -
  have "find (\<lambda>d. cfg_Name d = cfg_Name c) (rev cs) \<noteq> None"
    using assms(2) by (auto simp: find_None_iff)
  then obtain d where d: "find (\<lambda>d. cfg_Name d = cfg_Name c) (rev cs) = Some d" by blast
  then have "d \<in> set cs" "cfg_Name d = cfg_Name c"
    by (auto simp: find_Some_iff) (metis length_rev nth_mem set_rev)
  with assms have "d = c" by (auto simp: distinct_map inj_on_def)
  with d show ?thesis by (simp add: config_of_def)
qed

lemma in_set_case_option:
  "x \<in> set (case y of None \<Rightarrow> [] | Some z \<Rightarrow> f z) \<longleftrightarrow> (\<exists>z. y = Some z \<and> x \<in> set (f z))"
  by (cases y) auto

text \<open>
  The routes a sync deletes are exactly the old routes of links that survive and whose new
  config no longer lists them: routes of links that disappear are left to the kernel, and a
  sync that repeats the same configs (with distinct names) deletes none.
\<close>
theorem staleRoutes_exact:
  "(r \<in> set (staleRoutes prev next) \<longleftrightarrow>
      (\<exists>c \<in> set prev. r \<in> set (cfg_Routes c)
         \<and> (\<exists>d. config_of next (cfg_Name c) = Some d \<and> r \<notin> set (cfg_Routes d))))
   \<and> (distinct (map cfg_Name next) \<longrightarrow> staleRoutes next next = [])"
proof (intro conjI impI)
  show "r \<in> set (staleRoutes prev next) \<longleftrightarrow>
      (\<exists>c \<in> set prev. r \<in> set (cfg_Routes c)
         \<and> (\<exists>d. config_of next (cfg_Name c) = Some d \<and> r \<notin> set (cfg_Routes d)))"
    by (auto simp: staleRoutes_def Let_def wanted_routes_config_of in_set_case_option
        map_option_case split: option.splits)
next
  assume "distinct (map cfg_Name next)"
  then show "staleRoutes next next = []"
    by (auto simp: staleRoutes_def Let_def wanted_routes_config_of config_of_distinct)
qed

definition route_example :: "ov_config list" where
  "route_example = [empty_config\<lparr>cfg_Name := ''gre3'', cfg_Routes := [''10.0.0.0/8 dev gre3'']\<rparr>]"

theorem staleRoutes_exact_witness:
  "distinct (map cfg_Name route_example) \<and> staleRoutes route_example route_example = []"
proof -
  have d: "distinct (map cfg_Name route_example)" by (simp add: route_example_def)
  with staleRoutes_exact[of undefined "[]" route_example] show ?thesis by blast
qed

section \<open>Sizes\<close>

text \<open>
  The MTU put on a link is never negative; an explicit one is used as it is; a derived one
  leaves exactly room for the encapsulation inside the tunnel it rides on; and a tunnel too
  small for the encapsulation gives 0, the kernel's default.
\<close>
theorem linkMTU_fits:
  "0 \<le> linkMTU c
   \<and> (0 < cfg_MTU c \<longrightarrow> linkMTU c = cfg_MTU c)
   \<and> (cfg_MTU c \<le> 0 \<and> linkMTU c \<noteq> 0 \<longrightarrow> linkMTU c + overhead c = cfg_TunnelMTU c)
   \<and> (cfg_MTU c \<le> 0 \<and> cfg_TunnelMTU c \<le> overhead c \<longrightarrow> linkMTU c = 0)
   \<and> overhead c \<in> {20, 24, 50}"
  by (auto simp: linkMTU_def overhead_def VXLANOverhead_def)

theorem linkMTU_fits_witness:
  "linkMTU (empty_config\<lparr>cfg_Kind := KindGRE, cfg_TunnelMTU := 1420\<rparr>) + 24 = 1420
   \<and> linkMTU (empty_config\<lparr>cfg_MTU := 1400, cfg_TunnelMTU := 1420\<rparr>) = 1400
   \<and> linkMTU (empty_config\<lparr>cfg_TunnelMTU := 40\<rparr>) = 0"
  using linkMTU_fits[of "empty_config\<lparr>cfg_Kind := KindGRE, cfg_TunnelMTU := 1420\<rparr>"]
    linkMTU_fits[of "empty_config\<lparr>cfg_MTU := 1400, cfg_TunnelMTU := 1420\<rparr>"]
    linkMTU_fits[of "empty_config\<lparr>cfg_TunnelMTU := 40\<rparr>"]
  by (simp add: linkMTU_def overhead_def kind_def kind_consts empty_config_def VXLANOverhead_def)

section \<open>Creation arguments\<close>

lemma Itoa_neq_Nil [simp]: "Itoa i \<noteq> []" "[] \<noteq> Itoa i"
  by (simp_all add: Itoa_def nat_str_neq_Nil[symmetric])

lemma kind_cases: "kind c = KindVXLAN \<or> kind c = KindIPIP \<or> kind c = KindGRE"
  by (auto simp: kind_def)

lemma sublist_opt_arg:
  "b \<Longrightarrow> sublist [k, v] (opt_arg b k v)"
  "sublist p xs \<Longrightarrow> sublist p (xs @ ys)" "sublist p ys \<Longrightarrow> sublist p (xs @ ys)"
  "sublist p ys \<Longrightarrow> sublist p (x # ys)"
  by (auto simp: opt_arg_def sublist_Cons_right sublist_append)

lemma suffix_opt_arg:
  "b \<Longrightarrow> suffix [k, v] (opt_arg b k v)"
  "suffix p ys \<Longrightarrow> suffix p (xs @ ys)" "suffix p ys \<Longrightarrow> suffix p (x # ys)"
  by (auto simp: opt_arg_def suffix_Cons suffix_append)

text \<open>
  The command that creates a link worth building holds no empty argument (optional parts
  are left out, not sent empty), names the link in the place \<open>ip\<close> expects it, and carries the
  remote, local, device, key and port exactly when they are set for that kind of link.
\<close>
theorem addArgs_well_formed:
  assumes "applicable c"
  shows "[] \<notin> set (addArgs c)
    \<and> take 3 (addArgs c)
        = (if kind c = KindVXLAN then [''link'', ''add'', cfg_Name c] else [''tunnel'', ''add'', cfg_Name c])
    \<and> (cfg_Remote c \<noteq> [] \<longrightarrow> sublist [''remote'', cfg_Remote c] (addArgs c))
    \<and> (cfg_LocalIP c \<noteq> [] \<longrightarrow> sublist [''local'', cfg_LocalIP c] (addArgs c))
    \<and> (cfg_Dev c \<noteq> [] \<longrightarrow> sublist [''dev'', cfg_Dev c] (addArgs c))
    \<and> (kind c = KindGRE \<and> 0 < cfg_Key c \<longrightarrow> suffix [''key'', Itoa (cfg_Key c)] (addArgs c))
    \<and> (kind c = KindVXLAN \<and> 0 < cfg_Port c
          \<longrightarrow> suffix [''dstport'', Itoa (cfg_Port c)] (addArgs c))"
proof -
  have name: "cfg_Name c \<noteq> []" using assms by (auto simp: applicable_def split: if_splits)
  have ne: "[] \<notin> set (addArgs c)"
    using name kind_cases[of c] by (auto simp: addArgs_def opt_arg_def Let_def kind_consts)
  have args: "addArgs c =
     (if kind c \<noteq> KindVXLAN
      then [''tunnel'', ''add'', cfg_Name c, ''mode'', kind c]
           @ opt_arg (cfg_Remote c \<noteq> []) ''remote'' (cfg_Remote c)
           @ opt_arg (cfg_LocalIP c \<noteq> []) ''local'' (cfg_LocalIP c)
           @ opt_arg (cfg_Dev c \<noteq> []) ''dev'' (cfg_Dev c)
           @ opt_arg (kind c = KindGRE \<and> cfg_Key c > 0) ''key'' (Itoa (cfg_Key c))
      else [''link'', ''add'', cfg_Name c, ''type'', ''vxlan'', ''id'', Itoa (cfg_VNI c)]
           @ opt_arg (cfg_LocalIP c \<noteq> []) ''local'' (cfg_LocalIP c)
           @ opt_arg (cfg_Remote c \<noteq> []) ''remote'' (cfg_Remote c)
           @ opt_arg (cfg_Dev c \<noteq> []) ''dev'' (cfg_Dev c)
           @ opt_arg (cfg_Port c > 0) ''dstport'' (Itoa (cfg_Port c)))"
    by (simp add: addArgs_def Let_def)
  have differ: "KindGRE \<noteq> KindVXLAN" by (simp add: kind_consts)
  show ?thesis
    using ne differ unfolding args by (auto simp: sublist_opt_arg suffix_opt_arg)
qed

definition gre_example :: ov_config where
  "gre_example = empty_config\<lparr>cfg_Kind := KindGRE, cfg_Name := ''gre3'', cfg_Local := ''10.1.3.1/30'',
     cfg_Remote := ''38.91.117.189'', cfg_Key := 7\<rparr>"

lemma applicable_gre_example: "applicable gre_example"
  by (simp add: applicable_def gre_example_def empty_config_def kind_def kind_consts) code_simp

theorem addArgs_well_formed_witness:
  "applicable gre_example \<and> suffix [''key'', ''7''] (addArgs gre_example)"
proof -
  have "Itoa 7 = ''7''" by code_simp
  moreover have "kind gre_example = KindGRE" "cfg_Key gre_example = 7"
    by (simp_all add: gre_example_def kind_def empty_config_def)
  ultimately show ?thesis
    using applicable_gre_example addArgs_well_formed[OF applicable_gre_example] by simp
qed

section \<open>Recognising an existing link\<close>

lemma kind_update [simp]:
  "kind (c\<lparr>cfg_Port := p\<rparr>) = kind c" "kind (c\<lparr>cfg_Remote := r\<rparr>) = kind c"
  by (simp_all add: kind_def)

lemma matches_vxlan:
  "kind c = KindVXLAN \<Longrightarrow> matches show c \<longleftrightarrow>
     TrimSpace show \<noteq> [] \<and> Contains show (''vxlan id '' @ Itoa (cfg_VNI c) @ '' '')
     \<and> (cfg_Remote c \<noteq> [] \<longrightarrow> Contains show (''remote '' @ cfg_Remote c))
     \<and> (0 < cfg_Port c \<longrightarrow> Contains show (''dstport '' @ Itoa (cfg_Port c)))
     \<and> (cfg_Dev c \<noteq> [] \<longrightarrow> Contains show (''dev '' @ cfg_Dev c))
     \<and> (cfg_LocalIP c \<noteq> [] \<longrightarrow> Contains show (''local '' @ cfg_LocalIP c))"
  by (simp add: matches_def)

lemma Contains_prefix: "Contains s (k @ v) \<Longrightarrow> prefix u v \<Longrightarrow> Contains s (k @ u)"
  unfolding Contains_iff prefix_def by (metis append.assoc)

text \<open>
  C26. \<open>matches\<close> compares by substring, so it cannot tell a VXLAN link from one whose port or
  remote address extends the wanted one: whenever an existing link is taken for config \<open>c\<close>, it
  is also taken for the configs whose port, or whose remote address, is a proper prefix of the
  text of \<open>c\<close>'s. A changed port 3002 to 300 therefore leaves the old link in place.
\<close>
theorem matches_blind_to_extension:
  assumes "kind c = KindVXLAN" and "matches show c"
  shows "(0 < cfg_Port c \<and> prefix (Itoa p) (Itoa (cfg_Port c))
           \<longrightarrow> matches show (c\<lparr>cfg_Port := p\<rparr>))
    \<and> (prefix r (cfg_Remote c) \<longrightarrow> matches show (c\<lparr>cfg_Remote := r\<rparr>))"
proof -
  note m = assms(2)[unfolded matches_vxlan[OF assms(1)]]
  have "Contains show (''dstport '' @ Itoa p)"
    if "0 < cfg_Port c" "prefix (Itoa p) (Itoa (cfg_Port c))"
    using m that by (blast intro: Contains_prefix)
  moreover have "Contains show (''remote '' @ r)" if "prefix r (cfg_Remote c)" "r \<noteq> []"
  proof -
    from that have "cfg_Remote c \<noteq> []" by auto
    with m that show ?thesis by (blast intro: Contains_prefix)
  qed
  ultimately show ?thesis
    using assms(1) m by (auto simp: matches_vxlan simp del: append_Cons append_Nil)
qed

definition vxlan_example :: ov_config where
  "vxlan_example = empty_config\<lparr>cfg_Name := ''vxlan3002'', cfg_VNI := 3002, cfg_Port := 3002,
     cfg_Dev := ''eth0'', cfg_Remote := ''38.91.117.189'', cfg_Local := ''10.1.3.1/30''\<rparr>"

definition vxlan_show :: string where
  "vxlan_show = ''    vxlan id 3002 remote 38.91.117.189 dev eth0 dstport 3002''"

lemma vxlan_example_matches: "kind vxlan_example = KindVXLAN" "matches vxlan_show vxlan_example"
  by code_simp+

lemma vxlan_example_port: "0 < cfg_Port vxlan_example" "prefix (Itoa 300) (Itoa (cfg_Port vxlan_example))"
  by code_simp+

theorem matches_blind_to_extension_witness:
  "matches vxlan_show vxlan_example \<and> matches vxlan_show (vxlan_example\<lparr>cfg_Port := 300\<rparr>)"
  using vxlan_example_matches vxlan_example_port
    matches_blind_to_extension[OF vxlan_example_matches, of 300] by blast

section \<open>Reading command output\<close>

lemma route_dev_in_first:
  "''dev'' \<notin> set pre \<Longrightarrow> route_dev_in (pre @ ''dev'' # d # post) = d"
proof (induction pre)
  case (Cons f pre)
  then show ?case by (cases "pre") auto
qed simp

lemma route_dev_in_result:
  "route_dev_in fs = d \<Longrightarrow> d \<noteq> [] \<Longrightarrow> \<exists>pre post. fs = pre @ ''dev'' # d # post \<and> ''dev'' \<notin> set pre"
proof (induction fs rule: route_dev_in.induct)
  case (1 f g fs)
  show ?case
  proof (cases "f = ''dev''")
    case True
    with 1 show ?thesis by (intro exI[of _ "[]"] exI[of _ fs]) auto
  next
    case False
    with 1 obtain pre post where "g # fs = pre @ ''dev'' # d # post" "''dev'' \<notin> set pre" by auto
    with False show ?thesis by (intro exI[of _ "f # pre"] exI[of _ post]) auto
  qed
qed simp_all

text \<open>
  \<open>RouteDev\<close> answers the field after the first \<open>dev\<close> of the route, and nothing else: a
  nonempty answer is a field of the text without white space, preceded by the first \<open>dev\<close>; and
  whenever the text has a \<open>dev\<close> with a field after it, the answer is not empty.
\<close>
theorem RouteDev_correct:
  "RouteDev out = d \<and> d \<noteq> []
   \<longleftrightarrow> (\<exists>pre post. Fields out = pre @ ''dev'' # d # post \<and> ''dev'' \<notin> set pre \<and> is_field d)"
proof
  assume l: "RouteDev out = d \<and> d \<noteq> []"
  then obtain pre post where "Fields out = pre @ ''dev'' # d # post" "''dev'' \<notin> set pre"
    using route_dev_in_result[of "Fields out" d] by (auto simp: RouteDev_def)
  moreover from this have "is_field d" using Fields_is_field[of d out] by simp
  ultimately show "\<exists>pre post. Fields out = pre @ ''dev'' # d # post \<and> ''dev'' \<notin> set pre \<and> is_field d"
    by blast
next
  assume "\<exists>pre post. Fields out = pre @ ''dev'' # d # post \<and> ''dev'' \<notin> set pre \<and> is_field d"
  then show "RouteDev out = d \<and> d \<noteq> []"
    by (auto simp: RouteDev_def route_dev_in_first is_field_def)
qed

lemma plain_A: "plain (CHR ''A'')" "plain (CHR ''-'')"
  by (simp_all add: plain_def space_runes_def)

lemma is_field_A: "is_field ''-A''"
  by (rule plain_is_field) (simp_all add: plain_A)

lemma ruleSpec_rule_line:
  assumes "is_field c" "r \<noteq> []" "\<forall>f \<in> set r. is_field f"
  shows "ruleSpec (''-A '' @ c @ '' '' @ Join r '' '') = Join r '' ''"
proof -
  obtain f fs where r: "r = f # fs" using assms(2) by (cases r) auto
  have "''-A '' @ c @ '' '' @ Join r '' '' = Join (''-A'' # c # r) '' ''"
    using r by (simp add: Join_Cons)
  then have "Fields (''-A '' @ c @ '' '' @ Join r '' '') = ''-A'' # c # r"
    using assms is_field_A Fields_Join[of "''-A'' # c # r"] by auto
  with r show ?thesis by (simp add: ruleSpec_def)
qed

lemma is_field_P: "is_field ''-P''"
  by (rule plain_is_field) (simp_all add: plain_def space_runes_def)

lemma ruleSpec_policy_line: "ruleSpec (''-P '' @ s) = []"
proof -
  have "Fields (''-P '' @ s) = ''-P'' # Fields s"
    using Fields_cons_field[OF is_field_P, of s] by simp
  then show ?thesis by (auto simp: ruleSpec_def split: list.splits)
qed

lemma ruleSpec_empty [simp]: "ruleSpec [] = []"
  by (simp add: ruleSpec_def)

end
