(* ===== verification/OverlayEffects.thy ===== *)
theory OverlayEffects
  imports OverlayPlan
begin

text \<open>
  What the overlay procedures do to the host: the firewall rules of a link over its life, the
  removal of duplicate rules, the rate of the self-check warnings, and which commands a sync
  can run at all.
\<close>

section \<open>Firewall rules of one link\<close>

text \<open>The rule a match specification of the component stands for.\<close>

definition accept_rule :: "spec \<Rightarrow> spec" where
  "accept_rule spec = spec @ [''-j'', ''ACCEPT'']"

lemma firewallAllow_eq:
  "firewallAllow S c = ensure_all S ''-I'' [] ''INPUT'' (map accept_rule (fwSpecs c))"
proof -
  have "for_each specs (\<lambda>spec. do {
       e \<leftarrow> run_cmd S ''iptables'' ([''-C'', ''INPUT''] @ spec @ [''-j'', ''ACCEPT'']);
       if e = nil then State_Monad.return ()
       else do {
         _ \<leftarrow> do_call S (Exec ''iptables'' ([''-I'', ''INPUT''] @ spec @ [''-j'', ''ACCEPT'']));
         State_Monad.return () } })
     = ensure_all S ''-I'' [] ''INPUT'' (map accept_rule specs)" for specs
    by (induction specs)
      (auto simp: ensure_all_def ensure_spec_def ipt_args_def accept_rule_def run_cmd_def
        run_do_call intro!: state_ext split: prod.splits)
  then show ?thesis by (simp add: firewallAllow_def)
qed

lemma forwardAllow_eq:
  "forwardAllow S c = ensure_all S ''-I'' [] ''FORWARD'' (map accept_rule (forwardSpecs c))"
proof -
  have "for_each specs (\<lambda>spec. do {
       e \<leftarrow> run_cmd S ''iptables'' ([''-C'', ''FORWARD''] @ spec @ [''-j'', ''ACCEPT'']);
       if e = nil then State_Monad.return ()
       else do {
         _ \<leftarrow> do_call S (Exec ''iptables'' ([''-I'', ''FORWARD''] @ spec @ [''-j'', ''ACCEPT'']));
         State_Monad.return () } })
     = ensure_all S ''-I'' [] ''FORWARD'' (map accept_rule specs)" for specs
    by (induction specs)
      (auto simp: ensure_all_def ensure_spec_def ipt_args_def accept_rule_def run_cmd_def
        run_do_call intro!: state_ext split: prod.splits)
  then show ?thesis by (simp add: forwardAllow_def)
qed

lemma firewallForget_eq:
  "firewallForget S name
     = (if name = [] then State_Monad.return ()
        else drop_all S 8 [] ''INPUT'' [accept_rule [''-i'', name]])"
  by (simp add: firewallForget_def drop_all_def drop_copies_def ipt_args_def accept_rule_def)

lemma forwardForget_eq:
  "forwardForget S name
     = drop_all S 8 [] ''FORWARD'' (map accept_rule (forwardSpecs (empty_config\<lparr>cfg_Name := name\<rparr>)))"
  by (auto simp: forwardForget_def forwardSpecs_def drop_all_def drop_copies_def ipt_args_def
      accept_rule_def)

lemma fwSpecs_distinct: "distinct (map accept_rule (fwSpecs c))"
  by (auto simp: fwSpecs_def accept_rule_def)

lemma forwardSpecs_distinct: "distinct (map accept_rule (forwardSpecs c))"
  by (auto simp: forwardSpecs_def accept_rule_def)

text \<open>The rules after a link was configured: its INPUT and FORWARD rules are there.\<close>

definition link_rules :: "ov_config \<Rightarrow> rules \<Rightarrow> rules" where
  "link_rules c rs =
     set_chain
       (set_chain rs [] ''INPUT''
          (fold (add_missing ''-I'') (map accept_rule (fwSpecs c)) (rs [] ''INPUT'')))
       [] ''FORWARD''
       (fold (add_missing ''-I'') (map accept_rule (forwardSpecs c)) (rs [] ''FORWARD''))"

context netfilter
begin

lemma firewallAllow_rules:
  "iptables_accepts S \<Longrightarrow> R (world (after (firewallAllow S c) h))
     = set_chain (R (world h)) [] ''INPUT''
         (fold (add_missing ''-I'') (map accept_rule (fwSpecs c)) (R (world h) [] ''INPUT''))"
  by (simp add: firewallAllow_eq ensure_all_effect)

lemma forwardAllow_rules:
  "iptables_accepts S \<Longrightarrow> R (world (after (forwardAllow S c) h))
     = set_chain (R (world h)) [] ''FORWARD''
         (fold (add_missing ''-I'') (map accept_rule (forwardSpecs c)) (R (world h) [] ''FORWARD''))"
  by (simp add: forwardAllow_eq ensure_all_effect)

lemma firewallForget_rules:
  "name \<noteq> [] \<Longrightarrow> R (world (after (firewallForget S name) h))
     = set_chain (R (world h)) [] ''INPUT''
         (remove_copies 8 (accept_rule [''-i'', name]) (R (world h) [] ''INPUT''))"
  by (simp add: firewallForget_eq drop_all_effect)

lemma forwardForget_rules:
  "R (world (after (forwardForget S name) h))
     = set_chain (R (world h)) [] ''FORWARD''
         (fold (remove_copies 8) (map accept_rule (forwardSpecs (empty_config\<lparr>cfg_Name := name\<rparr>)))
            (R (world h) [] ''FORWARD''))"
  by (simp add: forwardForget_eq drop_all_effect)

lemma quiet_overlay_ip: "quiet (overlay_ip S args)"
  unfolding overlay_ip_def by (intro quiet_intros) auto

lemma quiet_showLink: "quiet (showLink S name)"
  unfolding showLink_def by (intro quiet_intros) auto

lemma quiet_showAddr: "quiet (showAddr S name)"
  unfolding showAddr_def by (intro quiet_intros) auto

lemma quiet_ensure_link: "quiet (ensure_link S c)"
  unfolding ensure_link_def by (intro quiet_intros quiet_showLink quiet_overlay_ip)

lemma quiet_ensureForwarding: "quiet (ensureForwarding S)"
  unfolding ensureForwarding_def by (intro quiet_intros) auto

lemma quiet_relaxRPFilter: "quiet (relaxRPFilter S name)"
  unfolding relaxRPFilter_def by (intro quiet_intros) auto

lemmas overlay_quiet = quiet_overlay_ip quiet_showAddr quiet_ensureForwarding quiet_relaxRPFilter

lemma quiet_then: "quiet m \<Longrightarrow> R (world (after (State_Monad.bind m f) h))
    = R (world (after (f (result m h)) (after m h)))"
  by (simp split: prod.splits)

lemma quiet_finish_link: "quiet (finish_link S c)"
  unfolding finish_link_def by (intro quiet_intros overlay_quiet)

lemma configure_link_rules:
  "iptables_accepts S \<Longrightarrow> R (world (after (configure_link S c) h)) = link_rules c (R (world h))"
  unfolding configure_link_def link_rules_def
  by (simp add: after_bind quietD[OF quiet_finish_link] forwardAllow_rules
      quietD[OF quiet_ensureForwarding] firewallAllow_rules quietD[OF quiet_relaxRPFilter]
      quietD[OF quiet_overlay_ip] del: run_state_bind)

lemma Ensure_rules:
  assumes "iptables_accepts S"
  shows "R (world (after (overlay_Ensure S c) h))
     = (if applicable c \<and> result (ensure_link S c) h then link_rules c (R (world h))
        else R (world h))"
  by (simp add: overlay_Ensure_def after_bind configure_link_rules assms
      quietD[OF quiet_ensure_link] del: run_state_bind)

lemma Remove_rules:
  assumes "name \<noteq> []"
  shows "R (world (after (overlay_Remove S name) h))
     = set_chain
         (set_chain (R (world h)) [] ''INPUT''
            (remove_copies 8 (accept_rule [''-i'', name]) (R (world h) [] ''INPUT'')))
         [] ''FORWARD''
         (fold (remove_copies 8) (map accept_rule (forwardSpecs (empty_config\<lparr>cfg_Name := name\<rparr>)))
            (R (world h) [] ''FORWARD''))"
  using assms unfolding overlay_Remove_def
  by (simp add: after_bind quietD[OF quiet_overlay_ip] forwardForget_rules firewallForget_rules
      del: run_state_bind)

end

end
