(* ===== verification/OverlaySelfCheck.thy ===== *)
theory OverlaySelfCheck
  imports OverlayEffects
begin

text \<open>
  The self-check of the overlay component: duplicate firewall rules are reduced to one copy, and
  each warning is logged at most once per five minutes.
\<close>

section \<open>Duplicate rules\<close>

lemma Split_lines:
  "\<forall>l \<in> set ls. CHR 0x0A \<notin> set l \<Longrightarrow> Split (concat (map (\<lambda>l. l @ [CHR 0x0A]) ls)) (CHR 0x0A) = ls @ [[]]"
proof (induction ls)
  case (Cons l ls)
  then show ?case using Split_append_sep[of "CHR 0x0A" l] by simp
qed (simp add: Split_single)

lemma count_rules_map_of:
  "map_of (count_rules keep lines counts) s =
     (let k = length (filter (\<lambda>l. ruleSpec l = s) lines)
      in if s \<noteq> [] \<and> s \<in> keep \<and> 0 < k
         then Some (k + (case map_of counts s of None \<Rightarrow> 0 | Some n \<Rightarrow> n)) else map_of counts s)"
  by (induction keep lines counts rule: count_rules.induct)
    (auto simp: Let_def map_of_update split: option.splits)

lemma count_rules_distinct:
  "distinct (map_keys counts) \<Longrightarrow> distinct (map_keys (count_rules keep lines counts))"
  by (induction keep lines counts rule: count_rules.induct)
    (auto simp: Let_def map_keys_def distinct_update)

lemma Join_no_newline: "\<forall>f \<in> set r. is_field f \<Longrightarrow> CHR 0x0A \<notin> set (Join r '' '')"
  by (induction r) (auto simp: Join_Cons is_field_no_newline)

lemma Join_fields_eq_Nil: "\<forall>f \<in> set r. is_field f \<Longrightarrow> Join r '' '' = [] \<longleftrightarrow> r = []"
  by (cases r) (auto simp: Join_Cons is_field_def)

text \<open>The rule a key of the counts stands for, and how often the chain holds it.\<close>

lemma listed_lines:
  assumes "printable_rules rs" "is_field c" "CHR 0x0A \<notin> set pol" "s \<noteq> []"
  shows "length (filter (\<lambda>l. ruleSpec l = s) (Split (list_output pol c rs) (CHR 0x0A)))
    = length (filter (\<lambda>r. Join r '' '' = s) rs)"
proof -
  let ?ls = "(''-P '' @ c @ '' '' @ pol) # map (\<lambda>r. ''-A '' @ c @ '' '' @ Join r '' '') rs"
  have nl: "\<forall>l \<in> set ?ls. CHR 0x0A \<notin> set l"
    using assms Join_no_newline is_field_no_newline[OF assms(2)] by (auto simp: printable_rules_def)
  have sp: "ruleSpec (''-A '' @ c @ '' '' @ Join r '' '') = Join r '' ''" if "r \<in> set rs" for r
    using assms that by (intro ruleSpec_rule_line) (auto simp: printable_rules_def)
  have "length (filter (\<lambda>l. ruleSpec l = s) (map (\<lambda>r. ''-A '' @ c @ '' '' @ Join r '' '') rs))
      = length (filter (\<lambda>r. Join r '' '' = s) rs)"
    unfolding filter_map length_map by (rule arg_cong[where f = length], rule filter_cong[OF refl]) (simp only: comp_def sp)
  moreover have "ruleSpec (''-P '' @ c @ '' '' @ pol) \<noteq> s"
    using ruleSpec_policy_line assms(4) by metis
  ultimately show ?thesis
    unfolding list_output_def Split_lines[OF nl] using assms(4) by (simp del: append_Cons append_Nil add: append_Cons[of _ "map _ _"])
qed

lemma length_remove_copies:
  "length (remove_copies n s rs) + min n (count_list rs s) = length rs"
proof (induction n arbitrary: rs)
  case (Suc n)
  show ?case
  proof (cases "s \<in> set rs")
    case True
    then obtain k m where "count_list rs s = Suc k" "length rs = Suc m"
      by (metis count_list_0_iff length_0_conv list.set(1) empty_iff not0_implies_Suc)
    moreover have "length (remove1 s rs) = length rs - 1" using True by (simp add: length_remove1)
    ultimately show ?thesis
      using Suc[of "remove1 s rs"] by (simp add: remove_copies_Suc count_list_remove1)
  qed (simp add: remove_copies_notin count_list_0_iff)
qed simp

text \<open>Dropping copies of several rules, each named by a text that reads reads to it.\<close>

lemma count_fold_copies:
  assumes "distinct ks" "\<forall>s \<in> set ks. g (f s) = s"
  shows "count_list (fold (\<lambda>s. remove_copies (n s) (f s)) ks rs) r
    = (if g r \<in> set ks \<and> f (g r) = r then count_list rs r - n (g r) else count_list rs r)"
  using assms by (induction ks arbitrary: rs) (auto simp: count_remove_copies)

lemma filter_fold_copies:
  "\<forall>s \<in> set ks. \<not> P (f s) \<Longrightarrow> filter P (fold (\<lambda>s. remove_copies (n s) (f s)) ks rs) = filter P rs"
proof (induction ks arbitrary: rs)
  case (Cons s ks)
  have "filter P (remove_copies m (f s) rs) = filter P rs" for m rs
    using Cons.prems by (induction m arbitrary: rs) (auto simp: remove_copies_Suc remove1_commute_filter)
  with Cons show ?case by simp
qed simp

lemma set_fold_copies: "set (fold (\<lambda>s. remove_copies (n s) (f s)) ks rs) \<subseteq> set rs"
  using set_remove_copies_subset by (induction ks arbitrary: rs) (auto, blast)

context netfilter
begin

lemma drop_each:
  "R (world (after (sum_each ks (\<lambda>s. drop_copies S (n s) [] c (f s))) h))
     = set_chain (R (world h)) [] c (fold (\<lambda>s. remove_copies (n s) (f s)) ks (R (world h) [] c))
   \<and> result (sum_each ks (\<lambda>s. drop_copies S (n s) [] c (f s))) h
       + length (fold (\<lambda>s. remove_copies (n s) (f s)) ks (R (world h) [] c)) = length (R (world h) [] c)"
proof (induction ks arbitrary: h)
  case (Cons s ks)
  let ?body = "\<lambda>s. drop_copies S (n s) [] c (f s)"
  let ?h = "after (?body s) h"
  have "run_state (sum_each (s # ks) ?body) h
      = (result (?body s) h + result (sum_each ks ?body) ?h, after (sum_each ks ?body) ?h)"
    by (simp split: prod.splits)
  then show ?case
    using Cons.IH[of ?h] length_remove_copies[of "n s" "f s" "R (world h) [] c"]
    by (simp add: drop_copies_effect)
qed simp

end

text \<open>The counts \<open>dedupeRules\<close> works from, and the rules they stand for.\<close>

lemma counts_of_chain:
  fixes keep :: "string set" and s :: string
  assumes "printable_rules rs" "is_field c" "CHR 0x0A \<notin> set pol"
  defines "counts \<equiv> count_rules keep (Split (list_output pol c rs) (CHR 0x0A)) []"
  shows "map_of counts s = (if s \<in> keep \<and> s \<in> (\<lambda>r. Join r '' '') ` set rs
           then Some (count_list rs (Fields s)) else None)"
    and "s \<in> set (map_keys counts) \<Longrightarrow> s \<in> keep \<and> Join (Fields s) '' '' = s"
proof -
  have inj: "Join r '' '' = Join r' '' '' \<longleftrightarrow> r = r'" if "r \<in> set rs" "r' \<in> set rs" for r r'
    using that assms(1) by (intro Join_Fields_inject) (auto simp: printable_rules_def)
  have reads: "Fields (Join r '' '') = r \<and> Join r '' '' \<noteq> []" if "r \<in> set rs" for r
    using that assms(1) Join_fields_eq_Nil[of r] by (auto simp: printable_rules_def Fields_Join)
  have len: "length (filter (\<lambda>r. Join r '' '' = Join r' '' '') rs) = count_list rs r'" if "r' \<in> set rs" for r'
    unfolding count_list_eq_length_filter
    by (rule arg_cong[where f = length], rule filter_cong) (use inj that in auto)
  show m: "map_of counts s = (if s \<in> keep \<and> s \<in> (\<lambda>r. Join r '' '') ` set rs
           then Some (count_list rs (Fields s)) else None)" for s
  proof (cases "s \<in> (\<lambda>r. Join r '' '') ` set rs")
    case True
    then obtain r where r: "r \<in> set rs" "s = Join r '' ''" by blast
    then have "0 < count_list rs r" by (metis count_list_0_iff gr0I)
    then show ?thesis
      using r reads[OF r(1)] len[OF r(1)] listed_lines[OF assms(1-3), of s]
      by (simp add: counts_def count_rules_map_of)
  next
    case False
    then have "filter (\<lambda>r. Join r '' '' = s) rs = []" by (auto simp: filter_empty_conv)
    with False show ?thesis
      using listed_lines[OF assms(1-3), of s] by (auto simp: counts_def count_rules_map_of)
  qed
  show "s \<in> keep \<and> Join (Fields s) '' '' = s" if "s \<in> set (map_keys counts)"
    using that reads by (auto simp: set_map_keys m split: if_splits)
qed

lemma retry_of_counts:
  "(case map_of counts spec of None \<Rightarrow> State_Monad.return 0
    | Some n \<Rightarrow> retry_loop (n - 1) (run_cmd S ''iptables'' ([''-D'', c] @ Fields spec)))
   = drop_copies S (case map_of counts spec of None \<Rightarrow> 0 | Some n \<Rightarrow> n - 1) [] c (Fields spec)"
  by (simp add: drop_copies_def ipt_args_def split: option.splits)

text \<open>Duplicates removed: one copy left of every rule listed in \<open>keep\<close>.\<close>

definition deduped :: "string set \<Rightarrow> spec list \<Rightarrow> spec list \<Rightarrow> bool" where
  "deduped keep old new \<longleftrightarrow>
     (\<forall>r. count_list new r
        = (if Join r '' '' \<in> keep then min 1 (count_list old r) else count_list old r))
   \<and> filter (\<lambda>r. Join r '' '' \<notin> keep) new = filter (\<lambda>r. Join r '' '' \<notin> keep) old
   \<and> set new \<subseteq> set old"

lemma dedupe_effect:
  assumes "iptables_ok S R" "iptables_list_ok S R" "range_order ord"
    and "is_field c" "printable_rules (R (world h) [] c)"
  shows "\<exists>rs. R (world (after (dedupeRules S ord c keep) h)) = set_chain (R (world h)) [] c rs
     \<and> deduped keep (R (world h) [] c) rs
     \<and> result (dedupeRules S ord c keep) h + length rs = length (R (world h) [] c)"
proof (cases "keep = {}")
  case True
  then show ?thesis
    by (intro exI[of _ "R (world h) [] c"]) (simp add: dedupeRules_def deduped_def)
next
  case False
  let ?old = "R (world h) [] c" and ?list = "Exec ''iptables'' [''-S'', c]"
  let ?h = "h\<lparr>world := snd (S ?list (world h)), trace := trace h @ [?list]\<rparr>"
  obtain pol where reply: "rerr (fst (S ?list (world h))) = None" "CHR 0x0A \<notin> set pol"
      "rout (fst (S ?list (world h))) = list_output pol c ?old"
    using assms(2,5) unfolding iptables_list_ok_def by blast
  define counts where "counts = count_rules keep (Split (list_output pol c ?old) (CHR 0x0A)) []"
  let ?n = "\<lambda>s. case map_of counts s of None \<Rightarrow> 0 | Some n \<Rightarrow> n - 1"
  let ?ks = "ord (map_keys counts)"
  let ?new = "fold (\<lambda>s. remove_copies (?n s) (Fields s)) ?ks ?old"
  note counts = counts_of_chain[OF assms(5,4) reply(2), where keep = keep, folded counts_def]
  have rules: "R (world ?h) = R (world h)"
    using netfilter.other_effect[OF netfilter.intro[OF assms(1)], of ?list]
    by (simp add: ipt_action_def)
  have run: "run_state (dedupeRules S ord c keep) h
      = run_state (sum_each ?ks (\<lambda>s. drop_copies S (?n s) [] c (Fields s))) ?h"
    unfolding dedupeRules_def Let_def using False reply
    by (simp add: run_do_call retry_of_counts[symmetric] counts_def)
  have keys: "set ?ks = set (map_keys counts)" "distinct ?ks"
    using assms(3) count_rules_distinct[of "[]" keep]
    by (simp_all add: range_order_set range_order_distinct counts_def map_keys_def)
  have reads: "\<forall>s \<in> set ?ks. Join (Fields s) '' '' = s"
    using counts(2) keys(1) by blast
  have "count_list ?new r = (if Join r '' '' \<in> keep then min 1 (count_list ?old r) else count_list ?old r)" for r
  proof (cases "r \<in> set ?old")
    case True
    then have r: "Fields (Join r '' '') = r" "0 < count_list ?old r"
      using assms(5) by (auto simp: printable_rules_def Fields_Join count_list_0_iff intro!: gr0I)
    have "Join r '' '' \<in> set ?ks \<longleftrightarrow> Join r '' '' \<in> keep"
      using True by (auto simp: keys(1) set_map_keys counts(1) dom_def)
    then show ?thesis
      using True r by (simp add: count_fold_copies[OF keys(2) reads] counts(1))
  next
    case False
    then have "count_list ?old r = 0" by (simp add: count_list_0_iff)
    then show ?thesis by (simp add: count_fold_copies[OF keys(2) reads])
  qed
  moreover have "filter (\<lambda>r. Join r '' '' \<notin> keep) ?new = filter (\<lambda>r. Join r '' '' \<notin> keep) ?old"
    using counts(2) keys(1) by (intro filter_fold_copies) auto
  ultimately have "deduped keep ?old ?new"
    using set_fold_copies[of ?n Fields ?ks ?old] by (simp add: deduped_def)
  then show ?thesis
    using netfilter.drop_each[OF netfilter.intro[OF assms(1)], of ?ks ?n c Fields ?h] rules run
    by (intro exI[of _ ?new]) simp
qed

lemma deduped_again:
  assumes "deduped keep old new" "deduped keep new newer"
  shows "length newer = length new"
proof -
  have "count (mset newer) r = count (mset new) r" for r
    using assms by (simp add: deduped_def count_mset)
  then show ?thesis by (metis multiset_eqI size_mset)
qed

text \<open>
  C23. On a chain whose rules print as words, \<open>dedupeRules\<close> leaves exactly one copy of every
  managed rule that was there, keeps the number and order of all other rules and every other
  chain, reports the number of rules it removed, and has nothing left to do when run again; all
  of this for every order in which Go may range over its map.
\<close>
theorem dedupe_leaves_one:
  assumes "iptables_ok S R" and "iptables_list_ok S R" and "range_order ord"
    and "is_field c" and "printable_rules (R (world h) [] c)"
  shows "(let h' = after (dedupeRules S ord c keep) h; old = R (world h); new = R (world h')
     in (\<forall>r. count_list (new [] c) r
             = (if Join r '' '' \<in> keep then min 1 (count_list (old [] c) r)
                else count_list (old [] c) r))
      \<and> filter (\<lambda>r. Join r '' '' \<notin> keep) (new [] c) = filter (\<lambda>r. Join r '' '' \<notin> keep) (old [] c)
      \<and> (\<forall>t ch. (t, ch) \<noteq> ([], c) \<longrightarrow> new t ch = old t ch)
      \<and> result (dedupeRules S ord c keep) h + length (new [] c) = length (old [] c)
      \<and> result (dedupeRules S ord c keep) h' = 0)"
proof -
  let ?h = "after (dedupeRules S ord c keep) h"
  obtain rs where rs: "R (world ?h) = set_chain (R (world h)) [] c rs"
      "deduped keep (R (world h) [] c) rs"
      "result (dedupeRules S ord c keep) h + length rs = length (R (world h) [] c)"
    using dedupe_effect[OF assms] by blast
  then have new: "R (world ?h) [] c = rs" by simp
  have "printable_rules rs"
    using assms(5) rs(2) by (auto simp: printable_rules_def deduped_def)
  then obtain rs' where "deduped keep rs rs'" "result (dedupeRules S ord c keep) ?h + length rs' = length rs"
    using dedupe_effect[OF assms(1-4), of ?h keep] unfolding new by blast
  then have "result (dedupeRules S ord c keep) ?h = 0"
    using deduped_again[OF rs(2)] by simp
  then show ?thesis using rs by (simp add: Let_def deduped_def)
qed

definition duplicate_host :: "sim host" where
  "duplicate_host = init_host (sim_host\<lparr>sim_rules := set_chain (\<lambda>t c. []) [] ''INPUT''
     [[''-p'', ''4'', ''-j'', ''ACCEPT''], [''-j'', ''DROP''], [''-p'', ''4'', ''-j'', ''ACCEPT''],
      [''-p'', ''4'', ''-j'', ''ACCEPT'']]\<rparr>)"

theorem dedupe_leaves_one_witness:
  "count_list (sim_rules (world (after (dedupeRules sim_sys rev ''INPUT''
     (managedInputRules [])) duplicate_host)) [] ''INPUT'') [''-p'', ''4'', ''-j'', ''ACCEPT''] = 1"
proof -
  have "printable_rules (sim_rules (world duplicate_host) [] ''INPUT'')" "is_field ''INPUT''"
    by code_simp+
  moreover have "count_list (sim_rules (world duplicate_host) [] ''INPUT'') [''-p'', ''4'', ''-j'', ''ACCEPT''] = 3"
    by code_simp
  moreover have "Join [''-p'', ''4'', ''-j'', ''ACCEPT''] '' '' \<in> managedInputRules []"
    by (simp add: managedInputRules_def)
  ultimately show ?thesis
    using dedupe_leaves_one[OF sim_iptables_ok sim_iptables_list_ok range_order_id(2),
        of "''INPUT''" duplicate_host "managedInputRules []"] unfolding Let_def by simp
qed

end
