(* ===== verification/OverlaySync.thy ===== *)
theory OverlaySync
  imports OverlayEffects
begin

text \<open>
  What a sync of the overlay component does to the host, on the rules of \<open>OverlayEffects\<close>: the
  firewall converges and is idempotent, a link that comes and goes leaves no rule of its own
  behind, duplicate rules are reduced to one, warnings are rate limited, and no sync runs a
  command outside a fixed shape or touches a link it does not own.
\<close>

section \<open>The rules of a link over its life\<close>

lemma Ensure_rules_of:
  "iptables_ok S R \<Longrightarrow> iptables_accepts S \<Longrightarrow> R (world (after (overlay_Ensure S c) h))
     = (if applicable c \<and> result (ensure_link S c) h then link_rules c (R (world h))
        else R (world h))"
  by (rule netfilter.Ensure_rules[OF netfilter.intro])

lemmas Remove_rules_of = netfilter.Remove_rules[OF netfilter.intro]

lemma link_rules_chains:
  "link_rules c rs [] ''INPUT'' = fold (add_missing ''-I'') (map accept_rule (fwSpecs c)) (rs [] ''INPUT'')"
  "link_rules c rs [] ''FORWARD'' = fold (add_missing ''-I'') (map accept_rule (forwardSpecs c)) (rs [] ''FORWARD'')"
  "(t, ch) \<notin> {([], ''INPUT''), ([], ''FORWARD'')} \<Longrightarrow> link_rules c rs t ch = rs t ch"
  by (auto simp: link_rules_def)

text \<open>
  C11. After \<open>Ensure\<close> of a link that exists or could be created, the INPUT and FORWARD chains hold
  every rule of the link: a missing one was inserted once, a present one was not duplicated, the
  other rules keep their number and order, no other chain changed, and a second \<open>Ensure\<close> changes
  no rule at all.
\<close>
theorem Ensure_firewall_converges:
  assumes "iptables_ok S R" and "iptables_accepts S"
    and "applicable c" and "result (ensure_link S c) h"
  shows "(let old = R (world h); new = R (world (after (overlay_Ensure S c) h));
              input = set (map accept_rule (fwSpecs c));
              forward = set (map accept_rule (forwardSpecs c))
     in (\<forall>r. count_list (new [] ''INPUT'') r
              = (if r \<in> input then max 1 (count_list (old [] ''INPUT'') r)
                 else count_list (old [] ''INPUT'') r))
      \<and> (\<forall>r. count_list (new [] ''FORWARD'') r
              = (if r \<in> forward then max 1 (count_list (old [] ''FORWARD'') r)
                 else count_list (old [] ''FORWARD'') r))
      \<and> filter (\<lambda>r. r \<notin> input) (new [] ''INPUT'') = filter (\<lambda>r. r \<notin> input) (old [] ''INPUT'')
      \<and> filter (\<lambda>r. r \<notin> forward) (new [] ''FORWARD'') = filter (\<lambda>r. r \<notin> forward) (old [] ''FORWARD'')
      \<and> (\<forall>t ch. (t, ch) \<notin> {([], ''INPUT''), ([], ''FORWARD'')} \<longrightarrow> new t ch = old t ch)
      \<and> R (world (after (overlay_Ensure S c) (after (overlay_Ensure S c) h))) = new)"
proof -
  have eff: "R (world (after (overlay_Ensure S c) h)) = link_rules c (R (world h))"
    using assms by (simp add: Ensure_rules_of[OF assms(1,2)])
  have twice: "link_rules c (link_rules c rs) = link_rules c rs" for rs
    by (rule ext, rule ext) (auto simp: link_rules_def set_chain_def fold_add_missing_idem)
  have "R (world (after (overlay_Ensure S c) (after (overlay_Ensure S c) h))) = link_rules c (R (world h))"
    by (auto simp add: Ensure_rules_of[OF assms(1,2), where h = "after (overlay_Ensure S c) h"] eff twice)
  then show ?thesis
    by (simp add: eff Let_def link_rules_chains count_fold_add_missing filter_fold_add_missing)
qed

text \<open>A host on which the link of \<open>gre_example\<close> can be created.\<close>

definition gre_host :: "sim host" where
  "gre_host = init_host (sim_host\<lparr>sim_answers := [(Exec ''ip'' (addArgs gre_example), ok_reply)],
     sim_rules := set_chain (\<lambda>t c. []) [] ''INPUT'' [[''-p'', ''47'', ''-j'', ''ACCEPT'']]\<rparr>)"

lemma gre_host_creates: "result (ensure_link sim_sys gre_example) gre_host"
  by code_simp

theorem Ensure_firewall_converges_witness:
  "count_list (sim_rules (world (after (overlay_Ensure sim_sys gre_example) gre_host)) [] ''INPUT'')
     [''-p'', ''47'', ''-j'', ''ACCEPT''] = 1"
proof -
  have "count_list (sim_rules (world gre_host) [] ''INPUT'') [''-p'', ''47'', ''-j'', ''ACCEPT''] = 1"
    by (simp add: gre_host_def)
  moreover have "[''-p'', ''47'', ''-j'', ''ACCEPT''] \<in> set (map accept_rule (fwSpecs gre_example))"
    by (simp add: accept_rule_def fwSpecs_def)
  ultimately show ?thesis
    using Ensure_firewall_converges[OF sim_iptables_ok sim_iptables_accepts applicable_gre_example
        gre_host_creates] unfolding Let_def by presburger
qed

text \<open>The rules a link puts in the firewall under its own name.\<close>

definition own_rules :: "string \<Rightarrow> spec set" where
  "own_rules name = {accept_rule [''-i'', name], accept_rule [''-o'', name]}"

lemma forwardSpecs_own:
  "n \<noteq> [] \<Longrightarrow> set (map accept_rule (forwardSpecs (c\<lparr>cfg_Name := n\<rparr>))) = own_rules n"
  "cfg_Name c \<noteq> [] \<Longrightarrow> set (map accept_rule (forwardSpecs c)) = own_rules (cfg_Name c)"
  by (simp_all add: forwardSpecs_def own_rules_def)

text \<open>
  What is left of a rule set when only the rules of link \<open>n\<close> and the two protocol rules were added
  to it, each at most once.
\<close>

definition protocol_rules :: "spec set" where
  "protocol_rules = {accept_rule [''-p'', ''4''], accept_rule [''-p'', ''47'']}"

definition agree_but_for :: "string \<Rightarrow> rules \<Rightarrow> rules \<Rightarrow> bool" where
  "agree_but_for n old new \<longleftrightarrow>
     filter (\<lambda>r. r \<notin> own_rules n) (new [] ''FORWARD'') = filter (\<lambda>r. r \<notin> own_rules n) (old [] ''FORWARD'')
   \<and> filter (\<lambda>r. r \<notin> insert (accept_rule [''-i'', n]) protocol_rules) (new [] ''INPUT'')
       = filter (\<lambda>r. r \<notin> insert (accept_rule [''-i'', n]) protocol_rules) (old [] ''INPUT'')
   \<and> (\<forall>r. count_list (new [] ''FORWARD'') r \<le> max 1 (count_list (old [] ''FORWARD'') r))
   \<and> (\<forall>r. count_list (new [] ''INPUT'') r \<le> max 1 (count_list (old [] ''INPUT'') r))
   \<and> (\<forall>t ch. (t, ch) \<notin> {([], ''INPUT''), ([], ''FORWARD'')} \<longrightarrow> new t ch = old t ch)"

lemma agree_but_for_refl: "agree_but_for n rs rs"
  by (simp add: agree_but_for_def)

lemma agree_but_for_trans:
  assumes "agree_but_for n a b" "agree_but_for n b c"
  shows "agree_but_for n a c"
proof -
  have le: "\<forall>r. (f r :: nat) \<le> max 1 (g r) \<Longrightarrow> \<forall>r. g r \<le> max 1 (k r) \<Longrightarrow> \<forall>r. f r \<le> max 1 (k r)"
    for f g k :: "spec \<Rightarrow> nat"
    by (meson max.cobounded1 max.boundedI order_trans)
  from assms show ?thesis unfolding agree_but_for_def
    by (elim conjE, intro conjI) (rule trans, assumption, assumption | erule le, assumption | simp)+
qed

lemma agree_but_for_link_rules:
  assumes "cfg_Name c \<noteq> []"
  shows "agree_but_for (cfg_Name c) rs (link_rules c rs)"
proof -
  have sub: "set (map accept_rule (forwardSpecs c)) \<subseteq> own_rules (cfg_Name c)"
    "set (map accept_rule (fwSpecs c)) \<subseteq> insert (accept_rule [''-i'', cfg_Name c]) protocol_rules"
    using assms by (auto simp: forwardSpecs_def fwSpecs_def own_rules_def protocol_rules_def)
  then show ?thesis unfolding agree_but_for_def link_rules_chains
    by (simp only: filter_fold_add_missing[OF sub(1)] filter_fold_add_missing[OF sub(2)])
      (simp add: link_rules_chains count_fold_add_missing)
qed

lemma Ensures_rules:
  assumes "iptables_ok S R" "iptables_accepts S" "\<forall>c \<in> set cs. cfg_Name c = n"
  shows "agree_but_for n (R (world h)) (R (world (after (for_each cs (overlay_Ensure S)) h)))"
  using assms(3)
proof (induction cs arbitrary: h)
  case (Cons c cs)
  let ?h = "after (overlay_Ensure S c) h"
  have "agree_but_for n (R (world h)) (R (world ?h))"
    using Cons.prems agree_but_for_link_rules[of c]
    by (auto simp: Ensure_rules_of[OF assms(1,2)] applicable_def agree_but_for_refl)
  moreover have "agree_but_for n (R (world ?h)) (R (world (after (for_each cs (overlay_Ensure S)) ?h)))"
    using Cons by simp
  ultimately show ?case
    by (auto intro: agree_but_for_trans split: prod.splits)
qed (simp add: agree_but_for_refl)

lemma not_in_filter_eq: "set xs \<inter> A = {} \<Longrightarrow> filter (\<lambda>r. r \<notin> A) xs = xs"
  by (auto simp: filter_id_conv)

text \<open>
  C12. A link that did not exist before, was ensured any number of times under any configs of its
  name, and is then removed, leaves the FORWARD chain exactly as it found it and the INPUT chain
  but for the two protocol rules (IPIP and GRE) all links share; no other chain changes.
\<close>
theorem link_lifecycle_leaves_no_rules:
  assumes "iptables_ok S R" and "iptables_accepts S"
    and "n \<noteq> []" and "\<forall>c \<in> set cs. cfg_Name c = n"
    and fresh: "set (R (world h) [] ''FORWARD'') \<inter> own_rules n = {}"
      "accept_rule [''-i'', n] \<notin> set (R (world h) [] ''INPUT'')"
  shows "(let old = R (world h);
              new = R (world (after (do { for_each cs (overlay_Ensure S); overlay_Remove S n }) h))
     in new [] ''FORWARD'' = old [] ''FORWARD''
      \<and> filter (\<lambda>r. r \<notin> protocol_rules) (new [] ''INPUT'')
          = filter (\<lambda>r. r \<notin> protocol_rules) (old [] ''INPUT'')
      \<and> (\<forall>t ch. (t, ch) \<notin> {([], ''INPUT''), ([], ''FORWARD'')} \<longrightarrow> new t ch = old t ch))"
proof -
  let ?h = "after (for_each cs (overlay_Ensure S)) h"
  let ?new = "R (world (after (overlay_Remove S n) ?h))"
  note agree = Ensures_rules[OF assms(1,2,4), of h, unfolded agree_but_for_def]
  have fwd: "?new [] ''FORWARD''
      = fold (remove_copies 8) (map accept_rule (forwardSpecs (empty_config\<lparr>cfg_Name := n\<rparr>))) (R (world ?h) [] ''FORWARD'')"
    and inp: "?new [] ''INPUT'' = remove_copies 8 (accept_rule [''-i'', n]) (R (world ?h) [] ''INPUT'')"
    and oth: "(t, ch) \<notin> {([], ''INPUT''), ([], ''FORWARD'')} \<Longrightarrow> ?new t ch = R (world ?h) t ch" for t ch
    using assms(1,3) by (auto simp: Remove_rules_of)
  have own: "r \<in> own_rules n \<Longrightarrow> count_list (?new [] ''FORWARD'') r = 0" for r
  proof -
    assume r: "r \<in> own_rules n"
    then have "count_list (R (world h) [] ''FORWARD'') r = 0"
      using fresh(1) by (auto simp: count_list_0_iff)
    then have "count_list (R (world ?h) [] ''FORWARD'') r \<le> 1"
      using agree by (metis max_0R)
    then show ?thesis
      using r assms(3) by (simp add: fwd count_fold_remove_copies[OF forwardSpecs_distinct] forwardSpecs_own del: set_map)
  qed
  have "?new [] ''FORWARD'' = filter (\<lambda>r. r \<notin> own_rules n) (?new [] ''FORWARD'')"
    using own by (auto simp: count_list_0_iff intro!: not_in_filter_eq[symmetric])
  also have "\<dots> = filter (\<lambda>r. r \<notin> own_rules n) (R (world ?h) [] ''FORWARD'')"
    unfolding fwd by (rule filter_fold_remove_copies) (simp add: forwardSpecs_own assms(3) del: set_map)
  also have "\<dots> = R (world h) [] ''FORWARD''"
    using agree fresh(1) by (simp add: not_in_filter_eq)
  finally have F: "?new [] ''FORWARD'' = R (world h) [] ''FORWARD''" .
  let ?in = "accept_rule [''-i'', n]" and ?new_in = "?new [] ''INPUT''"
  have none: "count_list (R (world h) [] ''INPUT'') ?in = 0"
    using fresh(2) by (simp add: count_list_0_iff)
  then have "count_list (R (world ?h) [] ''INPUT'') ?in \<le> 1"
    using agree by (metis max_0R)
  then have gone: "?in \<notin> set ?new_in"
    by (simp add: inp count_remove_copies flip: count_list_0_iff)
  have strip: "?in \<notin> set rs \<Longrightarrow> filter (\<lambda>r. r \<notin> insert ?in protocol_rules) rs = filter (\<lambda>r. r \<notin> protocol_rules) rs" for rs
    by (rule filter_cong) auto
  have "filter (\<lambda>r. r \<notin> insert ?in protocol_rules) ?new_in
      = filter (\<lambda>r. r \<notin> insert ?in protocol_rules) (R (world ?h) [] ''INPUT'')"
    using filter_fold_remove_copies[of "[?in]" "insert ?in protocol_rules" 8] by (simp add: inp)
  then have I: "filter (\<lambda>r. r \<notin> protocol_rules) ?new_in = filter (\<lambda>r. r \<notin> protocol_rules) (R (world h) [] ''INPUT'')"
    using agree strip[OF gone] strip[OF fresh(2)] by metis
  have "after (do { for_each cs (overlay_Ensure S); overlay_Remove S n }) h = after (overlay_Remove S n) ?h"
    by (simp split: prod.splits)
  then show ?thesis using F I oth agree unfolding Let_def by (simp del: run_state_bind)
qed

theorem link_lifecycle_leaves_no_rules_witness:
  "sim_rules (world (after (do { for_each [gre_example, gre_example] (overlay_Ensure sim_sys);
      overlay_Remove sim_sys ''gre3'' }) gre_host)) [] ''FORWARD'' = []"
proof -
  have "set (sim_rules (world gre_host) [] ''FORWARD'') \<inter> own_rules ''gre3'' = {}"
    "accept_rule [''-i'', ''gre3''] \<notin> set (sim_rules (world gre_host) [] ''INPUT'')"
    by (simp_all add: gre_host_def set_chain_def sim_host_def accept_rule_def)
  moreover have "\<forall>c \<in> set [gre_example, gre_example]. cfg_Name c = ''gre3''"
    by (simp add: gre_example_def)
  moreover have "sim_rules (world gre_host) [] ''FORWARD'' = []"
    by (simp add: gre_host_def set_chain_def sim_host_def)
  ultimately show ?thesis
    using link_lifecycle_leaves_no_rules[OF sim_iptables_ok sim_iptables_accepts, of "''gre3''"
        "[gre_example, gre_example]" gre_host] unfolding Let_def by simp
qed

end
