(* ===== verification/OverlayConfined.thy ===== *)
theory OverlayConfined
  imports OverlaySelfCheck OverlaySync
begin

text \<open>
  Which calls a sync of the overlay component can make at all, on any host: the commands are of a
  fixed list of shapes, every deletion is of a link, a route or a rule the component manages, and a
  link that already is as wanted is not touched.
\<close>

section \<open>The calls of a sync\<close>

inductive sync_call :: "ov_config list \<Rightarrow> ov_config list \<Rightarrow> call \<Rightarrow> bool"
  for prev "next" :: "ov_config list" where
  look: "n \<in> link_names prev \<union> link_names next
     \<Longrightarrow> args \<in> {[''-d'', ''link'', ''show'', ''dev'', n], [''-4'', ''addr'', ''show'', ''dev'', n]}
     \<Longrightarrow> sync_call prev next (Exec ''ip'' args)"
| remove_link: "n \<in> link_names prev - link_names next \<Longrightarrow> sync_call prev next (Exec ''ip'' [''link'', ''del'', n])"
| rebuild_link: "c \<in> set next \<Longrightarrow> applicable c \<Longrightarrow> sync_call prev next (Exec ''ip'' [''link'', ''del'', cfg_Name c])"
| create_link: "c \<in> set next \<Longrightarrow> applicable c \<Longrightarrow> sync_call prev next (Exec ''ip'' (addArgs c))"
| link_up: "c \<in> set next \<Longrightarrow> applicable c
     \<Longrightarrow> sync_call prev next (Exec ''ip'' [''link'', ''set'', cfg_Name c, ''up''])"
| link_size: "c \<in> set next \<Longrightarrow> applicable c \<Longrightarrow> 0 < linkMTU c
     \<Longrightarrow> sync_call prev next (Exec ''ip'' [''link'', ''set'', cfg_Name c, ''mtu'', Itoa (linkMTU c)])"
| flush_addr: "c \<in> set next \<Longrightarrow> applicable c
     \<Longrightarrow> sync_call prev next (Exec ''ip'' [''addr'', ''flush'', ''dev'', cfg_Name c])"
| add_addr: "c \<in> set next \<Longrightarrow> applicable c
     \<Longrightarrow> sync_call prev next (Exec ''ip'' [''addr'', ''add'', cfg_Local c, ''dev'', cfg_Name c])"
| add_route: "c \<in> set next \<Longrightarrow> applicable c \<Longrightarrow> r \<in> set (cfg_Routes c)
     \<Longrightarrow> sync_call prev next (Exec ''ip'' (routeArgs r))"
| delete_route: "r \<in> set (staleRoutes prev next) \<Longrightarrow> sync_call prev next (Exec ''ip'' (routeDelArgs r))"
| input_rule: "c \<in> set next \<Longrightarrow> applicable c \<Longrightarrow> spec \<in> set (fwSpecs c) \<Longrightarrow> act \<in> {''-C'', ''-I''}
     \<Longrightarrow> sync_call prev next (Exec ''iptables'' ([act, ''INPUT''] @ spec @ [''-j'', ''ACCEPT'']))"
| forward_rule: "c \<in> set next \<Longrightarrow> spec \<in> set (forwardSpecs c)
     \<Longrightarrow> act = ''-C'' \<or> act = ''-I'' \<and> applicable c
     \<Longrightarrow> sync_call prev next (Exec ''iptables'' ([act, ''FORWARD''] @ spec @ [''-j'', ''ACCEPT'']))"
| list_rules: "chain \<in> {''INPUT'', ''FORWARD''} \<Longrightarrow> sync_call prev next (Exec ''iptables'' [''-S'', chain])"
| forget_rule: "n \<in> link_names prev - link_names next \<Longrightarrow> rule \<in> own_rules n
     \<Longrightarrow> chain \<in> {''INPUT'', ''FORWARD''} \<Longrightarrow> sync_call prev next (Exec ''iptables'' ([''-D'', chain] @ rule))"
| drop_duplicate: "(chain, keep) \<in> {(''INPUT'', managedInputRules next), (''FORWARD'', managedForwardRules next)}
     \<Longrightarrow> s \<in> keep \<Longrightarrow> sync_call prev next (Exec ''iptables'' ([''-D'', chain] @ Fields s))"
| read_file: "sync_call prev next (ReadFile p)"
| enable_forwarding: "sync_call prev next (WriteFile ip_forward_path (''1'' @ [CHR 0x0A]) 420)"
| relax_filter: "n \<in> insert ''all'' (link_names next)
     \<Longrightarrow> sync_call prev next (WriteFile (rp_filter_path n) (''2'' @ [CHR 0x0A]) 420)"
| clock: "sync_call prev next Now"
| warn: "sync_call prev next (LogWarning key)"

lemma counts_in_keep: "s \<in> set (map_keys (count_rules keep lines [])) \<Longrightarrow> s \<in> keep"
  by (auto simp: set_map_keys count_rules_map_of Let_def split: if_splits)

lemma emits_overlay_ip: "P (Exec ''ip'' args) \<Longrightarrow> emits P (overlay_ip S args)"
  unfolding overlay_ip_def by (intro emits_intros)

lemma emits_dedupe:
  assumes "range_order ord"
    and "(chain, keep) \<in> {(''INPUT'', managedInputRules next), (''FORWARD'', managedForwardRules next)}"
  shows "emits (sync_call prev next) (dedupeRules S ord chain keep)"
proof -
  have "chain \<in> {''INPUT'', ''FORWARD''}" using assms(2) by auto
  then show ?thesis
    unfolding dedupeRules_def Let_def
    by (intro emits_intros sync_call.list_rules sync_call.drop_duplicate[OF assms(2)])
      (auto simp: range_order_set[OF assms(1)] dest: counts_in_keep)
qed

lemma emits_warnOnce: "emits (sync_call prev next) (warnOnce S key)"
  unfolding warnOnce_def by (intro emits_intros sync_call.clock sync_call.warn) simp

lemma emits_SelfCheck:
  "range_order ord \<Longrightarrow> emits (sync_call prev next) (SelfCheck S ord next)"
  unfolding SelfCheck_def
  by (intro emits_intros emits_warnOnce emits_dedupe sync_call.read_file sync_call.forward_rule) auto

lemma emits_Remove:
  assumes "n \<in> link_names prev - link_names next"
  shows "emits (sync_call prev next) (overlay_Remove S n)"
proof -
  have fwd: "sync_call prev next (Exec ''iptables'' ([''-D'', ''FORWARD''] @ spec @ [''-j'', ''ACCEPT'']))"
    if "spec \<in> set (forwardSpecs (empty_config\<lparr>cfg_Name := n\<rparr>))" for spec
    using that sync_call.forget_rule[OF assms, of "spec @ [''-j'', ''ACCEPT'']" "''FORWARD''"]
    by (auto simp: forwardSpecs_def own_rules_def accept_rule_def split: if_splits)
  have inp: "sync_call prev next (Exec ''iptables'' [''-D'', ''INPUT'', ''-i'', n, ''-j'', ''ACCEPT''])"
    using sync_call.forget_rule[OF assms, of "[''-i'', n, ''-j'', ''ACCEPT'']" "''INPUT''"]
    by (simp add: own_rules_def accept_rule_def)
  show ?thesis
    unfolding overlay_Remove_def firewallForget_def forwardForget_def
    by (intro emits_intros emits_overlay_ip sync_call.remove_link[OF assms] fwd inp)
qed

lemma emits_Ensure:
  assumes "c \<in> set next"
  shows "emits (sync_call prev next) (overlay_Ensure S c)"
proof (cases "applicable c")
  case True
  then have n: "cfg_Name c \<in> link_names next"
    using assms by (auto simp: link_names_iff applicable_def)
  note intros = sync_call.intros(3-8)[OF assms True] sync_call.add_route[OF assms True]
    sync_call.input_rule[OF assms True] sync_call.forward_rule[OF assms]
    sync_call.look[of "cfg_Name c"] sync_call.read_file sync_call.enable_forwarding
    sync_call.relax_filter
  show ?thesis
    unfolding overlay_Ensure_def ensure_link_def configure_link_def finish_link_def relaxRPFilter_def
      firewallAllow_def forwardAllow_def ensureForwarding_def showLink_def showAddr_def Let_def
    by (intro emits_intros emits_overlay_ip intros) (use n True in auto)
qed (simp add: overlay_Ensure_def emits_return)

lemma emits_overlay:
  assumes "range_order ord"
  shows "emits (sync_call prev next) (overlay_Reconcile S ord prev next)"
  unfolding overlay_Reconcile_def case_prod_unfold
  by (intro emits_intros emits_Remove emits_Ensure emits_overlay_ip sync_call.delete_route
      emits_SelfCheck assms)
    (auto simp: Plan_remove Plan_ensure)

text \<open>
  C10. On any host, and for every order of map iteration, a sync runs nothing but the \<open>ip\<close> and
  \<open>iptables\<close> commands listed in \<open>sync_call\<close> and writes nothing but the forwarding and
  reverse-path-filter switches: it deletes a link only when it owns it (no longer wanted, or about
  to be rebuilt), a route only when it is stale, and a firewall rule only when it belongs to a
  removed link or is one of the rules it manages for a wanted link.
\<close>
theorem sync_is_confined:
  assumes "range_order ord"
  shows "list_all (sync_call prev next) (calls (overlay_Reconcile S ord prev next) h)"
  by (rule emits_calls[OF emits_overlay[OF assms]])

theorem sync_is_confined_witness:
  "list_all (sync_call [gre_example] []) (calls (overlay_Reconcile sim_sys rev [gre_example] []) gre_host)
   \<and> Exec ''ip'' [''link'', ''del'', ''gre3'']
       \<in> set (calls (overlay_Reconcile sim_sys rev [gre_example] []) gre_host)"
  using sync_is_confined[OF range_order_id(2), of "[gre_example]" "[]" sim_sys gre_host]
  by (intro conjI) (assumption, code_simp)

section \<open>A link that is as wanted\<close>

text \<open>The commands that create or delete a link.\<close>

definition rebuilds_link :: "call \<Rightarrow> bool" where
  "rebuilds_link cl \<longleftrightarrow> (\<exists>args. cl = Exec ''ip'' args
     \<and> take 2 args \<in> {[''link'', ''del''], [''link'', ''add''], [''tunnel'', ''add'']})"

lemma emits_configure: "emits (\<lambda>cl. \<not> rebuilds_link cl) (configure_link S c)"
  unfolding configure_link_def finish_link_def relaxRPFilter_def firewallAllow_def forwardAllow_def
    ensureForwarding_def showAddr_def Let_def
  by (intro emits_intros emits_overlay_ip) (auto simp: rebuilds_link_def routeArgs_def)

lemma calls_overlay_ip: "calls (overlay_ip S args) h = [Exec ''ip'' args]"
  by (simp add: overlay_ip_def calls_def run_do_call)

lemma calls_showLink: "calls (showLink S n) h = [Exec ''ip'' [''-d'', ''link'', ''show'', ''dev'', n]]"
  by (simp add: showLink_def calls_def run_do_call)

lemma emits_link_part: "emits (\<lambda>_. True) (showLink S n)" "emits (\<lambda>_. True) (ensure_link S c)"
    "emits (\<lambda>_. True) (overlay_ip S args)" "emits (\<lambda>_. True) (configure_link S c)"
  unfolding ensure_link_def showLink_def
  by (intro emits_intros emits_overlay_ip emits_mono[OF emits_configure] TrueI)+

lemma rebuilds_addArgs: "rebuilds_link (Exec ''ip'' (addArgs c))"
  by (simp add: rebuilds_link_def addArgs_def Let_def)

lemma rebuilds_show: "\<not> rebuilds_link (Exec ''ip'' [''-d'', ''link'', ''show'', ''dev'', n])"
  by (simp add: rebuilds_link_def)

lemma rebuilds_del: "rebuilds_link (Exec ''ip'' [''link'', ''del'', n])"
  by (simp add: rebuilds_link_def)

lemma calls_ensure_link:
  "filter rebuilds_link (calls (ensure_link S c) h) =
     (let show = result (showLink S (cfg_Name c)) h
      in if matches show c then []
         else (if TrimSpace show \<noteq> [] then [Exec ''ip'' [''link'', ''del'', cfg_Name c]] else [])
           @ [Exec ''ip'' (addArgs c)])"
  by (auto simp: ensure_link_def showLink_def overlay_ip_def calls_def run_do_call Let_def
      rebuilds_addArgs rebuilds_show rebuilds_del)

text \<open>
  C25. \<open>Ensure\<close> rebuilds a link only when it has to: when what \<open>ip -d link show\<close> prints matches
  the config, no command of the call deletes or creates a link; otherwise the link commands of the
  call are the deletion of the old link, when there is one, and then the creation of the new one.
\<close>
theorem Ensure_keeps_matching_link:
  "filter rebuilds_link (calls (overlay_Ensure S c) h) =
     (let show = result (showLink S (cfg_Name c)) h
      in if applicable c \<and> \<not> matches show c
         then (if TrimSpace show \<noteq> [] then [Exec ''ip'' [''link'', ''del'', cfg_Name c]] else [])
           @ [Exec ''ip'' (addArgs c)]
         else [])"
proof (cases "applicable c")
  case True
  have "filter rebuilds_link (calls (overlay_Ensure S c) h) = filter rebuilds_link (calls (ensure_link S c) h)"
    unfolding overlay_Ensure_def using True
    by (simp add: calls_bind[where P = "\<lambda>_. True"] emits_link_part emits_if emits_return
        filter_calls_none[OF emits_configure] filter_calls_none[OF emits_return])
  then show ?thesis using True by (simp add: calls_ensure_link Let_def split del: if_split) simp
qed (simp add: overlay_Ensure_def calls_def)

end
