(* ===== verification/Pacing.thy ===== *)
theory Pacing
  imports Interfaces
begin

text \<open>
  Programs that keep a cooldown. \<open>paced\<close> extends the \<open>cooldown\<close> contract by the place where a
  component keeps the state of its cooldown in the process, and by the calls that count as an
  action; it proves once that a program whose actions go through the cooldown makes at most one
  of those calls per period, over any run.
\<close>

locale paced = cooldown act last period
  for act :: "'k \<Rightarrow> readings \<Rightarrow> 's \<Rightarrow> bool \<times> 's" and last :: "'s \<Rightarrow> 'k \<Rightarrow> int option" and period :: int +
  fixes view :: "('w, 'm) host_scheme \<Rightarrow> 's" and marks :: "'k \<Rightarrow> call \<Rightarrow> bool" and T :: "'w \<Rightarrow> int"
  assumes view_call: "view (h\<lparr>world := w, trace := t\<rparr>) = view h"
begin

text \<open>
  A run is paced when its marked calls are at most those of a sequence of actions of the cooldown
  whose clock readings lie within the run.
\<close>

definition paced_run :: "('w, 'm) host_scheme \<Rightarrow> ('w, 'm) host_scheme \<Rightarrow> bool" where
  "paced_run h h' \<longleftrightarrow> T (world h) \<le> T (world h') \<and> (\<exists>cs es.
     (\<forall>(k, a, b) \<in> set cs. T (world h) \<le> a \<and> a \<le> b \<and> b \<le> T (world h'))
   \<and> view h' = act_states act cs (view h)
   \<and> trace h' = trace h @ es
   \<and> (\<forall>j. length (filter (marks j) es) \<le> length (act_times act j cs (view h))))"

definition paced_prog :: "(('w, 'm) host_scheme, 'a) state \<Rightarrow> bool" where
  "paced_prog m \<longleftrightarrow> (\<forall>h. paced_run h (after m h))"

lemma paced_run_refl: "paced_run h h"
  unfolding paced_run_def by (auto intro: exI[of _ "[]"])

lemma paced_run_call:
  "T (world h) \<le> T w \<Longrightarrow> (\<And>j. \<not> marks j c) \<Longrightarrow> paced_run h (h\<lparr>world := w, trace := trace h @ [c]\<rparr>)"
  unfolding paced_run_def by (auto simp: view_call intro!: exI[of _ "[]"])

lemma paced_run_trans:
  assumes "paced_run h h'" "paced_run h' h''"
  shows "paced_run h h''"
proof -
  obtain cs es where 1: "T (world h) \<le> T (world h')"
      "\<forall>(k, a, b) \<in> set cs. T (world h) \<le> a \<and> a \<le> b \<and> b \<le> T (world h')"
      "view h' = act_states act cs (view h)" "trace h' = trace h @ es"
      "\<forall>j. length (filter (marks j) es) \<le> length (act_times act j cs (view h))"
    using assms(1) unfolding paced_run_def by blast
  obtain ds fs where 2: "T (world h') \<le> T (world h'')"
      "\<forall>(k, a, b) \<in> set ds. T (world h') \<le> a \<and> a \<le> b \<and> b \<le> T (world h'')"
      "view h'' = act_states act ds (view h')" "trace h'' = trace h' @ fs"
      "\<forall>j. length (filter (marks j) fs) \<le> length (act_times act j ds (view h'))"
    using assms(2) unfolding paced_run_def by blast
  have "\<forall>(k, a, b) \<in> set (cs @ ds). T (world h) \<le> a \<and> a \<le> b \<and> b \<le> T (world h'')"
    using 1(1,2) 2(1,2) by (force simp: case_prod_unfold)
  moreover have "T (world h) \<le> T (world h'')" using 1(1) 2(1) by simp
  ultimately show ?thesis
    unfolding paced_run_def using 1(3-5) 2(3-5)
    by (intro conjI exI[of _ "cs @ ds"] exI[of _ "es @ fs"]) (simp_all add: act_times_append add_mono)
qed

lemma pacedD: "paced_prog m \<Longrightarrow> paced_run h (after m h)"
  by (simp add: paced_prog_def)

lemma paced_return: "paced_prog (State_Monad.return x)"
  by (simp add: paced_prog_def paced_run_refl)

lemma paced_do_call: "monotone_clock S T \<Longrightarrow> (\<And>j. \<not> marks j c) \<Longrightarrow> paced_prog (do_call S c)"
  unfolding paced_prog_def monotone_clock_def by (simp add: run_do_call paced_run_call)

lemma paced_run_cmd:
  "monotone_clock S T \<Longrightarrow> (\<And>j. \<not> marks j (Exec name args)) \<Longrightarrow> paced_prog (run_cmd S name args)"
  unfolding paced_prog_def monotone_clock_def by (simp add: run_run_cmd paced_run_call)

lemma paced_bind:
  assumes "paced_prog m" "\<And>x. paced_prog (f x)"
  shows "paced_prog (State_Monad.bind m f)"
  unfolding paced_prog_def after_bind
  using assms paced_run_trans by (metis paced_prog_def)

lemma paced_if:
  "(b \<Longrightarrow> paced_prog m) \<Longrightarrow> (\<not> b \<Longrightarrow> paced_prog n) \<Longrightarrow> paced_prog (if b then m else n)"
  by simp

lemma paced_option:
  "(x = None \<Longrightarrow> paced_prog m) \<Longrightarrow> (\<And>y. x = Some y \<Longrightarrow> paced_prog (f y))
   \<Longrightarrow> paced_prog (case x of None \<Rightarrow> m | Some y \<Rightarrow> f y)"
  by (cases x) auto

lemma paced_for_each: "(\<And>x. x \<in> set xs \<Longrightarrow> paced_prog (f x)) \<Longrightarrow> paced_prog (for_each xs f)"
  by (induction xs) (auto intro!: paced_bind paced_return)

lemma paced_sum_each: "(\<And>x. x \<in> set xs \<Longrightarrow> paced_prog (f x)) \<Longrightarrow> paced_prog (sum_each xs f)"
  by (induction xs) (auto intro!: paced_bind paced_return)

lemma paced_retry_loop: "paced_prog step \<Longrightarrow> paced_prog (retry_loop n step)"
  by (induction n) (auto intro!: paced_bind paced_return)

lemmas paced_intros = paced_bind paced_if paced_option paced_for_each paced_sum_each
  paced_retry_loop paced_return paced_run_cmd paced_do_call

text \<open>A single action: one call of the cooldown and at most one marked call, when it acts.\<close>

lemma paced_action:
  assumes "T (world h) \<le> T (world h')" and "trace h' = trace h @ es"
    and "view h' = snd (act k (a, b) (view h))"
    and "\<And>j. length (filter (marks j) es) \<le> (if j = k \<and> fst (act k (a, b) (view h)) then 1 else 0)"
    and "T (world h) \<le> a" "a \<le> b" "b \<le> T (world h')"
  shows "paced_run h h'"
proof -
  have "length (filter (marks j) es) \<le> length (act_times act j [(k, a, b)] (view h))" for j
    using assms(4)[of j] by (auto split: if_splits)
  then show ?thesis
    unfolding paced_run_def using assms(1-3,5-7)
    by (intro conjI exI[of _ "[(k, a, b)]"] exI[of _ es]) simp_all
qed

text \<open>What the agent relies on: marked calls about one key take their periods.\<close>

lemma paced_bound:
  assumes "paced_run h h'"
  shows "(int (length (filter (marks j) (drop (length (trace h)) (trace h')))) - 1) * period
    \<le> T (world h') - T (world h)"
proof -
  obtain cs es where cs: "T (world h) \<le> T (world h')"
      "\<forall>(k, a, b) \<in> set cs. T (world h) \<le> a \<and> a \<le> b \<and> b \<le> T (world h')"
      "trace h' = trace h @ es"
      "length (filter (marks j) es) \<le> length (act_times act j cs (view h))"
    using assms unfolding paced_run_def by blast
  have "(int (length (filter (marks j) es)) - 1) * period
      \<le> (int (length (act_times act j cs (view h))) - 1) * period"
    using cs(4) period_pos by (simp add: mult_right_mono)
  also have "\<dots> \<le> T (world h') - T (world h)" by (rule acts_bound[OF cs(2,1)])
  finally show ?thesis using cs(3) by simp
qed

end

end
