(* ===== verification/OverlayWarnings.thy ===== *)
theory OverlayWarnings
  imports OverlayEffects Pacing
begin

text \<open>
  The rate of the self-check warnings. \<open>warn_step\<close> is \<open>warnOnce\<close> as a function of the two clock
  readings it makes; it is a \<open>cooldown\<close>, and every program of the component is shown to log
  warnings at most at its rate.
\<close>

definition warn_step :: "string \<Rightarrow> readings \<Rightarrow> (string \<rightharpoonup> int) \<Rightarrow> bool \<times> (string \<rightharpoonup> int)" where
  "warn_step key t seen =
     (case t of (since, stamp) \<Rightarrow>
        (let acts = (case seen key of None \<Rightarrow> True | Some seen_at \<Rightarrow> \<not> since - seen_at < warnPeriod)
         in (acts, if acts then seen(key \<mapsto> stamp) else seen)))"

interpretation warn: paced warn_step "\<lambda>seen key. seen key" warnPeriod ov_warnSeen
    "\<lambda>key cl. cl = LogWarning key" T for T :: "'w \<Rightarrow> int"
  by unfold_locales (auto simp: warn_step_def Let_def warnPeriod_def split: option.splits if_splits)

text \<open>The readings of one call, and what the call does.\<close>

definition warn_readings :: "'w sys \<Rightarrow> string \<Rightarrow> ('w, 'm) host_scheme \<Rightarrow> readings" where
  "warn_readings S key h =
     (let (r, w) = S Now (world h)
      in case ov_warnSeen h key of
           None \<Rightarrow> (rnum r, rnum r)
         | Some _ \<Rightarrow> (rnum r, rnum (fst (S Now w))))"

lemma warnOnce_run:
  "ov_warnSeen (after (warnOnce S key) h) = snd (warn_step key (warn_readings S key h) (ov_warnSeen h))
   \<and> (\<exists>es. trace (after (warnOnce S key) h) = trace h @ es
         \<and> (\<forall>j. count_list es (LogWarning j)
               = (if j = key \<and> fst (warn_step key (warn_readings S key h) (ov_warnSeen h)) then 1 else 0)))"
  by (auto simp: warnOnce_def warn_readings_def warn_step_def run_do_call State_Monad.get_def
      State_Monad.update_def State_Monad.set_def Let_def split: option.splits prod.splits)

lemma warnOnce_readings:
  assumes "monotone_clock S T"
  shows "T (world h) \<le> T (world (after (warnOnce S key) h)) \<and> T (world h) \<le> fst (warn_readings S key h)
     \<and> fst (warn_readings S key h) \<le> snd (warn_readings S key h)
     \<and> (fst (warn_step key (warn_readings S key h) (ov_warnSeen h))
          \<longrightarrow> snd (warn_readings S key h) \<le> T (world (after (warnOnce S key) h)))"
proof -
  have clock: "T w \<le> T (snd (S c w))" "rnum (fst (S Now w)) = T w" for w c
    using assms by (simp_all add: monotone_clock_def)
  obtain r1 w1 where c1: "S Now (world h) = (r1, w1)" by fastforce
  obtain r2 w2 where c2: "S Now w1 = (r2, w2)" by fastforce
  obtain r3 w3 where c3: "S (LogWarning key) w1 = (r3, w3)" by fastforce
  obtain r4 w4 where c4: "S (LogWarning key) w2 = (r4, w4)" by fastforce
  note calls = c1 c2 c3 c4
  have le: "T (world h) \<le> T w1" "T w1 \<le> T w2" "T w1 \<le> T w3" "T w2 \<le> T w4"
      "rnum r1 = T (world h)" "rnum r2 = T w1"
    using clock(1)[of "world h" Now] clock(1)[of w1 Now] clock(1)[of w1 "LogWarning key"]
      clock(1)[of w2 "LogWarning key"] clock(2)[of "world h"] clock(2)[of w1] calls by simp_all
  show ?thesis
  proof (cases "ov_warnSeen h key")
    case None
    then show ?thesis using le calls
      by (simp add: warnOnce_def warn_readings_def warn_step_def run_do_call State_Monad.get_def
          State_Monad.update_def State_Monad.set_def Let_def)
  next
    case (Some seen_at)
    then show ?thesis using le calls
      by (cases "rnum r1 - seen_at < warnPeriod")
        (simp_all add: warnOnce_def warn_readings_def warn_step_def run_do_call State_Monad.get_def
          State_Monad.update_def State_Monad.set_def Let_def)
  qed
qed

lemma count_logged: "count_list es (LogWarning key) = length (filter (\<lambda>cl. cl = LogWarning key) es)"
  unfolding count_list_eq_length_filter by (rule arg_cong[where f = length], rule filter_cong) auto

lemma paced_warnOnce:
  assumes "monotone_clock S T"
  shows "warn.paced_prog T (warnOnce S key)"
  unfolding warn.paced_prog_def
proof
  fix h
  let ?r = "warn_readings S key h" and ?h = "after (warnOnce S key) h"
  note bounds = warnOnce_readings[OF assms, of h key]
  obtain es where es: "trace ?h = trace h @ es"
      "\<forall>j. count_list es (LogWarning j) = (if j = key \<and> fst (warn_step key ?r (ov_warnSeen h)) then 1 else 0)"
    using warnOnce_run[of S key h] by blast
  have marks: "length (filter (\<lambda>cl. cl = LogWarning j) es) = count_list es (LogWarning j)" for j
    by (simp add: count_logged)
  have seen: "ov_warnSeen ?h = snd (warn_step key ?r (ov_warnSeen h))"
    using warnOnce_run[of S key h] by blast
  show "warn.paced_run T h ?h"
  proof (cases "fst (warn_step key ?r (ov_warnSeen h))")
    case True
    with bounds es seen show ?thesis
      by (intro warn.paced_action[where k = key and a = "fst ?r" and b = "snd ?r" and es = es])
        (auto simp: marks)
  next
    case False
    then have "ov_warnSeen ?h = ov_warnSeen h"
      using seen by (auto simp: warn_step_def Let_def split: prod.splits if_splits)
    with False bounds es show ?thesis unfolding warn.paced_run_def
      by (intro conjI exI[of _ "[]"] exI[of _ es]) (auto simp: marks)
  qed
qed

lemma paced_dedupe: "monotone_clock S T \<Longrightarrow> warn.paced_prog T (dedupeRules S ord c keep)"
  unfolding dedupeRules_def Let_def by (intro warn.paced_intros) auto

lemma paced_SelfCheck: "monotone_clock S T \<Longrightarrow> warn.paced_prog T (SelfCheck S ord links)"
  unfolding SelfCheck_def by (intro warn.paced_intros paced_warnOnce paced_dedupe) auto

text \<open>Programs that touch neither the table nor the log are paced.\<close>

lemma paced_overlay_ip: "monotone_clock S T \<Longrightarrow> warn.paced_prog T (overlay_ip S args)"
  unfolding overlay_ip_def by (intro warn.paced_intros) auto

lemma paced_Remove: "monotone_clock S T \<Longrightarrow> warn.paced_prog T (overlay_Remove S name)"
  unfolding overlay_Remove_def firewallForget_def forwardForget_def
  by (intro warn.paced_intros paced_overlay_ip) auto

lemma paced_Ensure: "monotone_clock S T \<Longrightarrow> warn.paced_prog T (overlay_Ensure S c)"
  unfolding overlay_Ensure_def ensure_link_def configure_link_def finish_link_def relaxRPFilter_def
    firewallAllow_def forwardAllow_def ensureForwarding_def showLink_def showAddr_def Let_def
  by (intro warn.paced_intros paced_overlay_ip) auto

lemma paced_Reconcile:
  "monotone_clock S T \<Longrightarrow> warn.paced_prog T (overlay_Reconcile S ord prev next)"
  unfolding overlay_Reconcile_def case_prod_unfold
  by (intro warn.paced_intros paced_overlay_ip paced_Remove paced_Ensure paced_SelfCheck)

text \<open>
  C24. Over any sequence of syncs, from any state of the process and on any host whose clock does
  not run backwards, a self-check warning that was logged \<open>n\<close> times took at least \<open>n - 1\<close> times
  five minutes, whatever the other warnings did.
\<close>
theorem warnings_rate_limited:
  assumes "monotone_clock S T"
  shows "(let h' = after (for_each syncs (\<lambda>(prev, next). overlay_Reconcile S ord prev next)) h;
              logged = count_list (drop (length (trace h)) (trace h')) (LogWarning key)
     in (int logged - 1) * (5 * 60 * 1000000000) \<le> T (world h') - T (world h))"
proof -
  let ?h = "after (for_each syncs (\<lambda>(prev, next). overlay_Reconcile S ord prev next)) h"
  have "warn.paced_run T h ?h"
    unfolding case_prod_unfold by (intro warn.pacedD warn.paced_for_each paced_Reconcile assms)
  from warn.paced_bound[OF this, of key] show ?thesis
    unfolding Let_def warnPeriod_def count_logged .
qed

theorem warnings_rate_limited_witness:
  "(let h' = after (for_each [([], [gre_example]), ([gre_example], [gre_example])]
                     (\<lambda>(prev, next). overlay_Reconcile sim_sys rev prev next)) (init_host sim_host);
        logged = count_list (trace h') (LogWarning ''forwardgre3-igre3'')
    in (int logged - 1) * (5 * 60 * 1000000000) \<le> sim_clock (world h'))"
  using warnings_rate_limited[OF sim_monotone_clock, where h = "init_host sim_host"
      and syncs = "[([], [gre_example]), ([gre_example], [gre_example])]" and ord = rev
      and key = "''forwardgre3-igre3''"]
  by (simp add: Let_def sim_host_def)

end
