(* ===== verification/Extras.thy ===== *)
theory Extras
  imports Netfilter Interfaces
begin

text \<open>
  \<open>src/extras/extras.go\<close>: the operator's own routes, policy rules and NAT rules, given as lines of
  text. This theory holds the definitions, one per Go function and in its order. The error of a
  parser is a constructor per \<open>fmt.Errorf\<close> of the source, with the word the message shows; log
  lines are left out. The map \<open>desired\<close> of the three \<open>apply\<close> functions is filled by a loop whose
  effects do not depend on it, so it is a function of the lines.
\<close>

section \<open>Lines\<close>

record extras =
  ex_Routes :: "string list"
  ex_Rules :: "string list"
  ex_NAT :: "string list"

definition IsZero :: "extras \<Rightarrow> bool" where
  "IsZero e \<longleftrightarrow> length (ex_Routes e) = 0 \<and> length (ex_Rules e) = 0 \<and> length (ex_NAT e) = 0"

definition normalizeLines :: "string list \<Rightarrow> string list" where
  "normalizeLines lines = filter (\<lambda>l. \<not> (l = [] \<or> HasPrefix l ''#'')) (map TrimSpace lines)"

fun strip_first :: "string \<Rightarrow> string list \<Rightarrow> string" where
  "strip_first line [] = line"
| "strip_first line (p # ps) =
     (if HasPrefix line (p @ '' '') then TrimSpace (TrimPrefix line p) else strip_first line ps)"

definition stripPrefix :: "string \<Rightarrow> string list \<Rightarrow> string" where
  "stripPrefix line ps = strip_first (TrimSpace line) ps"

section \<open>Parsers\<close>

datatype line_error =
    RouteExpected | AfterGateway
  | RuleExpected | NeedsValue string | NeedsTable | NeedsNumber | Unexpected string | MissingLookup
  | EmptyNat | NotAllowed string | BadTarget

definition route_prefixes :: "string list" where
  "route_prefixes = [''ip route add'', ''ip route replace'', ''ip -4 route add'',
     ''ip -4 route replace'', ''ip route'', ''ip -4 route'']"

definition ParseRouteLine :: "string \<Rightarrow> line_error + string list" where
  "ParseRouteLine line =
     (let f = Fields (stripPrefix line route_prefixes)
      in if length f < 3 \<or> f ! 1 \<noteq> ''via'' then Inl RouteExpected
         else (let args = [''route'', ''replace'', f ! 0, ''via'', f ! 2]
               in if length f > 3
                  then if length f \<noteq> 5 \<or> f ! 3 \<noteq> ''table'' then Inl AfterGateway
                       else Inr (args @ [''table'', f ! 4])
                  else Inr args))"

text \<open>The loop of \<open>ParseRuleLine\<close>; the flag is \<open>hasLookup\<close>.\<close>

fun rule_fields :: "string list \<Rightarrow> bool \<Rightarrow> line_error + bool" where
  "rule_fields [] hasLookup = Inr hasLookup"
| "rule_fields [f] hasLookup =
     (if f = ''from'' \<or> f = ''to'' then Inl (NeedsValue f)
      else if f = ''lookup'' then Inl NeedsTable
      else if f = ''priority'' then Inl NeedsNumber
      else Inl (Unexpected f))"
| "rule_fields (f # v # fs) hasLookup =
     (if f = ''from'' \<or> f = ''to'' then rule_fields fs hasLookup
      else if f = ''lookup'' then rule_fields fs True
      else if f = ''priority'' then rule_fields fs hasLookup
      else Inl (Unexpected f))"

definition rule_prefixes :: "string list" where
  "rule_prefixes = [''ip rule add'', ''ip -4 rule add'', ''ip rule'', ''ip -4 rule'']"

definition ParseRuleLine :: "string \<Rightarrow> line_error + string list" where
  "ParseRuleLine line =
     (let f = Fields (stripPrefix line rule_prefixes)
      in if length f < 3 \<or> f ! 0 \<noteq> ''from'' then Inl RuleExpected
         else (case rule_fields f False of
                 Inl e \<Rightarrow> Inl e
               | Inr hasLookup \<Rightarrow> if \<not> hasLookup then Inl MissingLookup else Inr f))"

definition nat_prefixes :: "string list" where
  "nat_prefixes = [''iptables -t nat -A POSTROUTING'', ''iptables -A POSTROUTING -t nat'',
     ''iptables -t nat -I POSTROUTING'', ''iptables -t nat -A'', ''iptables -t nat'']"

definition nat_allowed :: "string list" where
  "nat_allowed = [''-s'', ''--source'', ''-d'', ''--destination'', ''-o'', ''--out-interface'', ''-p'',
     ''--protocol'', ''--dport'', ''--sport'', ''-j'', ''--to-source'']"

fun nat_fields :: "string list \<Rightarrow> line_error option" where
  "nat_fields [] = None"
| "nat_fields [f] =
     (if f \<notin> set nat_allowed then Some (NotAllowed f) else Some (NeedsValue f))"
| "nat_fields (f # v # fs) =
     (if f \<notin> set nat_allowed then Some (NotAllowed f)
      else if f = ''-j'' \<and> ToUpper v \<noteq> ''MASQUERADE'' \<and> ToUpper v \<noteq> ''SNAT'' then Some BadTarget
      else nat_fields fs)"

definition ParseNATLine :: "string \<Rightarrow> line_error + string list" where
  "ParseNATLine line =
     (let f = Fields (stripPrefix line nat_prefixes)
      in if length f = 0 then Inl EmptyNat
         else (case nat_fields f of Some e \<Rightarrow> Inl e | None \<Rightarrow> Inr f))"

section \<open>Applying the entries\<close>

definition extras_run :: "'w sys \<Rightarrow> string \<Rightarrow> string list \<Rightarrow> ('w, 'm, go_error) prog" where
  "extras_run S name args = do {
     r \<leftarrow> do_call S (Exec name args);
     State_Monad.return (case rerr r of
       None \<Rightarrow> nil
     | Some e \<Rightarrow> Some (name @ '' '' @ Join args '' '' @ '': '' @ e @ '' ('' @ TrimSpace (rcomb r) @ '')''))
   }"

text \<open>The argument lists of the lines that parse, and the keys of \<open>desired\<close>.\<close>

definition parsed :: "(string \<Rightarrow> line_error + string list) \<Rightarrow> string list \<Rightarrow> string list list" where
  "parsed parse lines =
     concat (map (\<lambda>l. case parse l of Inl e \<Rightarrow> [] | Inr args \<Rightarrow> [args]) (normalizeLines lines))"

definition desired :: "(string \<Rightarrow> line_error + string list) \<Rightarrow> string list \<Rightarrow> string set" where
  "desired parse lines = set (map (\<lambda>args. Join args '' '') (parsed parse lines))"

definition applyRoutes ::
  "'w sys \<Rightarrow> string list \<Rightarrow> string list \<Rightarrow> ('w, 'm, unit) prog" where
  "applyRoutes S prev next = do {
     for_each (normalizeLines next) (\<lambda>line. case ParseRouteLine line of
         Inl e \<Rightarrow> State_Monad.return ()
       | Inr args \<Rightarrow> do { _ \<leftarrow> extras_run S ''ip'' args; State_Monad.return () });
     for_each (normalizeLines prev) (\<lambda>line. case ParseRouteLine line of
         Inl e \<Rightarrow> State_Monad.return ()
       | Inr args \<Rightarrow>
           if Join args '' '' \<in> desired ParseRouteLine next then State_Monad.return ()
           else do { _ \<leftarrow> run_cmd S ''ip'' ([''route'', ''del''] @ drop 2 args);
                     State_Monad.return () }) }"

definition applyRules ::
  "'w sys \<Rightarrow> string list \<Rightarrow> string list \<Rightarrow> ('w, 'm, unit) prog" where
  "applyRules S prev next = do {
     for_each (normalizeLines next) (\<lambda>line. case ParseRuleLine line of
         Inl e \<Rightarrow> State_Monad.return ()
       | Inr args \<Rightarrow> do {
           _ \<leftarrow> retry_loop 8 (run_cmd S ''ip'' ([''rule'', ''del''] @ args));
           _ \<leftarrow> extras_run S ''ip'' ([''rule'', ''add''] @ args);
           State_Monad.return () });
     for_each (normalizeLines prev) (\<lambda>line. case ParseRuleLine line of
         Inl e \<Rightarrow> State_Monad.return ()
       | Inr args \<Rightarrow>
           if Join args '' '' \<in> desired ParseRuleLine next then State_Monad.return ()
           else do { _ \<leftarrow> retry_loop 8 (run_cmd S ''ip'' ([''rule'', ''del''] @ args));
                     State_Monad.return () }) }"

definition nat_ensure :: "'w sys \<Rightarrow> string list \<Rightarrow> ('w, 'm, unit) prog" where
  "nat_ensure S args = do {
     e \<leftarrow> run_cmd S ''iptables'' ([''-t'', ''nat'', ''-C'', ''POSTROUTING''] @ args);
     if e = nil then State_Monad.return ()
     else do {
       _ \<leftarrow> extras_run S ''iptables'' ([''-t'', ''nat'', ''-A'', ''POSTROUTING''] @ args);
       State_Monad.return () } }"

definition applyNAT ::
  "'w sys \<Rightarrow> string list \<Rightarrow> string list \<Rightarrow> ('w, 'm, unit) prog" where
  "applyNAT S prev next = do {
     for_each (normalizeLines next) (\<lambda>line. case ParseNATLine line of
         Inl e \<Rightarrow> State_Monad.return ()
       | Inr args \<Rightarrow> nat_ensure S args);
     for_each (normalizeLines prev) (\<lambda>line. case ParseNATLine line of
         Inl e \<Rightarrow> State_Monad.return ()
       | Inr args \<Rightarrow>
           if Join args '' '' \<in> desired ParseNATLine next then State_Monad.return ()
           else do { _ \<leftarrow> retry_loop 8 (run_cmd S ''iptables''
                             ([''-t'', ''nat'', ''-D'', ''POSTROUTING''] @ args));
                     State_Monad.return () }) }"

section \<open>The watchdog\<close>

definition routePresent :: "'w sys \<Rightarrow> string \<Rightarrow> ('w, 'm, bool) prog" where
  "routePresent S line =
     (case ParseRouteLine line of
        Inl e \<Rightarrow> State_Monad.return True
      | Inr args \<Rightarrow> do {
          r \<leftarrow> do_call S (Exec ''ip'' [''route'', ''show'', args ! 2]);
          State_Monad.return
            (if rerr r \<noteq> nil then False
             else if args ! 3 = ''via'' \<and> \<not> Contains (rout r) (''via '' @ args ! 4) then False
             else if length args > 5 \<and> \<not> Contains (rout r) (''table '' @ args ! 6) \<and> False then False
             else True) })"

text \<open>The source, destination and table of a rule, as \<open>rulePresent\<close> picks them out.\<close>

fun rule_ids :: "string list \<Rightarrow> string \<times> string \<times> string \<Rightarrow> string \<times> string \<times> string" where
  "rule_ids (f # v # fs) (src, dst, tab) =
     rule_ids (v # fs)
       (if f = ''from'' then (v, dst, tab)
        else if f = ''to'' then (src, v, tab)
        else if f = ''lookup'' then (src, dst, v)
        else (src, dst, tab))"
| "rule_ids _ ids = ids"

definition rulePresent :: "'w sys \<Rightarrow> string list \<Rightarrow> ('w, 'm, bool) prog" where
  "rulePresent S args = do {
     r \<leftarrow> do_call S (Exec ''ip'' [''rule'', ''show'']);
     State_Monad.return
       (if rerr r \<noteq> nil then False
        else (case rule_ids args ([], [], []) of (src, dst, tab) \<Rightarrow>
          list_ex (\<lambda>line. Contains line (''from '' @ src) \<and> Contains line (''lookup '' @ tab)
              \<and> (dst \<noteq> [] \<longrightarrow> Contains line (''to '' @ dst)))
            (Split (rout r) (CHR 0x0A)))) }"

definition extras_Ensure :: "'w sys \<Rightarrow> extras \<Rightarrow> ('w, 'm, unit) prog" where
  "extras_Ensure S e =
     (if IsZero e then State_Monad.return ()
      else do {
        for_each (normalizeLines (ex_Routes e)) (\<lambda>line. case ParseRouteLine line of
            Inl err \<Rightarrow> State_Monad.return ()
          | Inr args \<Rightarrow> do {
              present \<leftarrow> routePresent S line;
              if present then State_Monad.return ()
              else do { _ \<leftarrow> extras_run S ''ip'' args; State_Monad.return () } });
        for_each (normalizeLines (ex_Rules e)) (\<lambda>line. case ParseRuleLine line of
            Inl err \<Rightarrow> State_Monad.return ()
          | Inr args \<Rightarrow> do {
              present \<leftarrow> rulePresent S args;
              if present then State_Monad.return ()
              else do { _ \<leftarrow> extras_run S ''ip'' ([''rule'', ''add''] @ args);
                        State_Monad.return () } });
        for_each (normalizeLines (ex_NAT e)) (\<lambda>line. case ParseNATLine line of
            Inl err \<Rightarrow> State_Monad.return ()
          | Inr args \<Rightarrow> nat_ensure S args) })"

definition extras_Reconcile :: "'w sys \<Rightarrow> extras \<Rightarrow> extras \<Rightarrow> ('w, 'm, unit) prog" where
  "extras_Reconcile S prev next = do {
     applyRoutes S (ex_Routes prev) (ex_Routes next);
     applyRules S (ex_Rules prev) (ex_Rules next);
     applyNAT S (ex_NAT prev) (ex_NAT next) }"

end
