(* ===== verification/ExtrasLines.thy ===== *)
theory ExtrasLines
  imports Extras
begin

text \<open>
  The line formats of the custom entries: what each parser accepts, that an accepted entry can be
  pasted back as the shell command it stands for, and the \<open>line_format\<close> contract the appliers rely
  on.
\<close>

section \<open>Lines as lists of words\<close>

lemma split_at: "c \<notin> set v \<Longrightarrow> c \<notin> set g \<Longrightarrow> v @ c # x = g @ c # y \<longleftrightarrow> v = g \<and> x = y"
proof (induction v arbitrary: g)
  case Nil
  then show ?case by (cases g) auto
next
  case (Cons a v)
  then show ?case by (cases g) auto
qed

lemma field_no_space: "is_field f \<Longrightarrow> CHR '' '' \<notin> set f"
  by (rule space_free_no_ascii_space) (auto simp: is_field_def space_runes_def)

lemma Join_Cons_neq: "xs \<noteq> [] \<Longrightarrow> Join (x # xs) '' '' = x @ CHR '' '' # Join xs '' ''"
  by (simp add: Join_Cons)

lemma prefix_words:
  assumes "vs \<noteq> []" "\<forall>v \<in> set vs. is_field v" "\<forall>g \<in> set gs. is_field g"
  shows "prefix (Join vs '' '' @ '' '') (Join gs '' '') \<longleftrightarrow> strict_prefix vs gs"
  using assms
proof (induction vs arbitrary: gs)
  case (Cons v vs)
  have v: "CHR '' '' \<notin> set v" using Cons.prems by (simp add: field_no_space)
  show ?case
  proof (cases gs)
    case Nil
    then show ?thesis by simp
  next
    case (Cons g gs')
    have g: "CHR '' '' \<notin> set g" using Cons Cons.prems by (simp add: field_no_space)
    show ?thesis
    proof (cases "gs' = []")
      case True
      have "\<not> prefix (v @ CHR '' '' # r) g" for r using g by (auto simp: prefix_def)
      then show ?thesis using True Cons
        by (cases "vs = []") (auto simp: Join_Cons_neq strict_prefix_def)
    next
      case False
      show ?thesis
      proof (cases "vs = []")
        case True
        then show ?thesis using Cons False v g
          by (auto simp: Join_Cons_neq prefix_def strict_prefix_def split_at)
      next
        case nonempty: False
        have "prefix (Join (v # vs) '' '' @ '' '') (Join gs '' '')
            \<longleftrightarrow> v = g \<and> prefix (Join vs '' '' @ '' '') (Join gs' '' '')"
          using Cons False nonempty v g by (auto simp: Join_Cons_neq prefix_def split_at)
        also have "\<dots> \<longleftrightarrow> v = g \<and> strict_prefix vs gs'"
          using Cons.IH[OF nonempty, of gs'] Cons.prems Cons by simp
        finally show ?thesis using Cons by simp
      qed
    qed
  qed
qed simp

text \<open>\<open>stripPrefix\<close> on words: the first of the word lists that properly begins the line is cut off.\<close>

fun strip_words :: "string list \<Rightarrow> string list list \<Rightarrow> string list" where
  "strip_words gs [] = gs"
| "strip_words gs (ws # wss) =
     (if strict_prefix ws gs then drop (length ws) gs else strip_words gs wss)"

definition word_lists :: "string list list \<Rightarrow> bool" where
  "word_lists wss \<longleftrightarrow> (\<forall>ws \<in> set wss. ws \<noteq> [] \<and> (\<forall>w \<in> set ws. is_field w))"

lemma TrimSpace_blank: "TrimSpace (CHR '' '' # s) = TrimSpace s"
  by (simp add: TrimSpace_def trim_left_by.simps[of space_runes "CHR '' '' # s"])

lemma strip_first_words:
  assumes "\<forall>g \<in> set gs. is_field g" "word_lists wss"
  shows "strip_first (Join gs '' '') (map (\<lambda>ws. Join ws '' '') wss) = Join (strip_words gs wss) '' ''"
  using assms(2)
proof (induction wss)
  case (Cons ws wss)
  have ws: "ws \<noteq> []" "\<forall>w \<in> set ws. is_field w" using Cons.prems by (auto simp: word_lists_def)
  show ?case
  proof (cases "strict_prefix ws gs")
    case True
    then obtain fs where fs: "gs = ws @ fs" "fs \<noteq> []" by (auto simp: strict_prefix_def prefix_def)
    then have "Join gs '' '' = Join ws '' '' @ CHR '' '' # Join fs '' ''"
      using ws by (simp add: Join_append)
    moreover have "TrimSpace (Join fs '' '') = Join fs '' ''"
      using fs assms(1) by (intro TrimSpace_Join_fields) auto
    ultimately show ?thesis
      using True fs prefix_words[OF ws assms(1)]
      by (simp add: HasPrefix_def TrimPrefix_def TrimSpace_blank)
  next
    case False
    then show ?thesis
      using Cons prefix_words[OF ws assms(1)] by (simp add: HasPrefix_def word_lists_def)
  qed
qed simp

lemma set_strip_words: "set (strip_words gs wss) \<subseteq> set gs"
  by (induction wss) (auto dest: in_set_dropD)

lemma Fields_strip_words:
  assumes "\<forall>g \<in> set gs. is_field g" "word_lists wss"
  shows "Fields (stripPrefix (Join gs '' '') (map (\<lambda>ws. Join ws '' '') wss)) = strip_words gs wss"
proof -
  have "TrimSpace (Join gs '' '') = Join gs '' ''"
    using assms(1) by (intro TrimSpace_Join_fields) auto
  moreover have "Fields (Join (strip_words gs wss) '' '') = strip_words gs wss"
    using assms(1) set_strip_words[of gs wss] by (intro Fields_Join) auto
  ultimately show ?thesis
    by (simp add: stripPrefix_def strip_first_words[OF assms])
qed

definition route_words :: "string list list" where
  "route_words = [[''ip'', ''route'', ''add''], [''ip'', ''route'', ''replace''], [''ip'', ''-4'', ''route'', ''add''],
     [''ip'', ''-4'', ''route'', ''replace''], [''ip'', ''route''], [''ip'', ''-4'', ''route'']]"

definition rule_words :: "string list list" where
  "rule_words = [[''ip'', ''rule'', ''add''], [''ip'', ''-4'', ''rule'', ''add''], [''ip'', ''rule''], [''ip'', ''-4'', ''rule'']]"

definition nat_words :: "string list list" where
  "nat_words = [[''iptables'', ''-t'', ''nat'', ''-A'', ''POSTROUTING''],
     [''iptables'', ''-A'', ''POSTROUTING'', ''-t'', ''nat''],
     [''iptables'', ''-t'', ''nat'', ''-I'', ''POSTROUTING''],
     [''iptables'', ''-t'', ''nat'', ''-A''], [''iptables'', ''-t'', ''nat'']]"

lemma prefixes_as_words:
  "route_prefixes = map (\<lambda>ws. Join ws '' '') route_words"
  "rule_prefixes = map (\<lambda>ws. Join ws '' '') rule_words"
  "nat_prefixes = map (\<lambda>ws. Join ws '' '') nat_words"
  by (simp_all add: route_prefixes_def route_words_def rule_prefixes_def rule_words_def
      nat_prefixes_def nat_words_def)

lemma word_lists_ok: "word_lists route_words" "word_lists rule_words" "word_lists nat_words"
  by code_simp+

lemmas Fields_stripped = Fields_strip_words[OF _ word_lists_ok(1), folded prefixes_as_words(1)]
  Fields_strip_words[OF _ word_lists_ok(2), folded prefixes_as_words(2)]
  Fields_strip_words[OF _ word_lists_ok(3), folded prefixes_as_words(3)]

section \<open>What the parsers accept\<close>

definition flat :: "(string \<times> string) list \<Rightarrow> string list" where
  "flat ps = concat (map (\<lambda>(k, v). [k, v]) ps)"

lemma flat_simps [simp]: "flat [] = []" "flat ((k, v) # ps) = k # v # flat ps"
  by (simp_all add: flat_def)

lemma flat_eq_Cons2: "k # v # fs = flat ps \<longleftrightarrow> (\<exists>qs. ps = (k, v) # qs \<and> fs = flat qs)"
  by (cases ps) auto

lemma flat_eq_single: "[f] \<noteq> flat ps"
  by (cases ps) auto

lemma flat_eq_Nil: "flat ps = [] \<longleftrightarrow> ps = []"
  by (cases ps) auto

definition nat_pair :: "string \<times> string \<Rightarrow> bool" where
  "nat_pair p \<longleftrightarrow> fst p \<in> set nat_allowed
     \<and> (fst p = ''-j'' \<longrightarrow> ToUpper (snd p) \<in> {''MASQUERADE'', ''SNAT''})"

lemma flat_Cons_all:
  "(\<exists>ps. k # v # fs = flat ps \<and> list_all P ps) \<longleftrightarrow> P (k, v) \<and> (\<exists>ps. fs = flat ps \<and> list_all P ps)"
  by (auto simp: flat_eq_Cons2)

lemma nat_fields_None: "nat_fields fs = None \<longleftrightarrow> (\<exists>ps. fs = flat ps \<and> list_all nat_pair ps)"
proof (induction fs rule: nat_fields.induct)
  case 1
  show ?case by (auto intro!: exI[of _ "[]"])
next
  case (2 f)
  show ?case by (simp add: flat_eq_single)
next
  case (3 f v fs)
  have "nat_pair (f, v) \<longleftrightarrow> f \<in> set nat_allowed
      \<and> \<not> (f = ''-j'' \<and> ToUpper v \<noteq> ''MASQUERADE'' \<and> ToUpper v \<noteq> ''SNAT'')"
    by (auto simp: nat_pair_def)
  with 3 show ?case unfolding flat_Cons_all by simp
qed

lemma flat_Cons_ex:
  "(\<exists>ps. k # v # fs = flat ps \<and> P ps) \<longleftrightarrow> (\<exists>ps. fs = flat ps \<and> P ((k, v) # ps))"
  by (auto simp: flat_eq_Cons2)

definition rule_key :: "string \<Rightarrow> bool" where
  "rule_key k \<longleftrightarrow> k \<in> {''from'', ''to'', ''lookup'', ''priority''}"

lemma rule_fields_Inr:
  "rule_fields fs b = Inr r \<longleftrightarrow>
     (\<exists>ps. fs = flat ps \<and> list_all (rule_key \<circ> fst) ps \<and> (r \<longleftrightarrow> b \<or> ''lookup'' \<in> set (map fst ps)))"
proof (induction fs b rule: rule_fields.induct)
  case (1 b)
  then show ?case by (auto simp: flat_eq_Nil eq_commute[of "[]"] intro!: exI[of _ "[]"])
next
  case (2 f b)
  then show ?case by (simp add: flat_eq_single)
next
  case (3 f v fs b)
  have keys: "rule_key f \<longleftrightarrow> (f = ''from'' \<or> f = ''to'') \<or> f = ''lookup'' \<or> f = ''priority''"
    by (auto simp: rule_key_def)
  consider "f = ''from'' \<or> f = ''to''" | "f = ''lookup''" | "f = ''priority''" | "\<not> rule_key f"
    using keys by blast
  then show ?case
  proof cases
    case 1
    then have "rule_key f" "f \<noteq> ''lookup''" using keys by auto
    with 1 "3.IH"(1) show ?thesis unfolding flat_Cons_ex by (simp add: comp_def)
  next
    case 2
    then have "rule_key f" using keys by auto
    with 2 "3.IH"(2) show ?thesis unfolding flat_Cons_ex by (simp add: comp_def)
  next
    case 3
    then have "rule_key f" "f \<noteq> ''lookup''" using keys by auto
    with 3 "3.IH"(3) show ?thesis unfolding flat_Cons_ex by (simp add: comp_def)
  next
    case 4
    then show ?thesis unfolding flat_Cons_ex using keys by (simp add: comp_def)
  qed
qed

text \<open>The three parsers on the words of the line.\<close>

lemma ParseRouteLine_Inr:
  "ParseRouteLine line = Inr args \<longleftrightarrow>
     (\<exists>d g. Fields (stripPrefix line route_prefixes) = [d, ''via'', g]
          \<and> args = [''route'', ''replace'', d, ''via'', g])
   \<or> (\<exists>d g t. Fields (stripPrefix line route_prefixes) = [d, ''via'', g, ''table'', t]
          \<and> args = [''route'', ''replace'', d, ''via'', g, ''table'', t])"
proof -
  have len: "length f < 3 \<or> (\<exists>a b c. f = [a, b, c]) \<or> (\<exists>a b c d e. f = [a, b, c, d, e])
      \<or> 3 < length f \<and> length f \<noteq> 5" for f :: "string list"
    by (cases "length f = 3 \<or> length f = 5") (auto simp: eval_nat_numeral length_Suc_conv)
  show ?thesis
    using len[of "Fields (stripPrefix line route_prefixes)"]
    by (elim disjE exE) (auto simp: ParseRouteLine_def Let_def)
qed

lemma ParseRuleLine_Inr:
  "ParseRuleLine line = Inr args \<longleftrightarrow>
     args = Fields (stripPrefix line rule_prefixes) \<and> 3 \<le> length args \<and> args ! 0 = ''from''
     \<and> rule_fields args False = Inr True"
  by (auto simp: ParseRuleLine_def Let_def split: sum.splits)

lemma ParseNATLine_Inr:
  "ParseNATLine line = Inr args \<longleftrightarrow>
     args = Fields (stripPrefix line nat_prefixes) \<and> args \<noteq> [] \<and> nat_fields args = None"
  by (auto simp: ParseNATLine_def Let_def split: option.splits)

text \<open>
  C29. \<open>ParseNATLine\<close> accepts exactly the lines whose words, after the optional shell
  prefix, are one or more option and value pairs with the option from the list of allowed matches and
  every \<open>-j\<close> target MASQUERADE or SNAT in any case (a line without \<open>-j\<close> is
  accepted too); the result is those words. No accepted line can therefore smuggle a chain, table or
  command option to iptables in the place of an option.
\<close>
theorem ParseNATLine_exact:
  "ParseNATLine line = Inr args \<longleftrightarrow>
     args = Fields (stripPrefix line nat_prefixes) \<and>
     (\<exists>ps. ps \<noteq> [] \<and> args = flat ps \<and> list_all nat_pair ps)"
proof -
  let ?f = "Fields (stripPrefix line nat_prefixes)"
  have "ParseNATLine line = Inr args \<longleftrightarrow> args = ?f \<and> ?f \<noteq> [] \<and> nat_fields ?f = None"
    by (auto simp: ParseNATLine_Inr)
  also have "\<dots> \<longleftrightarrow> args = ?f \<and> (\<exists>ps. ps \<noteq> [] \<and> args = flat ps \<and> list_all nat_pair ps)"
    using flat_eq_Nil nat_fields_None by metis
  finally show ?thesis .
qed

text \<open>
  \<open>ParseRuleLine\<close> accepts exactly the lines whose words, after the optional shell prefix, are
  key and value pairs with keys \<open>from\<close>, \<open>to\<close>, \<open>lookup\<close> and \<open>priority\<close>, the first of them a \<open>from\<close>
  and at least one a \<open>lookup\<close>; the result is those words.
\<close>
theorem ParseRuleLine_exact:
  "ParseRuleLine line = Inr args \<longleftrightarrow>
     args = Fields (stripPrefix line rule_prefixes) \<and>
     (\<exists>src ps. args = ''from'' # src # flat ps \<and> list_all (rule_key \<circ> fst) ps
        \<and> ''lookup'' \<in> set (map fst ps))"
proof -
  let ?f = "Fields (stripPrefix line rule_prefixes)"
  have "ParseRuleLine line = Inr args \<longleftrightarrow>
      args = ?f \<and> 3 \<le> length ?f \<and> ?f ! 0 = ''from'' \<and> rule_fields ?f False = Inr True"
    by (auto simp: ParseRuleLine_Inr)
  also have "\<dots> \<longleftrightarrow> args = ?f \<and> (\<exists>src ps. args = ''from'' # src # flat ps
      \<and> list_all (rule_key \<circ> fst) ps \<and> ''lookup'' \<in> set (map fst ps))"
  proof (intro conj_cong iffI)
    assume "args = ?f" and l: "3 \<le> length ?f \<and> ?f ! 0 = ''from'' \<and> rule_fields ?f False = Inr True"
    then obtain ps where ps: "args = flat ps" "list_all (rule_key \<circ> fst) ps" "''lookup'' \<in> set (map fst ps)"
      by (auto simp: rule_fields_Inr)
    then obtain k v qs where "ps = (k, v) # qs" by (cases ps) auto
    with ps l \<open>args = ?f\<close> show "\<exists>src ps. args = ''from'' # src # flat ps
        \<and> list_all (rule_key \<circ> fst) ps \<and> ''lookup'' \<in> set (map fst ps)"
      by (intro exI[of _ v] exI[of _ qs]) auto
  next
    assume "args = ?f" and "\<exists>src ps. args = ''from'' # src # flat ps
        \<and> list_all (rule_key \<circ> fst) ps \<and> ''lookup'' \<in> set (map fst ps)"
    then obtain src ps where ps: "?f = flat ((''from'', src) # ps)"
      "list_all (rule_key \<circ> fst) ps" "''lookup'' \<in> set (map fst ps)" by auto
    then have "rule_fields ?f False = Inr True"
      unfolding rule_fields_Inr by (intro exI[of _ "(''from'', src) # ps"]) (auto simp: rule_key_def)
    moreover have "flat ps \<noteq> []" using ps(3) by (auto simp: flat_eq_Nil)
    ultimately show "3 \<le> length ?f \<and> ?f ! 0 = ''from'' \<and> rule_fields ?f False = Inr True"
      using ps(1) by (cases "flat ps") auto
  qed simp
  finally show ?thesis .
qed

section \<open>Pasting an entry back\<close>

lemma route_pasted:
  assumes "ParseRouteLine l = Inr args" "ws \<in> insert [] (set (take 4 route_words))"
  shows "ParseRouteLine (Join (ws @ drop 2 args) '' '') = Inr args"
proof -
  let ?f = "Fields (stripPrefix l route_prefixes)"
  have f: "drop 2 args = ?f" "\<exists>d fs. ?f = d # ''via'' # fs"
    using assms(1) by (auto simp: ParseRouteLine_Inr)
  have "\<forall>w \<in> set ws. is_field w"
    using assms(2) word_lists_ok(1) by (auto simp: word_lists_def dest!: in_set_takeD)
  then have "\<forall>w \<in> set (ws @ ?f). is_field w" by (auto intro: Fields_is_field)
  moreover have "strip_words (ws @ ?f) route_words = ?f"
    using f(2) assms(2) by (auto simp: route_words_def)
  ultimately have "Fields (stripPrefix (Join (ws @ ?f) '' '') route_prefixes) = ?f"
    using Fields_stripped(1) by simp
  then show ?thesis using assms(1) unfolding f(1) ParseRouteLine_Inr by simp
qed

lemma rule_pasted:
  assumes "ParseRuleLine l = Inr args" "ws \<in> insert [] (set rule_words)"
  shows "ParseRuleLine (Join (ws @ args) '' '') = Inr args"
proof -
  have args: "args = Fields (stripPrefix l rule_prefixes)" "\<exists>fs. args = ''from'' # fs"
    using assms(1) by (auto simp: ParseRuleLine_Inr) (metis Suc_le_length_iff nth_Cons_0 numeral_3_eq_3)
  have "\<forall>w \<in> set ws. is_field w"
    using assms(2) word_lists_ok(2) by (auto simp: word_lists_def)
  then have "\<forall>w \<in> set (ws @ args). is_field w"
    using args(1) by (auto intro: Fields_is_field)
  moreover have "strip_words (ws @ args) rule_words = args"
    using args(2) assms(2) by (auto simp: rule_words_def)
  ultimately have "Fields (stripPrefix (Join (ws @ args) '' '') rule_prefixes) = args"
    using Fields_stripped(2) by simp
  then show ?thesis using assms(1) unfolding ParseRuleLine_Inr by metis
qed

lemma nat_pasted:
  assumes "ParseNATLine l = Inr args" "ws \<in> insert [] (set nat_words)"
  shows "ParseNATLine (Join (ws @ args) '' '') = Inr args"
proof -
  obtain k fs where args: "args = Fields (stripPrefix l nat_prefixes)" "args = k # fs" "k \<in> set nat_allowed"
  proof -
    obtain ps where "args = Fields (stripPrefix l nat_prefixes)" "args = flat ps" "args \<noteq> []"
        "list_all nat_pair ps"
      using assms(1) by (auto simp: ParseNATLine_Inr nat_fields_None)
    moreover from this obtain k v qs where "ps = (k, v) # qs" by (cases ps) auto
    ultimately show ?thesis using that[of k "v # flat qs"] by (simp add: nat_pair_def)
  qed
  have "\<forall>w \<in> set ws. is_field w"
    using assms(2) word_lists_ok(3) by (auto simp: word_lists_def)
  then have "\<forall>w \<in> set (ws @ args). is_field w"
    using args(1) by (auto intro: Fields_is_field)
  moreover have "k \<noteq> ''iptables'' \<and> k \<noteq> ''-A'' \<and> k \<noteq> ''-I'' \<and> k \<noteq> ''POSTROUTING''"
    using args(3) by (auto simp: nat_allowed_def)
  then have "strip_words (ws @ args) nat_words = args"
    using args(2) assms(2) by (auto simp: nat_words_def)
  ultimately have "Fields (stripPrefix (Join (ws @ args) '' '') nat_prefixes) = args"
    using Fields_stripped(3) by simp
  then show ?thesis using assms(1) unfolding ParseNATLine_Inr by metis
qed

text \<open>
  C30. An accepted entry can be pasted back as text: written out bare, or behind any of the shell
  prefixes (for a route, one that names \<open>add\<close> or \<open>replace\<close>), it parses to the same arguments.
\<close>
theorem parsers_paste_roundtrip:
  "(\<forall>ws \<in> insert [] (set (take 4 route_words)). ParseRouteLine l = Inr args
        \<longrightarrow> ParseRouteLine (Join (ws @ drop 2 args) '' '') = Inr args)
   \<and> (\<forall>ws \<in> insert [] (set rule_words). ParseRuleLine l = Inr args
        \<longrightarrow> ParseRuleLine (Join (ws @ args) '' '') = Inr args)
   \<and> (\<forall>ws \<in> insert [] (set nat_words). ParseNATLine l = Inr args
        \<longrightarrow> ParseNATLine (Join (ws @ args) '' '') = Inr args)"
  by (intro conjI ballI impI route_pasted rule_pasted nat_pasted)

theorem parsers_paste_roundtrip_witness:
  "ParseRuleLine ''from 10.0.0.0/8 lookup main'' = Inr [''from'', ''10.0.0.0/8'', ''lookup'', ''main'']
   \<and> ParseRuleLine ''ip rule add from 10.0.0.0/8 lookup main''
       = Inr [''from'', ''10.0.0.0/8'', ''lookup'', ''main'']"
proof -
  let ?ws = "[''from'', ''10.0.0.0/8'', ''lookup'', ''main'']"
  have "\<forall>g \<in> set ?ws. is_field g"
    by (auto intro!: plain_is_field simp: plain_def space_runes_def)
  then have "Fields (stripPrefix (Join ?ws '' '') rule_prefixes) = ?ws"
    using Fields_stripped(2)[of ?ws] by (simp add: rule_words_def)
  then have bare: "ParseRuleLine ''from 10.0.0.0/8 lookup main'' = Inr ?ws"
    by (simp add: ParseRuleLine_Inr)
  have "[''ip'', ''rule'', ''add''] \<in> insert [] (set rule_words)" by (simp add: rule_words_def)
  with bare parsers_paste_roundtrip[of "''from 10.0.0.0/8 lookup main''"
      "[''from'', ''10.0.0.0/8'', ''lookup'', ''main'']"]
  have "ParseRuleLine (Join ([''ip'', ''rule'', ''add''] @ [''from'', ''10.0.0.0/8'', ''lookup'', ''main'']) '' '')
      = Inr [''from'', ''10.0.0.0/8'', ''lookup'', ''main'']" by blast
  with bare show ?thesis by simp
qed

section \<open>The contract of a line format\<close>

text \<open>
  What the appliers rely on: the arguments are words, and writing them out gives a line that
  normalises to itself and parses to them again.
\<close>

locale line_format =
  fixes parse :: "string \<Rightarrow> line_error + string list" and write_line :: "string list \<Rightarrow> string"
  assumes parse_words: "parse l = Inr args \<Longrightarrow> args \<noteq> [] \<and> (\<forall>f \<in> set args. is_field f)"
    and reparse: "parse l = Inr args \<Longrightarrow> parse (write_line args) = Inr args"
    and written_normal: "parse l = Inr args \<Longrightarrow> normalizeLines [write_line args] = [write_line args]"
begin

lemma parsed_words: "args \<in> set (parsed parse lines) \<Longrightarrow> args \<noteq> [] \<and> (\<forall>f \<in> set args. is_field f)"
proof -
  assume "args \<in> set (parsed parse lines)"
  then obtain l where "parse l = Inr args"
    by (auto simp: parsed_def split: sum.splits)
  then show ?thesis by (rule parse_words)
qed

lemma desired_iff:
  assumes "parse l = Inr args"
  shows "Join args '' '' \<in> desired parse lines \<longleftrightarrow> args \<in> set (parsed parse lines)"
proof -
  have "Join args '' '' = Join b '' '' \<longleftrightarrow> args = b" if "b \<in> set (parsed parse lines)" for b
    using that parsed_words parse_words[OF assms] by (intro Join_Fields_inject) auto
  then show ?thesis by (auto simp: desired_def)
qed

text \<open>Writing the parsed entries out gives lines with the same entries.\<close>

lemma normalize_append: "normalizeLines (xs @ ys) = normalizeLines xs @ normalizeLines ys"
  by (simp add: normalizeLines_def)

lemma parsed_Cons:
  "parsed parse (l # lines)
     = concat (map (\<lambda>l. case parse l of Inl e \<Rightarrow> [] | Inr args \<Rightarrow> [args]) (normalizeLines [l])) @ parsed parse lines"
  using normalize_append[of "[l]" lines] by (simp add: parsed_def)

lemma parsed_written:
  "\<forall>args \<in> set as. \<exists>l. parse l = Inr args \<Longrightarrow> parsed parse (map write_line as) = as"
proof (induction as)
  case Nil
  then show ?case by (simp add: parsed_def normalizeLines_def)
next
  case (Cons a as)
  then obtain l where l: "parse l = Inr a" by auto
  have "parsed parse (map write_line as) = as" using Cons by simp
  then show ?case using parsed_Cons[of "write_line a" "map write_line as"] written_normal[OF l] reparse[OF l]
    by simp
qed

end

text \<open>The three formats of the program.\<close>

definition write_route :: "string list \<Rightarrow> string" where
  "write_route args = Join ([''ip'', ''route'', ''replace''] @ drop 2 args) '' ''"

definition write_rule :: "string list \<Rightarrow> string" where
  "write_rule args = Join ([''ip'', ''rule'', ''add''] @ args) '' ''"

definition write_nat :: "string list \<Rightarrow> string" where
  "write_nat args = Join ([''iptables'', ''-t'', ''nat'', ''-A'', ''POSTROUTING''] @ args) '' ''"

lemma normalize_words:
  assumes "\<forall>w \<in> set ws. is_field w" "ws \<noteq> []" "hd (hd ws) \<noteq> CHR ''#''"
  shows "normalizeLines [Join ws '' ''] = [Join ws '' '']"
proof -
  have "TrimSpace (Join ws '' '') = Join ws '' ''"
    using assms(1) by (intro TrimSpace_Join_fields) auto
  moreover obtain c w rest where "ws = (c # w) # rest"
    using assms(1,2) by (cases ws; cases "hd ws") (auto simp: is_field_def)
  moreover from this have "\<exists>r. Join ws '' '' = c # r" by (cases rest) auto
  ultimately show ?thesis using assms(3) by (auto simp: normalizeLines_def HasPrefix_def)
qed

lemma command_words_are_fields: "is_field ''ip''" "is_field ''route''" "is_field ''replace''"
  "is_field ''rule''" "is_field ''add''" "is_field ''iptables''" "is_field ''-t''" "is_field ''nat''"
  "is_field ''-A''" "is_field ''POSTROUTING''"
  using word_lists_ok by (auto simp: word_lists_def route_words_def rule_words_def nat_words_def)

lemma parsers_words:
  "ParseRouteLine l = Inr args \<Longrightarrow> args \<noteq> [] \<and> (\<forall>f \<in> set args. is_field f)"
  "ParseRuleLine l = Inr args \<Longrightarrow> args \<noteq> [] \<and> (\<forall>f \<in> set args. is_field f)"
  "ParseNATLine l = Inr args \<Longrightarrow> args \<noteq> [] \<and> (\<forall>f \<in> set args. is_field f)"
proof -
  have via: "is_field ''via'' \<and> is_field ''table''" by code_simp
  show "args \<noteq> [] \<and> (\<forall>f \<in> set args. is_field f)" if "ParseRouteLine l = Inr args"
    using that Fields_is_field[of _ "stripPrefix l route_prefixes"] command_words_are_fields via
    by (auto simp: ParseRouteLine_Inr)
  show "args \<noteq> [] \<and> (\<forall>f \<in> set args. is_field f)" if "ParseRuleLine l = Inr args"
    using that Fields_is_field by (auto simp: ParseRuleLine_Inr)
  show "args \<noteq> [] \<and> (\<forall>f \<in> set args. is_field f)" if "ParseNATLine l = Inr args"
    using that Fields_is_field by (auto simp: ParseNATLine_Inr)
qed

interpretation route_line: line_format ParseRouteLine write_route
proof
  fix l args assume p: "ParseRouteLine l = Inr args"
  show "args \<noteq> [] \<and> (\<forall>f \<in> set args. is_field f)" using p by (rule parsers_words)
  show "ParseRouteLine (write_route args) = Inr args"
    unfolding write_route_def by (rule route_pasted[OF p]) (simp add: route_words_def)
  show "normalizeLines [write_route args] = [write_route args]"
    unfolding write_route_def
    using parsers_words(1)[OF p] command_words_are_fields by (intro normalize_words) (auto dest: in_set_dropD)
qed

interpretation rule_line: line_format ParseRuleLine write_rule
proof
  fix l args assume p: "ParseRuleLine l = Inr args"
  show "args \<noteq> [] \<and> (\<forall>f \<in> set args. is_field f)" using p by (rule parsers_words)
  show "ParseRuleLine (write_rule args) = Inr args"
    unfolding write_rule_def by (rule rule_pasted[OF p]) (simp add: rule_words_def)
  show "normalizeLines [write_rule args] = [write_rule args]"
    unfolding write_rule_def
    using parsers_words(2)[OF p] command_words_are_fields by (intro normalize_words) (auto dest: in_set_dropD)
qed

interpretation nat_line: line_format ParseNATLine write_nat
proof
  fix l args assume p: "ParseNATLine l = Inr args"
  show "args \<noteq> [] \<and> (\<forall>f \<in> set args. is_field f)" using p by (rule parsers_words)
  show "ParseNATLine (write_nat args) = Inr args"
    unfolding write_nat_def by (rule nat_pasted[OF p]) (simp add: nat_words_def)
  show "normalizeLines [write_nat args] = [write_nat args]"
    unfolding write_nat_def
    using parsers_words(3)[OF p] command_words_are_fields by (intro normalize_words) (auto dest: in_set_dropD)
qed

end
