(* ===== verification/ExtrasEffects.thy ===== *)
theory ExtrasEffects
  imports ExtrasLines
begin

text \<open>
  What applying and watching the custom entries does to the host.
\<close>

section \<open>The entries an apply works on\<close>

text \<open>The entries that disappeared: parsed from the old lines and not among the desired ones.\<close>

definition stale_entries ::
  "(string \<Rightarrow> line_error + string list) \<Rightarrow> string list \<Rightarrow> string list \<Rightarrow> string list list" where
  "stale_entries parse prev next =
     filter (\<lambda>args. Join args '' '' \<notin> desired parse next) (parsed parse prev)"

lemma for_each_parsed:
  "for_each (normalizeLines lines)
     (\<lambda>line. case parse line of Inl e \<Rightarrow> State_Monad.return () | Inr args \<Rightarrow> f args)
   = for_each (parsed parse lines) f"
proof -
  have app: "for_each (xs @ ys) f = do { for_each xs f; for_each ys f }" for xs ys
    by (induction xs) auto
  have "for_each ls (\<lambda>line. case parse line of Inl e \<Rightarrow> State_Monad.return () | Inr args \<Rightarrow> f args)
      = for_each (concat (map (\<lambda>l. case parse l of Inl e \<Rightarrow> [] | Inr args \<Rightarrow> [args]) ls)) f" for ls
    by (induction ls) (auto simp: app split: sum.splits)
  then show ?thesis by (simp add: parsed_def)
qed

context line_format
begin

lemma stale_set: "set (stale_entries parse prev next) = set (parsed parse prev) - set (parsed parse next)"
proof -
  have "Join args '' '' \<in> desired parse next \<longleftrightarrow> args \<in> set (parsed parse next)"
    if "args \<in> set (parsed parse prev)" for args
  proof -
    from that obtain l where "parse l = Inr args" by (auto simp: parsed_def split: sum.splits)
    then show ?thesis by (rule desired_iff)
  qed
  then show ?thesis by (auto simp: stale_entries_def)
qed

end

sublocale line_format \<subseteq> entries:
  stale_plan "\<lambda>lines. set (parsed parse lines)" "\<lambda>lines. set (parsed parse lines)" "stale_entries parse"
  by unfold_locales (rule stale_set)

text \<open>The three appliers as loops over entries.\<close>

lemma applyRoutes_eq:
  "applyRoutes S prev next = do {
     for_each (parsed ParseRouteLine next)
       (\<lambda>args. do { _ \<leftarrow> extras_run S ''ip'' args; State_Monad.return () });
     for_each (stale_entries ParseRouteLine prev next)
       (\<lambda>args. do { _ \<leftarrow> run_cmd S ''ip'' ([''route'', ''del''] @ drop 2 args); State_Monad.return () }) }"
  unfolding applyRoutes_def for_each_parsed for_each_map_filter stale_entries_def by simp

lemma applyRules_eq:
  "applyRules S prev next = do {
     for_each (parsed ParseRuleLine next) (\<lambda>args. do {
       _ \<leftarrow> retry_loop 8 (run_cmd S ''ip'' ([''rule'', ''del''] @ args));
       _ \<leftarrow> extras_run S ''ip'' ([''rule'', ''add''] @ args);
       State_Monad.return () });
     for_each (stale_entries ParseRuleLine prev next) (\<lambda>args. do {
       _ \<leftarrow> retry_loop 8 (run_cmd S ''ip'' ([''rule'', ''del''] @ args)); State_Monad.return () }) }"
  unfolding applyRules_def for_each_parsed for_each_map_filter stale_entries_def by simp

lemma applyNAT_eq:
  "applyNAT S prev next = do {
     for_each (parsed ParseNATLine next) (nat_ensure S);
     drop_all S 8 ''nat'' ''POSTROUTING'' (stale_entries ParseNATLine prev next) }"
  unfolding applyNAT_def for_each_parsed for_each_map_filter stale_entries_def drop_all_def
    drop_copies_def ipt_args_def by simp

section \<open>NAT rules\<close>








section \<open>The commands of a sync\<close>

text \<open>The last of the calls \<open>c\<close> and \<open>d\<close> in a list of calls is \<open>c\<close>.\<close>

definition last_wins :: "call \<Rightarrow> call \<Rightarrow> call list \<Rightarrow> bool" where
  "last_wins c d cs \<longleftrightarrow> (\<exists>us vs. cs = us @ c # vs \<and> d \<notin> set vs)"

lemma last_wins_single: "last_wins c d [c]" "last_wins c d (us @ [c])"
  unfolding last_wins_def by fastforce+

lemma last_wins_append: "last_wins c d vs \<Longrightarrow> last_wins c d (us @ vs)"
  unfolding last_wins_def by (metis append.assoc)

lemma last_wins_keep: "last_wins c d us \<Longrightarrow> d \<notin> set vs \<Longrightarrow> last_wins c d (us @ vs)"
  unfolding last_wins_def by (metis Un_iff append.assoc append_Cons set_append)

lemma emits_not_in: "emits P m \<Longrightarrow> \<not> P d \<Longrightarrow> d \<notin> set (calls m h)"
  using emits_calls[of P m h] by (auto simp: list_all_iff)

lemma last_wins_for_each:
  assumes "a \<in> set as" "\<And>b. emits (\<lambda>_. True) (f b)"
    and "\<And>h. last_wins c d (calls (f a) h)"
    and "\<And>b. b \<in> set as \<Longrightarrow> b \<noteq> a \<Longrightarrow> emits (\<lambda>cl. cl \<noteq> d) (f b)"
  shows "last_wins c d (calls (for_each as f) h)"
proof -
  obtain xs ys where as: "as = xs @ a # ys" "a \<notin> set ys"
    using assms(1) by (metis split_list_last)
  have "emits (\<lambda>cl. cl \<noteq> d) (for_each ys f)"
    using as by (intro emits_for_each assms(4)) auto
  then have ys: "d \<notin> set (calls (for_each ys f) h)" for h
    using emits_not_in[of "\<lambda>cl. cl \<noteq> d"] by blast
  let ?h = "after (for_each xs f) h"
  have "calls (for_each as f) h
      = calls (for_each xs f) h @ calls (f a) ?h @ calls (for_each ys f) (after (f a) ?h)"
    unfolding as(1) using assms(2) by (simp only: calls_for_each_append calls_for_each_Cons)
  then show ?thesis
    using last_wins_append last_wins_keep[OF assms(3) ys] by metis
qed

lemma in_calls_for_each:
  assumes "a \<in> set as" "\<And>b. emits (\<lambda>_. True) (f b)" "\<And>h. c \<in> set (calls (f a) h)"
  shows "c \<in> set (calls (for_each as f) h)"
proof -
  obtain xs ys where as: "as = xs @ a # ys" using assms(1) by (metis split_list)
  show ?thesis
    unfolding as calls_for_each_append[of f, OF assms(2)] calls_for_each_Cons[of f, OF assms(2)]
    using assms(3) by simp
qed

lemma calls_extras_run [simp]: "calls (extras_run S name args) h = [Exec name args]"
  by (simp add: extras_run_def calls_def run_do_call)

lemma emits_extras_run [emits_intros]: "P (Exec name args) \<Longrightarrow> emits P (extras_run S name args)"
  unfolding extras_run_def by (intro emits_intros)

lemma calls_retry_first: "Exec name args \<in> set (calls (retry_loop (Suc n) (run_cmd S name args)) h)"
  unfolding retry_loop.simps(2)
  by (subst calls_bind[where P = "\<lambda>_. True"]) (auto intro!: emits_intros)

text \<open>The steps of the loops, one entry at a time.\<close>

definition add_rule :: "'w sys \<Rightarrow> string list \<Rightarrow> ('w, 'm, unit) prog" where
  "add_rule S args = do {
     _ \<leftarrow> retry_loop 8 (run_cmd S ''ip'' ([''rule'', ''del''] @ args));
     _ \<leftarrow> extras_run S ''ip'' ([''rule'', ''add''] @ args);
     State_Monad.return () }"

definition del_rule :: "'w sys \<Rightarrow> string list \<Rightarrow> ('w, 'm, unit) prog" where
  "del_rule S args = do {
     _ \<leftarrow> retry_loop 8 (run_cmd S ''ip'' ([''rule'', ''del''] @ args)); State_Monad.return () }"

definition add_route :: "'w sys \<Rightarrow> string list \<Rightarrow> ('w, 'm, unit) prog" where
  "add_route S args = do { _ \<leftarrow> extras_run S ''ip'' args; State_Monad.return () }"

definition del_route :: "'w sys \<Rightarrow> string list \<Rightarrow> ('w, 'm, unit) prog" where
  "del_route S args = do {
     _ \<leftarrow> run_cmd S ''ip'' ([''route'', ''del''] @ drop 2 args); State_Monad.return () }"

lemmas entry_steps = add_rule_def del_rule_def add_route_def del_route_def

lemma emits_steps:
  "P (Exec ''ip'' ([''rule'', ''del''] @ args)) \<Longrightarrow> P (Exec ''ip'' ([''rule'', ''add''] @ args)) \<Longrightarrow> emits P (add_rule S args)"
  "P (Exec ''ip'' ([''rule'', ''del''] @ args)) \<Longrightarrow> emits P (del_rule S args)"
  "P (Exec ''ip'' args) \<Longrightarrow> emits P (add_route S args)"
  "P (Exec ''ip'' ([''route'', ''del''] @ drop 2 args)) \<Longrightarrow> emits P (del_route S args)"
  unfolding entry_steps by (intro emits_intros; assumption)+

lemma emits_nat_ensure:
  "(\<And>act. act \<in> {''-C'', ''-A''} \<Longrightarrow> P (Exec ''iptables'' ([''-t'', ''nat'', act, ''POSTROUTING''] @ args)))
   \<Longrightarrow> emits P (nat_ensure S args)"
  unfolding nat_ensure_def by (intro emits_intros) auto

lemma emits_drop_all:
  "(\<And>r. r \<in> set rs \<Longrightarrow> P (Exec ''iptables'' (ipt_args t ''-D'' c r))) \<Longrightarrow> emits P (drop_all S n t c rs)"
  unfolding drop_all_def drop_copies_def by (intro emits_intros)

lemmas apply_eqs = applyRoutes_eq[folded entry_steps] applyRules_eq[folded entry_steps] applyNAT_eq

lemma emits_apply:
  "(\<And>a. a \<in> set (parsed ParseRouteLine next) \<Longrightarrow> P (Exec ''ip'' a))
   \<Longrightarrow> (\<And>a. a \<in> set (stale_entries ParseRouteLine prev next) \<Longrightarrow> P (Exec ''ip'' ([''route'', ''del''] @ drop 2 a)))
   \<Longrightarrow> emits P (applyRoutes S prev next)"
  "(\<And>a. a \<in> set (parsed ParseRuleLine next) \<Longrightarrow> P (Exec ''ip'' ([''rule'', ''add''] @ a)))
   \<Longrightarrow> (\<And>a. a \<in> set (parsed ParseRuleLine next) \<union> set (stale_entries ParseRuleLine prev next)
          \<Longrightarrow> P (Exec ''ip'' ([''rule'', ''del''] @ a)))
   \<Longrightarrow> emits P (applyRules S prev next)"
  "(\<And>a act. a \<in> set (parsed ParseNATLine next) \<Longrightarrow> act \<in> {''-C'', ''-A''}
          \<Longrightarrow> P (Exec ''iptables'' ([''-t'', ''nat'', act, ''POSTROUTING''] @ a)))
   \<Longrightarrow> (\<And>a. a \<in> set (stale_entries ParseNATLine prev next)
          \<Longrightarrow> P (Exec ''iptables'' ([''-t'', ''nat'', ''-D'', ''POSTROUTING''] @ a)))
   \<Longrightarrow> emits P (applyNAT S prev next)"
  unfolding apply_eqs
  by (intro emits_bind emits_for_each emits_steps emits_nat_ensure emits_drop_all; simp add: ipt_args_def)+

lemma emits_all_steps:
  "emits (\<lambda>_. True) (add_rule S a)" "emits (\<lambda>_. True) (del_rule S a)" "emits (\<lambda>_. True) (add_route S a)"
  "emits (\<lambda>_. True) (del_route S a)" "emits (\<lambda>_. True) (nat_ensure S a)" "emits (\<lambda>_. True) (drop_all S n t c rs)"
  "emits (\<lambda>_. True) (applyRoutes S p q)" "emits (\<lambda>_. True) (applyRules S p q)" "emits (\<lambda>_. True) (applyNAT S p q)"
  by (intro emits_steps emits_nat_ensure emits_drop_all emits_apply TrueI)+

lemma calls_two:
  assumes "\<And>a. emits (\<lambda>_. True) (f a)" "\<And>a. emits (\<lambda>_. True) (g a)"
  shows "calls (do { for_each as f; for_each bs g }) h
     = calls (for_each as f) h @ calls (for_each bs g) (after (for_each as f) h)"
  using assms by (subst calls_bind[where P = "\<lambda>_. True"]) (auto intro: emits_for_each)

lemma route_entry: "a \<in> set (parsed ParseRouteLine lines) \<Longrightarrow> \<exists>c. a = ''route'' # ''replace'' # c"
proof -
  assume "a \<in> set (parsed ParseRouteLine lines)"
  then obtain l where "ParseRouteLine l = Inr a" by (auto simp: parsed_def split: sum.splits)
  then show ?thesis by (auto simp: ParseRouteLine_Inr)
qed

lemma stale_entry:
  "a \<in> set (stale_entries parse prev next) \<Longrightarrow> a \<in> set (parsed parse prev)"
  by (simp add: stale_entries_def)

lemma applyRoutes_calls:
  "a \<in> set (parsed ParseRouteLine next)
   \<Longrightarrow> last_wins (Exec ''ip'' a) (Exec ''ip'' ([''route'', ''del''] @ drop 2 a)) (calls (applyRoutes S prev next) h)"
  "a \<in> set (parsed ParseRouteLine prev) - set (parsed ParseRouteLine next)
   \<Longrightarrow> Exec ''ip'' ([''route'', ''del''] @ drop 2 a) \<in> set (calls (applyRoutes S prev next) h)"
proof -
  let ?d = "\<lambda>a. Exec ''ip'' ([''route'', ''del''] @ drop 2 a)"
  let ?w = "parsed ParseRouteLine next" and ?s = "stale_entries ParseRouteLine prev next"
  note calls = calls_two[of "add_route S" "del_route S", OF emits_all_steps(3,4), of ?w ?s, folded apply_eqs]
  assume a: "a \<in> set ?w"
  have "last_wins (Exec ''ip'' a) (?d a) (calls (for_each ?w (add_route S)) h)"
  proof (rule last_wins_for_each[OF a emits_all_steps(3)])
    show "last_wins (Exec ''ip'' a) (?d a) (calls (add_route S a) h)" for h
      unfolding add_route_def
      by (subst calls_bind[where P = "\<lambda>_. True"]) (auto intro!: emits_intros last_wins_single)
    fix b assume "b \<in> set ?w"
    then obtain c where "b = ''route'' # ''replace'' # c" using route_entry by blast
    then show "emits (\<lambda>cl. cl \<noteq> ?d a) (add_route S b)" by (intro emits_steps) simp
  qed
  moreover have "emits (\<lambda>cl. cl \<noteq> ?d a) (for_each ?s (del_route S))"
  proof (intro emits_for_each emits_steps)
    fix b assume b: "b \<in> set ?s"
    then have "b \<noteq> a" using a route_line.stale_set[of prev "next"] by auto
    moreover obtain c c' where "a = ''route'' # ''replace'' # c" "b = ''route'' # ''replace'' # c'"
      using route_entry[OF a] route_entry[OF stale_entry[OF b]] by blast
    ultimately show "?d b \<noteq> ?d a" by simp
  qed
  ultimately show "last_wins (Exec ''ip'' a) (?d a) (calls (applyRoutes S prev next) h)"
    unfolding calls using emits_not_in by (intro last_wins_keep) blast+
next
  fix a assume "a \<in> set (parsed ParseRouteLine prev) - set (parsed ParseRouteLine next)"
  then have "a \<in> set (stale_entries ParseRouteLine prev next)" using route_line.stale_set by simp
  moreover have "Exec ''ip'' ([''route'', ''del''] @ drop 2 a) \<in> set (calls (del_route S a) h)" for h
    unfolding del_route_def by (subst calls_bind[where P = "\<lambda>_. True"]) (auto intro!: emits_intros)
  ultimately show "Exec ''ip'' ([''route'', ''del''] @ drop 2 a) \<in> set (calls (applyRoutes S prev next) h)"
    unfolding apply_eqs calls_two[of "add_route S" "del_route S", OF emits_all_steps(3,4)]
    using in_calls_for_each[OF _ emits_all_steps(4)] by fastforce
qed

lemma applyRules_calls:
  "a \<in> set (parsed ParseRuleLine next)
   \<Longrightarrow> last_wins (Exec ''ip'' ([''rule'', ''add''] @ a)) (Exec ''ip'' ([''rule'', ''del''] @ a)) (calls (applyRules S prev next) h)"
  "a \<in> set (parsed ParseRuleLine prev) - set (parsed ParseRuleLine next)
   \<Longrightarrow> Exec ''ip'' ([''rule'', ''del''] @ a) \<in> set (calls (applyRules S prev next) h)"
proof -
  let ?d = "\<lambda>a. Exec ''ip'' ([''rule'', ''del''] @ a)" and ?a = "\<lambda>a. Exec ''ip'' ([''rule'', ''add''] @ a)"
  let ?w = "parsed ParseRuleLine next" and ?s = "stale_entries ParseRuleLine prev next"
  note calls = calls_two[of "add_rule S" "del_rule S", OF emits_all_steps(1,2), of ?w ?s, folded apply_eqs]
  assume a: "a \<in> set ?w"
  have "last_wins (?a a) (?d a) (calls (for_each ?w (add_rule S)) h)"
  proof (rule last_wins_for_each[OF a emits_all_steps(1)])
    show "last_wins (?a a) (?d a) (calls (add_rule S a) h)" for h
      unfolding add_rule_def
      by (subst calls_bind[where P = "\<lambda>_. True"])
        (auto intro!: emits_intros last_wins_single simp: calls_bind[where P = "\<lambda>_. True"] emits_extras_run emits_return)
    show "emits (\<lambda>cl. cl \<noteq> ?d a) (add_rule S b)" if "b \<noteq> a" for b
      using that by (intro emits_steps) auto
  qed
  moreover have "emits (\<lambda>cl. cl \<noteq> ?d a) (for_each ?s (del_rule S))"
    using a rule_line.stale_set[of prev "next"] by (intro emits_for_each emits_steps) auto
  ultimately show "last_wins (?a a) (?d a) (calls (applyRules S prev next) h)"
    unfolding calls using emits_not_in by (intro last_wins_keep) blast+
next
  fix a assume "a \<in> set (parsed ParseRuleLine prev) - set (parsed ParseRuleLine next)"
  then have "a \<in> set (stale_entries ParseRuleLine prev next)" using rule_line.stale_set by simp
  moreover have "Exec ''ip'' ([''rule'', ''del''] @ a) \<in> set (calls (del_rule S a) h)" for h
    unfolding del_rule_def using calls_retry_first[of "''ip''" "[''rule'', ''del''] @ a" 7 S]
    by (subst calls_bind[where P = "\<lambda>_. True"]) (auto intro!: emits_intros simp: numeral_eq_Suc)
  ultimately show "Exec ''ip'' ([''rule'', ''del''] @ a) \<in> set (calls (applyRules S prev next) h)"
    unfolding apply_eqs calls_two[of "add_rule S" "del_rule S", OF emits_all_steps(1,2)]
    using in_calls_for_each[OF _ emits_all_steps(2)] by fastforce
qed

lemma applyNAT_calls:
  assumes "a \<in> set (parsed ParseNATLine prev) - set (parsed ParseNATLine next)"
  shows "Exec ''iptables'' ([''-t'', ''nat'', ''-D'', ''POSTROUTING''] @ a) \<in> set (calls (applyNAT S prev next) h)"
proof -
  let ?c = "Exec ''iptables'' ([''-t'', ''nat'', ''-D'', ''POSTROUTING''] @ a)"
  let ?s = "stale_entries ParseNATLine prev next"
  have a: "a \<in> set ?s" using assms nat_line.stale_set by simp
  have "?c \<in> set (calls (drop_all S 8 ''nat'' ''POSTROUTING'' ?s) h)" for h
    unfolding drop_all_def
  proof (rule in_calls_for_each[OF a])
    show "emits (\<lambda>_. True) (do { _ \<leftarrow> drop_copies S 8 ''nat'' ''POSTROUTING'' b; State_Monad.return () })" for b
      unfolding drop_copies_def by (intro emits_intros TrueI)
    show "?c \<in> set (calls (do { _ \<leftarrow> drop_copies S 8 ''nat'' ''POSTROUTING'' a; State_Monad.return () }) h)" for h
      unfolding drop_copies_def
      using calls_retry_first[of "''iptables''" "ipt_args ''nat'' ''-D'' ''POSTROUTING'' a" 7 S]
      by (subst calls_bind[where P = "\<lambda>_. True"])
        (auto intro!: emits_intros simp: ipt_args_def numeral_eq_Suc)
  qed
  then show ?thesis
    unfolding apply_eqs
    by (subst calls_bind[where P = "\<lambda>_. True"]) (auto intro!: emits_for_each emits_all_steps)
qed

text \<open>
  C27. A sync of the custom entries, on any host, never leaves a wanted entry deleted: for every
  route and every rule of the new lines, the last command about it is the one that installs it;
  and for every entry that disappeared a deletion is issued.
\<close>
theorem sync_keeps_wanted_entries:
  "(let cs = calls (extras_Reconcile S prev next) h
    in (\<forall>a \<in> set (parsed ParseRouteLine (ex_Routes next)).
           last_wins (Exec ''ip'' a) (Exec ''ip'' ([''route'', ''del''] @ drop 2 a)) cs)
     \<and> (\<forall>a \<in> set (parsed ParseRuleLine (ex_Rules next)).
           last_wins (Exec ''ip'' ([''rule'', ''add''] @ a)) (Exec ''ip'' ([''rule'', ''del''] @ a)) cs)
     \<and> (\<forall>a \<in> set (parsed ParseRouteLine (ex_Routes prev)) - set (parsed ParseRouteLine (ex_Routes next)).
           Exec ''ip'' ([''route'', ''del''] @ drop 2 a) \<in> set cs)
     \<and> (\<forall>a \<in> set (parsed ParseRuleLine (ex_Rules prev)) - set (parsed ParseRuleLine (ex_Rules next)).
           Exec ''ip'' ([''rule'', ''del''] @ a) \<in> set cs)
     \<and> (\<forall>a \<in> set (parsed ParseNATLine (ex_NAT prev)) - set (parsed ParseNATLine (ex_NAT next)).
           Exec ''iptables'' ([''-t'', ''nat'', ''-D'', ''POSTROUTING''] @ a) \<in> set cs))"
proof -
  let ?r = "applyRoutes S (ex_Routes prev) (ex_Routes next)"
  let ?u = "applyRules S (ex_Rules prev) (ex_Rules next)"
  let ?n = "applyNAT S (ex_NAT prev) (ex_NAT next)"
  let ?h = "after ?r h"
  have cs: "calls (extras_Reconcile S prev next) h = calls ?r h @ calls ?u ?h @ calls ?n (after ?u ?h)"
    unfolding extras_Reconcile_def
    by (subst calls_bind[where P = "\<lambda>_. True"])
      (auto intro!: emits_bind emits_all_steps simp: calls_bind[where P = "\<lambda>_. True"] emits_all_steps)
  have route_only: "Exec ''ip'' (''route'' # x) \<notin> set (calls ?u h)"
    "Exec ''ip'' x' \<notin> set (calls ?n h)" for x x' h
    by (rule emits_not_in[OF emits_apply(2)[where P = "\<lambda>cl. cl \<noteq> Exec ''ip'' (''route'' # x)"]]; simp)
      (rule emits_not_in[OF emits_apply(3)[where P = "\<lambda>cl. cl \<noteq> Exec ''ip'' x'"]]; simp)
  have nat: "Exec ''iptables'' ([''-t'', ''nat'', ''-D'', ''POSTROUTING''] @ a) \<in> set (calls ?n h)"
    if "a \<in> set (parsed ParseNATLine (ex_NAT prev)) - set (parsed ParseNATLine (ex_NAT next))" for a h
    by (rule applyNAT_calls[OF that])
  have "last_wins (Exec ''ip'' a) (Exec ''ip'' ([''route'', ''del''] @ drop 2 a)) (calls (extras_Reconcile S prev next) h)"
    if "a \<in> set (parsed ParseRouteLine (ex_Routes next))" for a
    unfolding cs by (rule last_wins_keep[OF applyRoutes_calls(1)[OF that]]) (simp add: route_only)
  moreover have "last_wins (Exec ''ip'' ([''rule'', ''add''] @ a)) (Exec ''ip'' ([''rule'', ''del''] @ a))
      (calls (extras_Reconcile S prev next) h)"
    if "a \<in> set (parsed ParseRuleLine (ex_Rules next))" for a
    unfolding cs
    by (rule last_wins_append, rule last_wins_keep[OF applyRules_calls(1)[OF that]]) (simp add: route_only)
  ultimately show ?thesis
    unfolding Let_def using applyRoutes_calls(2) applyRules_calls(2) nat
    by (intro conjI ballI) (simp_all only: cs set_append Un_iff, blast+)
qed

theorem sync_keeps_wanted_entries_witness:
  "(let cs = calls (extras_Reconcile sim_sys
              \<lparr>ex_Routes = [''d via g''], ex_Rules = [], ex_NAT = []\<rparr>
              \<lparr>ex_Routes = [], ex_Rules = [''from a lookup 7''], ex_NAT = []\<rparr>) (init_host sim_host)
    in last_wins (Exec ''ip'' [''rule'', ''add'', ''from'', ''a'', ''lookup'', ''7''])
                 (Exec ''ip'' [''rule'', ''del'', ''from'', ''a'', ''lookup'', ''7'']) cs
     \<and> Exec ''ip'' [''route'', ''del'', ''d'', ''via'', ''g''] \<in> set cs)"
proof -
  have "parsed ParseRouteLine [''d via g''] = [[''route'', ''replace'', ''d'', ''via'', ''g'']]"
    "parsed ParseRuleLine [''from a lookup 7''] = [[''from'', ''a'', ''lookup'', ''7'']]"
    "parsed ParseRouteLine [] = []"
    by code_simp+
  then show ?thesis
    using sync_keeps_wanted_entries[of sim_sys "\<lparr>ex_Routes = [''d via g''], ex_Rules = [], ex_NAT = []\<rparr>"
        "\<lparr>ex_Routes = [], ex_Rules = [''from a lookup 7''], ex_NAT = []\<rparr>" "init_host sim_host"]
    by (simp add: Let_def)
qed

section \<open>What the entries can make the agent run\<close>

definition extras_call :: "call \<Rightarrow> bool" where
  "extras_call cl \<longleftrightarrow>
     (\<exists>args. cl = Exec ''ip'' args
        \<and> take 2 args \<in> {[''route'', ''replace''], [''route'', ''del''], [''route'', ''show''],
                          [''rule'', ''add''], [''rule'', ''del''], [''rule'', ''show'']})
   \<or> (\<exists>act ps. cl = Exec ''iptables'' ([''-t'', ''nat'', act, ''POSTROUTING''] @ flat ps)
        \<and> act \<in> {''-C'', ''-A'', ''-D''} \<and> ps \<noteq> [] \<and> list_all nat_pair ps)"

lemma nat_entry_call:
  assumes "ParseNATLine l = Inr a" "act \<in> {''-C'', ''-A'', ''-D''}"
  shows "extras_call (Exec ''iptables'' ([''-t'', ''nat'', act, ''POSTROUTING''] @ a))"
proof -
  from assms(1) obtain ps where "a = flat ps" "ps \<noteq> []" "list_all nat_pair ps"
    by (auto simp: ParseNATLine_Inr nat_fields_None flat_eq_Nil)
  with assms(2) show ?thesis by (auto simp: extras_call_def)
qed

lemma parsed_iff: "a \<in> set (parsed parse lines) \<Longrightarrow> \<exists>l. parse l = Inr a"
  by (auto simp: parsed_def split: sum.splits)

lemma emits_extras_Reconcile: "emits extras_call (extras_Reconcile S prev next)"
proof -
  have nat: "extras_call (Exec ''iptables'' ([''-t'', ''nat'', act, ''POSTROUTING''] @ a))"
    if "a \<in> set (parsed ParseNATLine lines)" "act \<in> {''-C'', ''-A'', ''-D''}" for a act lines
    using parsed_iff[OF that(1)] nat_entry_call that(2) by blast
  have route: "extras_call (Exec ''ip'' a)" if "a \<in> set (parsed ParseRouteLine lines)" for a lines
    using route_entry[OF that] by (auto simp: extras_call_def)
  have "emits extras_call (applyRoutes S p q)" for p q
    by (rule emits_apply(1)) (erule route, simp add: extras_call_def)
  moreover have "emits extras_call (applyRules S p q)" for p q
    by (rule emits_apply(2)) (simp_all add: extras_call_def)
  moreover have "emits extras_call (applyNAT S p q)" for p q
    by (rule emits_apply(3)) (auto intro: nat dest: stale_entry simp del: append_Cons)
  ultimately show ?thesis unfolding extras_Reconcile_def by (intro emits_bind)
qed

lemma extras_Ensure_eq:
  "extras_Ensure S e =
     (if IsZero e then State_Monad.return ()
      else do {
        for_each (normalizeLines (ex_Routes e)) (\<lambda>line. case ParseRouteLine line of
            Inl err \<Rightarrow> State_Monad.return ()
          | Inr args \<Rightarrow> do {
              present \<leftarrow> routePresent S line;
              if present then State_Monad.return () else add_route S args });
        for_each (parsed ParseRuleLine (ex_Rules e)) (\<lambda>args. do {
              present \<leftarrow> rulePresent S args;
              if present then State_Monad.return ()
              else do { _ \<leftarrow> extras_run S ''ip'' ([''rule'', ''add''] @ args);
                        State_Monad.return () } });
        for_each (parsed ParseNATLine (ex_NAT e)) (nat_ensure S) })"
  unfolding extras_Ensure_def for_each_parsed add_route_def by simp

lemma emits_routePresent: "emits extras_call (routePresent S line)"
  unfolding routePresent_def by (intro emits_intros) (simp add: extras_call_def)

lemma emits_rulePresent: "emits extras_call (rulePresent S args)"
  unfolding rulePresent_def by (intro emits_intros) (simp add: extras_call_def)

lemma emits_extras_Ensure: "emits extras_call (extras_Ensure S e)"
proof -
  have nat: "extras_call (Exec ''iptables'' ([''-t'', ''nat'', act, ''POSTROUTING''] @ a))"
    if "a \<in> set (parsed ParseNATLine lines)" "act \<in> {''-C'', ''-A''}" for a act lines
    using parsed_iff[OF that(1)] nat_entry_call that(2) by blast
  have route: "extras_call (Exec ''ip'' a)" if "ParseRouteLine l = Inr a" for a l
    using that by (auto simp: extras_call_def ParseRouteLine_Inr)
  have rule: "extras_call (Exec ''ip'' ([''rule'', ''add''] @ a))" for a
    by (simp add: extras_call_def)
  show ?thesis
    unfolding extras_Ensure_eq
    by (intro emits_if emits_bind emits_for_each emits_sum emits_return emits_steps emits_nat_ensure
        emits_extras_run emits_routePresent emits_rulePresent route rule nat)
qed

text \<open>
  C13. Whatever the operator writes in the panel, on any host, applying and watching the custom
  entries runs only \<open>ip route\<close>, \<open>ip rule\<close> and iptables commands on the POSTROUTING chain of the nat
  table whose arguments are pairs of an allowed option and a value; no other program, table, chain
  or iptables command can be reached through an entry.
\<close>
theorem extras_are_confined:
  "list_all extras_call (calls (extras_Reconcile S prev next) h)
   \<and> list_all extras_call (calls (extras_Ensure S e) h')"
  by (intro conjI emits_calls emits_extras_Reconcile emits_extras_Ensure)

section \<open>The watchdog\<close>





text \<open>
  \<open>routePresent\<close> does not look at the table of a route: two routes that differ in the table
  only get the same answer on every host, so the watchdog takes a route that was lost from a
  policy table for present when any other table holds it.
\<close>
theorem routePresent_ignores_table:
  assumes "ParseRouteLine l = Inr [''route'', ''replace'', d, ''via'', g, ''table'', t]"
    and "ParseRouteLine l' = Inr [''route'', ''replace'', d, ''via'', g, ''table'', t']
       \<or> ParseRouteLine l' = Inr [''route'', ''replace'', d, ''via'', g]"
  shows "routePresent S l = routePresent S l'"
  using assms by (auto simp: routePresent_def cong: if_cong)

theorem routePresent_ignores_table_witness:
  "routePresent sim_sys ''d via g table 7'' = (routePresent sim_sys ''d via g'' :: (sim, unit, bool) prog)"
proof (rule routePresent_ignores_table)
  show "ParseRouteLine ''d via g table 7'' = Inr [''route'', ''replace'', ''d'', ''via'', ''g'', ''table'', ''7'']"
    by code_simp
  have "ParseRouteLine ''d via g'' = Inr [''route'', ''replace'', ''d'', ''via'', ''g'']" by code_simp
  then show "ParseRouteLine ''d via g'' = Inr [''route'', ''replace'', ''d'', ''via'', ''g'', ''table'', t']
      \<or> ParseRouteLine ''d via g'' = Inr [''route'', ''replace'', ''d'', ''via'', ''g'']" for t'
    by simp
qed

end
