(* ===== verification/GoPaths.thy ===== *)
theory GoPaths
  imports GoStrings
begin

text \<open>
  The parts of Go's \<open>path/filepath\<close> (on Unix) the agent uses: \<open>Clean\<close>, \<open>Dir\<close>, \<open>Base\<close>, \<open>IsAbs\<close>.
\<close>

definition slash :: char where "slash = CHR ''/''"

text \<open>The components of a path, processed from the left; the second argument is the output, reversed.\<close>

fun clean_comps :: "bool \<Rightarrow> string list \<Rightarrow> string list \<Rightarrow> string list" where
  "clean_comps rooted [] out = rev out"
| "clean_comps rooted (c # cs) out =
     (if c = [] \<or> c = ''.'' then clean_comps rooted cs out
      else if c = ''..'' then
        (if out \<noteq> [] \<and> hd out \<noteq> ''..'' then clean_comps rooted cs (tl out)
         else if rooted then clean_comps rooted cs out
         else clean_comps rooted cs (''..'' # out))
      else clean_comps rooted cs (c # out))"

definition Clean :: "string \<Rightarrow> string" where
  "Clean path =
     (let rooted = (path \<noteq> [] \<and> hd path = slash);
          out = (if rooted then [slash] else []) @ Join (clean_comps rooted (Split path slash) []) [slash]
      in if out = [] then ''.'' else out)"

definition Dir :: "string \<Rightarrow> string" where
  "Dir path = Clean (rev (dropWhile (\<lambda>c. c \<noteq> slash) (rev path)))"

definition Base :: "string \<Rightarrow> string" where
  "Base path =
     (if path = [] then ''.''
      else (let p = rev (dropWhile (\<lambda>c. c = slash) (rev path));
                b = rev (takeWhile (\<lambda>c. c \<noteq> slash) (rev p))
            in if b = [] then [slash] else b))"

definition IsAbs :: "string \<Rightarrow> bool" where
  "IsAbs path \<longleftrightarrow> path \<noteq> [] \<and> hd path = slash"

lemma Dir_examples:
  "Dir ''/usr/local/bin/exnode'' = ''/usr/local/bin''" "Dir ''exnode'' = ''.''" "Dir ''/exnode'' = ''/''"
  "Base ''sing-box-1.2/sing-box'' = ''sing-box''" "Base ''a/b/'' = ''b''" "Clean ''/a/../b//./c'' = ''/b/c''"
  by code_simp+

lemma Base_no_slash: "b = Base path \<Longrightarrow> b \<noteq> [slash] \<Longrightarrow> slash \<notin> set b"
  by (auto simp: Base_def Let_def slash_def dest: set_takeWhileD split: if_splits)

end
