(* ===== verification/SelfUpdate.thy ===== *)
theory SelfUpdate
  imports Pacing GoPaths
begin

text \<open>
  \<open>src/selfupdate/selfupdate.go\<close>: the agent replaces its own binary when the panel orders a newer
  version, and adopts a newer binary it finds on disk. This theory holds the definitions, one per Go
  function; \<open>SelfUpdateFacts\<close> what they guarantee.

  \<open>runtime.GOOS\<close> and \<open>runtime.GOARCH\<close> are fixed when the agent is built: arguments \<open>goos\<close> and
  \<open>goarch\<close>. A call that replaces the process image does not return; its outcome is \<open>Replaced\<close>, and
  nothing the old image would have done afterwards (deferred calls included) happens. Log lines are
  left out. An \<open>int\<close> is 64 bits wide.
\<close>

section \<open>Versions\<close>

type_synonym int64 = "64 word"

text \<open>The digits at the head of a version component; a byte outside \<open>0..9\<close> ends the number.\<close>

fun part_value :: "int64 \<Rightarrow> string \<Rightarrow> int64" where
  "part_value n [] = n"
| "part_value n (r # rs) =
     (if of_char r < (48 :: nat) \<or> of_char r > (57 :: nat) then n
      else part_value (n * 10 + of_nat (of_char r - 48)) rs)"

definition versionParts :: "string \<Rightarrow> int64 list" where
  "versionParts ver =
     (let v = TrimSpace (TrimPrefix (TrimSpace ver) ''v'')
      in if v = [] then [] else map (part_value 0) (Split v (CHR ''.'')))"

text \<open>The loop of \<open>newerVersion\<close>: a missing component counts as 0.\<close>

fun newer_parts :: "int64 list \<Rightarrow> int64 list \<Rightarrow> bool" where
  "newer_parts [] [] = False"
| "newer_parts (x # xs) [] = (if x \<noteq> 0 then 0 <s x else newer_parts xs [])"
| "newer_parts [] (y # ys) = (if 0 \<noteq> y then y <s 0 else newer_parts [] ys)"
| "newer_parts (x # xs) (y # ys) = (if x \<noteq> y then y <s x else newer_parts xs ys)"

definition newerVersion :: "string \<Rightarrow> string \<Rightarrow> bool" where
  "newerVersion a b = newer_parts (versionParts a) (versionParts b)"

definition firstLine :: "string \<Rightarrow> string" where
  "firstLine s = TrimSpace (takeWhile (\<lambda>c. c \<noteq> CHR 0x0A) s)"

section \<open>Outcomes and errors\<close>

datatype outcome = Returned go_error | Replaced

definition PendingError :: "('w, 'm, string) prog" where
  "PendingError = do { h \<leftarrow> State_Monad.get; State_Monad.return (su_upgradeErr h) }"

definition ClearError :: "('w, 'm, unit) prog" where
  "ClearError = State_Monad.update (\<lambda>h. h\<lparr>su_upgradeErr := []\<rparr>)"

definition setUpgradeError :: "string \<Rightarrow> ('w, 'm, unit) prog" where
  "setUpgradeError msg = State_Monad.update (\<lambda>h. h\<lparr>su_upgradeErr := msg\<rparr>)"

section \<open>Adopting the binary on disk\<close>

definition adopt :: "'w sys \<Rightarrow> string \<Rightarrow> string \<Rightarrow> ('w, 'm, outcome) prog" where
  "adopt S exe current = do {
     r \<leftarrow> do_call S (Exec exe [''-version'']);
     (case rerr r of
        Some e \<Rightarrow> State_Monad.return (Returned nil)
      | None \<Rightarrow>
          (let fileVersion = firstLine (rout r)
           in if fileVersion = [] \<or> fileVersion = current \<or> \<not> newerVersion fileVersion current
              then State_Monad.return (Returned nil)
              else do {
                x \<leftarrow> do_call S (ReExec exe);
                State_Monad.return (if rerr x = nil then Replaced else Returned nil) })) }"

definition Adopt :: "'w sys \<Rightarrow> string \<Rightarrow> ('w, 'm, outcome) prog" where
  "Adopt S current = do {
     r \<leftarrow> do_call S Executable;
     if rerr r \<noteq> nil \<or> rout r = [] then State_Monad.return (Returned nil)
     else adopt S (rout r) current }"

definition fileStamp :: "'w sys \<Rightarrow> string \<Rightarrow> ('w, 'm, string) prog" where
  "fileStamp S path = do {
     r \<leftarrow> do_call S (Stat path);
     State_Monad.return
       (if rerr r \<noteq> nil then [] else Itoa (rnum r) @ ''-'' @ Itoa (rtime r)) }"

text \<open>
  \<open>Watch\<close> until its context is cancelled: one round per tick of its timer, here \<open>n\<close> of them. The
  outcome is \<open>Replaced\<close> when a round re-executed the process.
\<close>

fun watch_ticks :: "'w sys \<Rightarrow> string \<Rightarrow> string \<Rightarrow> nat \<Rightarrow> string \<Rightarrow> ('w, 'm, outcome) prog" where
  "watch_ticks S exe current 0 stamp = State_Monad.return (Returned nil)"
| "watch_ticks S exe current (Suc n) stamp = do {
     now_stamp \<leftarrow> fileStamp S exe;
     if now_stamp = stamp then watch_ticks S exe current n stamp
     else do {
       a \<leftarrow> adopt S exe current;
       (case a of Replaced \<Rightarrow> State_Monad.return Replaced
        | Returned e \<Rightarrow> watch_ticks S exe current n now_stamp) } }"

definition Watch :: "'w sys \<Rightarrow> string \<Rightarrow> nat \<Rightarrow> ('w, 'm, outcome) prog" where
  "Watch S current n = do {
     r \<leftarrow> do_call S Executable;
     if rerr r \<noteq> nil \<or> rout r = [] then State_Monad.return (Returned nil)
     else do {
       stamp \<leftarrow> fileStamp S (rout r);
       watch_ticks S (rout r) current n stamp } }"

section \<open>Downloading and installing\<close>

definition minBinarySize :: int where "minBinarySize = 1048576"

definition elf_magic :: string where
  "elf_magic = [CHR 0x7F, CHR ''E'', CHR ''L'', CHR ''F'']"

definition checkExecutable :: "'w sys \<Rightarrow> string \<Rightarrow> string \<Rightarrow> ('w, 'm, go_error) prog" where
  "checkExecutable S goos path = do {
     f \<leftarrow> do_call S (OpenFile path);
     (case rerr f of
        Some e \<Rightarrow> State_Monad.return (Some e)
      | None \<Rightarrow> do {
          r \<leftarrow> do_call S (ReadHead path 4);
          State_Monad.return
            (case rerr r of
               Some e \<Rightarrow> Some (''read download: '' @ e)
             | None \<Rightarrow> if goos = ''linux'' \<and> rout r \<noteq> elf_magic then Some ''download is not an ELF binary''
                       else nil) }) }"

definition discard :: "'w sys \<Rightarrow> string \<Rightarrow> string \<Rightarrow> ('w, 'm, string go_result) prog" where
  "discard S path e = do { _ \<leftarrow> do_call S (RemoveFile path); State_Monad.return (Inl e) }"

definition download :: "'w sys \<Rightarrow> string \<Rightarrow> string \<Rightarrow> string \<Rightarrow> ('w, 'm, string go_result) prog" where
  "download S goos url dir = do {
     resp \<leftarrow> do_call S (HttpGet url);
     (case rerr resp of
        Some e \<Rightarrow> State_Monad.return (Inl (''download: '' @ e))
      | None \<Rightarrow>
          if rnum resp \<noteq> 200 then State_Monad.return (Inl (''download: status '' @ Itoa (rnum resp)))
          else do {
            f \<leftarrow> do_call S (CreateTemp dir ''.exnode-download-*'');
            (case rerr f of
               Some e \<Rightarrow> State_Monad.return (Inl (''create temp file: '' @ e))
             | None \<Rightarrow> (let path = rout f in do {
                 w \<leftarrow> do_call S (CopyBody path (minBinarySize * 200));
                 (case rerr w of
                    Some e \<Rightarrow> discard S path (''write download: '' @ e)
                  | None \<Rightarrow>
                      if rnum w < minBinarySize
                      then discard S path (''download too small ('' @ Itoa (rnum w) @ '' bytes)'')
                      else do {
                        e \<leftarrow> checkExecutable S goos path;
                        (case e of Some m \<Rightarrow> discard S path m | None \<Rightarrow> State_Monad.return (Inr path)) }) })) }) }"

definition assetURL :: "'w sys \<Rightarrow> string \<Rightarrow> string \<Rightarrow> string \<Rightarrow> ('w, 'm, string) prog" where
  "assetURL S goos goarch ver = do {
     r \<leftarrow> do_call S (Getenv ''EXNODE_REPO'');
     (let repo = Trim (TrimSpace (rout r)) (CHR ''/'');
          repo' = (if repo = [] then ''nexpool/exnode'' else repo)
      in State_Monad.return
           (''https://github.com/'' @ repo' @ ''/releases/download/'' @ ver @ ''/exnode-'' @ goos
              @ ''-'' @ goarch)) }"

text \<open>The part of \<open>selfUpgrade\<close> after the download, whose error returns run the deferred removal.\<close>

definition install_download :: "'w sys \<Rightarrow> string \<Rightarrow> string \<Rightarrow> ('w, 'm, outcome) prog" where
  "install_download S exe tmp = do {
     c \<leftarrow> do_call S (Chmod tmp 493);
     (case rerr c of
        Some e \<Rightarrow> State_Monad.return (Returned (Some (''chmod download: '' @ e)))
      | None \<Rightarrow> do {
          v \<leftarrow> do_call S (Exec tmp [''-version'']);
          (case rerr v of
             Some e \<Rightarrow> State_Monad.return (Returned (Some
                 (''downloaded binary does not run: '' @ e @ '' ('' @ TrimSpace (rcomb v) @ '')'')))
           | None \<Rightarrow> do {
               m \<leftarrow> do_call S (Rename tmp exe);
               (case rerr m of
                  Some e \<Rightarrow> State_Monad.return (Returned (Some (''replace '' @ exe @ '': '' @ e)))
                | None \<Rightarrow> do {
                    x \<leftarrow> do_call S (ReExec exe);
                    State_Monad.return
                      (case rerr x of
                         Some e \<Rightarrow> Returned (Some (''exec '' @ exe @ '': '' @ e))
                       | None \<Rightarrow> Replaced) }) }) }) }"

record order =
  ord_Version :: string
  ord_URL :: string

definition selfUpgrade :: "'w sys \<Rightarrow> string \<Rightarrow> string \<Rightarrow> order \<Rightarrow> ('w, 'm, outcome) prog" where
  "selfUpgrade S goos goarch order = do {
     r \<leftarrow> do_call S Executable;
     (case rerr r of
        Some e \<Rightarrow> State_Monad.return (Returned (Some (''locate own binary: '' @ e)))
      | None \<Rightarrow> do {
          url \<leftarrow> (if TrimSpace (ord_URL order) = [] then assetURL S goos goarch (ord_Version order)
                  else State_Monad.return (TrimSpace (ord_URL order)));
          d \<leftarrow> download S goos url (Dir (rout r));
          (case d of
             Inl e \<Rightarrow> State_Monad.return (Returned (Some e))
           | Inr tmp \<Rightarrow> do {
               o' \<leftarrow> install_download S (rout r) tmp;
               (case o' of
                  Replaced \<Rightarrow> State_Monad.return Replaced
                | Returned e \<Rightarrow> do {
                    _ \<leftarrow> do_call S (RemoveFile tmp);
                    State_Monad.return (Returned e) }) }) }) }"

section \<open>Acting on an order\<close>

definition su_retryAfter :: int where "su_retryAfter = 5 * 60 * 1000000000"

text \<open>
  The critical section under \<open>attemptMu\<close>, as a function of the version, the clock readings and
  \<open>(attemptVersion, lastAttempt)\<close>; the result says whether the attempt may run.
\<close>

definition attempt_gate ::
  "string \<Rightarrow> readings \<Rightarrow> string \<times> int option \<Rightarrow> bool \<times> (string \<times> int option)" where
  "attempt_gate ver t s =
     (case (t, s) of ((since, stamp), (attempted, at)) \<Rightarrow>
        (let at' = (if ver \<noteq> attempted then None else at);
             tooSoon = (case at' of None \<Rightarrow> False | Some a \<Rightarrow> since - a < su_retryAfter)
         in (\<not> tooSoon, (ver, if tooSoon then at' else Some stamp))))"

text \<open>The same section as it runs, reading the clock where the code does.\<close>

definition enter_attempt :: "'w sys \<Rightarrow> string \<Rightarrow> ('w, 'm, bool) prog" where
  "enter_attempt S ver = do {
     h \<leftarrow> State_Monad.get;
     (if ver \<noteq> su_attemptVersion h
      then State_Monad.update (\<lambda>h. h\<lparr>su_attemptVersion := ver, su_lastAttempt := None\<rparr>)
      else State_Monad.return ());
     h' \<leftarrow> State_Monad.get;
     tooSoon \<leftarrow> (case su_lastAttempt h' of
         None \<Rightarrow> State_Monad.return False
       | Some a \<Rightarrow> do { r \<leftarrow> do_call S Now; State_Monad.return (rnum r - a < su_retryAfter) });
     if tooSoon then State_Monad.return False
     else do {
       r \<leftarrow> do_call S Now;
       State_Monad.update (\<lambda>h. h\<lparr>su_lastAttempt := Some (rnum r)\<rparr>);
       State_Monad.return True } }"

definition Maybe :: "'w sys \<Rightarrow> string \<Rightarrow> string \<Rightarrow> order option \<Rightarrow> string \<Rightarrow> ('w, 'm, outcome) prog" where
  "Maybe S goos goarch order current =
     (case order of
        None \<Rightarrow> State_Monad.return (Returned nil)
      | Some o' \<Rightarrow>
          if TrimSpace (ord_Version o') = [] \<or> \<not> newerVersion (ord_Version o') current
          then State_Monad.return (Returned nil)
          else if TrimSpace (ord_URL o') = [] then do {
            setUpgradeError (''upgrade to '' @ ord_Version o' @ '': the panel sent no download URL'');
            State_Monad.return (Returned nil) }
          else do {
            h \<leftarrow> State_Monad.get;
            if su_upgrading h then State_Monad.return (Returned nil)
            else do {
              State_Monad.update (\<lambda>h. h\<lparr>su_upgrading := True\<rparr>);
              go \<leftarrow> enter_attempt S (ord_Version o');
              if \<not> go then do {
                State_Monad.update (\<lambda>h. h\<lparr>su_upgrading := False\<rparr>);
                State_Monad.return (Returned nil) }
              else do {
                u \<leftarrow> selfUpgrade S goos goarch o';
                (case u of
                   Replaced \<Rightarrow> State_Monad.return Replaced
                 | Returned e \<Rightarrow> do {
                     (case e of None \<Rightarrow> State_Monad.return ()
                      | Some m \<Rightarrow> setUpgradeError (''upgrade to '' @ ord_Version o' @ '' failed: '' @ m));
                     State_Monad.update (\<lambda>h. h\<lparr>su_upgrading := False\<rparr>);
                     State_Monad.return (Returned nil) }) } } })"

end
