(* ===== verification/SelfUpdateVersions.thy ===== *)
theory SelfUpdateVersions
  imports SelfUpdate
begin

text \<open>
  Version comparison: \<open>newerVersion\<close> is a strict weak order on all strings, so upgrades can never
  go in circles, and on release tags it is the order of their numbers.
\<close>

section \<open>Comparison by components\<close>

definition component :: "'a::zero list \<Rightarrow> nat \<Rightarrow> 'a" where
  "component xs i = (if i < length xs then xs ! i else 0)"

lemma component_simps [simp]:
  "component [] i = 0" "component (x # xs) 0 = x" "component (x # xs) (Suc i) = component xs i"
  by (simp_all add: component_def)

lemma first_difference_shift:
  "(\<exists>i. P i \<and> (\<forall>j < i. Q j)) \<longleftrightarrow> P 0 \<or> (Q 0 \<and> (\<exists>i. P (Suc i) \<and> (\<forall>j < i. Q (Suc j))))"
proof
  assume "\<exists>i. P i \<and> (\<forall>j < i. Q j)"
  then obtain i where i: "P i" "\<forall>j < i. Q j" by blast
  then show "P 0 \<or> (Q 0 \<and> (\<exists>i. P (Suc i) \<and> (\<forall>j < i. Q (Suc j))))"
    by (cases i) auto
next
  assume "P 0 \<or> (Q 0 \<and> (\<exists>i. P (Suc i) \<and> (\<forall>j < i. Q (Suc j))))"
  then show "\<exists>i. P i \<and> (\<forall>j < i. Q j)"
  proof
    assume "Q 0 \<and> (\<exists>i. P (Suc i) \<and> (\<forall>j < i. Q (Suc j)))"
    then obtain i where "Q 0" "P (Suc i)" "\<forall>j < i. Q (Suc j)" by blast
    then show ?thesis by (intro exI[of _ "Suc i"]) (auto simp: less_Suc_eq_0_disj)
  qed auto
qed

lemma newer_parts_iff:
  "newer_parts xs ys \<longleftrightarrow>
     (\<exists>i. component ys i <s component xs i \<and> (\<forall>j < i. component xs j = component ys j))"
proof (induction xs ys rule: newer_parts.induct)
  case 1
  show ?case by simp
next
  case (2 x xs)
  then show ?case
    using first_difference_shift[of "\<lambda>i. component [] i <s component (x # xs) i"
        "\<lambda>j. component (x # xs) j = component [] j"] by auto
next
  case (3 y ys)
  then show ?case
    using first_difference_shift[of "\<lambda>i. component (y # ys) i <s component [] i"
        "\<lambda>j. component [] j = component (y # ys) j"] by auto
next
  case (4 x xs y ys)
  then show ?case
    using first_difference_shift[of "\<lambda>i. component (y # ys) i <s component (x # xs) i"
        "\<lambda>j. component (x # xs) j = component (y # ys) j"] by auto
qed

text \<open>Two versions of the same rank: the same components, up to missing zeros.\<close>

definition same_rank :: "string \<Rightarrow> string \<Rightarrow> bool" where
  "same_rank a b \<longleftrightarrow> component (versionParts a) = component (versionParts b)"

lemma word_sless_alt': "a <s b \<longleftrightarrow> sint a < sint b" for a b :: "'a::len word"
  by (simp add: word_sless_alt)

lemma sint_inj: "sint a = sint b \<Longrightarrow> a = b"
  by (rule signed_word_eqI)

lemma newer_parts_trans:
  assumes "newer_parts xs ys" "newer_parts ys zs"
  shows "newer_parts xs zs"
proof -
  obtain i where i: "component ys i <s component xs i" "\<forall>k < i. component xs k = component ys k"
    using assms(1) by (auto simp: newer_parts_iff)
  obtain j where j: "component zs j <s component ys j" "\<forall>k < j. component ys k = component zs k"
    using assms(2) by (auto simp: newer_parts_iff)
  have "component zs (min i j) <s component xs (min i j)"
    using i j by (cases i j rule: linorder_cases) (auto simp: word_sless_alt')
  moreover have "\<forall>k < min i j. component xs k = component zs k" using i(2) j(2) by simp
  ultimately show ?thesis by (auto simp: newer_parts_iff)
qed

lemma newer_parts_total:
  "newer_parts xs ys \<or> newer_parts ys xs \<or> component xs = component ys"
proof (cases "component xs = component ys")
  case False
  then obtain k where "component xs k \<noteq> component ys k" by auto
  then obtain i where i: "component xs i \<noteq> component ys i" "\<forall>j < i. component xs j = component ys j"
    using exists_least_iff[of "\<lambda>k. component xs k \<noteq> component ys k"] by auto
  then have "component ys i <s component xs i \<or> component xs i <s component ys i"
    unfolding word_sless_alt' using sint_inj[of "component xs i" "component ys i"] by linarith
  with i show ?thesis unfolding newer_parts_iff by metis
qed simp

lemma newer_parts_irrefl: "component xs = component ys \<Longrightarrow> \<not> newer_parts xs ys"
  by (auto simp: newer_parts_iff)

text \<open>
  C32. On all strings, well-formed or not, \<open>newerVersion\<close> is a strict weak order: irreflexive,
  asymmetric and transitive, and two versions neither of which is newer have the same components
  up to missing zeros. A chain of upgrades can therefore never come back to a version it left.
\<close>
theorem newerVersion_strict_order:
  "\<not> newerVersion a a
   \<and> (newerVersion a b \<longrightarrow> \<not> newerVersion b a)
   \<and> (newerVersion a b \<and> newerVersion b c \<longrightarrow> newerVersion a c)
   \<and> ((\<not> newerVersion a b \<and> \<not> newerVersion b a) \<longleftrightarrow> same_rank a b)"
proof -
  have irr: "\<not> newerVersion x x" for x by (simp add: newerVersion_def newer_parts_irrefl)
  have trans: "newerVersion x y \<Longrightarrow> newerVersion y z \<Longrightarrow> newerVersion x z" for x y z
    unfolding newerVersion_def by (rule newer_parts_trans)
  have "(\<not> newerVersion a b \<and> \<not> newerVersion b a) \<longleftrightarrow> same_rank a b"
    using newer_parts_total[of "versionParts a" "versionParts b"] newer_parts_irrefl
    by (auto simp: newerVersion_def same_rank_def)
  with irr trans show ?thesis by blast
qed

theorem newerVersion_strict_order_witness:
  "newerVersion ''v1.10'' ''1.9.3'' \<and> \<not> newerVersion ''1.9.3'' ''v1.10''"
proof -
  have "newerVersion ''v1.10'' ''1.9.3''" by code_simp
  with newerVersion_strict_order[of "''v1.10''" "''1.9.3''"] show ?thesis by blast
qed

section \<open>Release tags\<close>

definition release_tag :: "nat list \<Rightarrow> string" where
  "release_tag ns = ''v'' @ Join (map nat_str ns) ''.''"

definition is_digit :: "char \<Rightarrow> bool" where
  "is_digit c \<longleftrightarrow> 48 \<le> (of_char c :: nat) \<and> of_char c \<le> (57 :: nat)"

lemma nat_str_digits: "list_all is_digit (nat_str n)"
proof (induction n rule: nat_str.induct)
  case (1 n)
  have "is_digit (digit_char d)" if "d < 10" for d
    using that by (simp add: is_digit_def digit_of_char)
  with 1 show ?case by (subst nat_str.simps) auto
qed

lemma part_value_digits:
  "list_all is_digit s \<Longrightarrow> part_value (of_nat n) s = of_nat (dec_val n s)"
proof (induction s arbitrary: n)
  case (Cons c s)
  have "of_nat n * 10 + of_nat (of_char c - 48) = (of_nat (10 * n + (of_char c - 48)) :: int64)" by simp
  moreover have "\<not> (of_char c < (48 :: nat) \<or> of_char c > (57 :: nat))"
    using Cons.prems by (auto simp: is_digit_def)
  ultimately show ?case
    using Cons by (simp only: part_value.simps dec_val.simps if_False list.pred_inject)
qed simp

lemma part_value_nat_str: "part_value 0 (nat_str n) = of_nat n"
  using part_value_digits[OF nat_str_digits, of 0 n] by (simp add: dec_val_nat_str)

lemma digit_neq: "is_digit c \<Longrightarrow> c \<noteq> CHR ''v'' \<and> c \<noteq> CHR ''.''"
  by (auto simp: is_digit_def)

lemma tag_chars: "c \<in> set (Join (map nat_str ns) ''.'') \<Longrightarrow> is_digit c \<or> c = CHR ''.''"
proof (induction ns)
  case (Cons n ns)
  then show ?case
    using nat_str_digits[of n] by (auto simp: Join_Cons list_all_iff split: if_splits)
qed simp

lemma plain_tag_char: "is_digit c \<or> c = CHR ''.'' \<Longrightarrow> plain c"
  by (auto simp: is_digit_def plain_def space_runes_def)

lemma versionParts_tag:
  assumes "ns \<noteq> []"
  shows "versionParts (release_tag ns) = map of_nat ns"
proof -
  let ?s = "Join (map nat_str ns) ''.''"
  have plain: "list_all plain ?s" using tag_chars plain_tag_char by (auto simp: list_all_iff)
  moreover have "plain (CHR ''v'')" by (simp add: plain_def space_runes_def)
  ultimately have "TrimSpace (''v'' @ ?s) = ''v'' @ ?s" by (intro TrimSpace_plain) simp
  moreover have "TrimSpace ?s = ?s" using plain by (rule TrimSpace_plain)
  moreover have "?s \<noteq> []" using assms by (cases ns) (auto simp: Join_Cons)
  moreover have "Split ?s (CHR ''.'') = map nat_str ns"
  proof (rule Split_Join)
    show "CHR ''.'' \<notin> set x" if "x \<in> set (map nat_str ns)" for x
      using that nat_str_digits digit_neq by (auto simp: list_all_iff)
  qed (use assms in simp)
  ultimately show ?thesis
    by (simp add: versionParts_def release_tag_def TrimPrefix_def Let_def part_value_nat_str comp_def)
qed

lemma component_of_nat: "component (map of_nat ns :: int64 list) i = of_nat (component ns i)"
  by (simp add: component_def)

lemma sless_of_nat:
  "m < 2 ^ 63 \<Longrightarrow> n < 2 ^ 63 \<Longrightarrow> (of_nat m :: int64) <s of_nat n \<longleftrightarrow> m < n"
  by (simp add: word_sless_alt signed_of_nat signed_take_bit_int_eq_self)

text \<open>
  For release tags \<open>vN1.N2...\<close> with components below \<open>2 ^ 63\<close>, \<open>versionParts\<close> reads back the
  numbers of the tag and \<open>newerVersion\<close> is their lexicographic order, a missing component counting
  as 0: so v1.10 is newer than v1.9.3, and v1.2 and v1.2.0 are the same.
\<close>
theorem release_tags_ordered:
  assumes "ns \<noteq> []" and "ms \<noteq> []" and "\<forall>n \<in> set (ns @ ms). n < 2 ^ 63"
  shows "versionParts (release_tag ns) = map of_nat ns
    \<and> (newerVersion (release_tag ns) (release_tag ms) \<longleftrightarrow>
        (\<exists>i. component ms i < component ns i \<and> (\<forall>j < i. component ns j = component ms j)))"
proof -
  have bound: "component ns i < 2 ^ 63 \<and> component ms i < 2 ^ 63" for i
    using assms(3) by (auto simp: component_def)
  have "(of_nat (component ns j) :: int64) = of_nat (component ms j) \<longleftrightarrow> component ns j = component ms j" for j
    using bound[of j] by (simp add: word_of_nat_eq_iff take_bit_nat_eq_self)
  then show ?thesis
    using bound by (simp add: newerVersion_def versionParts_tag assms(1,2) newer_parts_iff
        component_of_nat sless_of_nat)
qed

theorem release_tags_ordered_witness:
  "release_tag [1, 10] = ''v1.10'' \<and> newerVersion (release_tag [1, 10]) (release_tag [1, 9, 3])"
proof -
  have "component [1, 9, 3 :: nat] 1 < component [1, 10] 1 \<and> (\<forall>j < 1. component [1, 10 :: nat] j = component [1, 9, 3] j)"
    by (simp add: component_def)
  then have "\<exists>i. component [1, 9, 3 :: nat] i < component [1, 10] i
      \<and> (\<forall>j < i. component [1, 10 :: nat] j = component [1, 9, 3] j)" by blast
  moreover have "release_tag [1, 10] = ''v1.10''" by code_simp
  ultimately show ?thesis using release_tags_ordered[of "[1, 10]" "[1, 9, 3]"] by simp
qed

end
