(* ===== verification/SelfUpdateFacts.thy ===== *)
theory SelfUpdateFacts
  imports SelfUpdate Netfilter
begin

text \<open>
  What an upgrade guarantees: attempts are paced, a download replaces the working binary only after
  every check passed, a failed attempt leaves its error, and among concurrent controllers at most
  one upgrades at a time.
\<close>

section \<open>Attempts are paced\<close>

interpretation upgrade: paced "\<lambda>(_ :: unit). attempt_gate ver"
    "\<lambda>s _. if fst s = ver then snd s else None" su_retryAfter
    "\<lambda>h. (su_attemptVersion h, su_lastAttempt h)" "\<lambda>_. is_get" T
  for ver :: string and T :: "'w \<Rightarrow> int"
  by unfold_locales
    (auto simp: attempt_gate_def Let_def su_retryAfter_def split: option.splits if_splits prod.splits)

text \<open>\<open>enter_attempt\<close> is the gate, at the readings it makes.\<close>

definition gate_readings :: "'w sys \<Rightarrow> string \<Rightarrow> ('w, 'm) host_scheme \<Rightarrow> readings" where
  "gate_readings S ver h =
     (let (r, w) = S Now (world h)
      in if ver \<noteq> su_attemptVersion h \<or> su_lastAttempt h = None then (rnum r, rnum r)
         else (rnum r, rnum (fst (S Now w))))"

lemma enter_attempt_run:
  fixes ver :: string and h :: "('w, 'm) host_scheme"
  assumes "monotone_clock S T"
  defines "m \<equiv> enter_attempt S ver"
  shows "result m h = fst (attempt_gate ver (gate_readings S ver h) (su_attemptVersion h, su_lastAttempt h))
     \<and> (su_attemptVersion (after m h), su_lastAttempt (after m h))
         = snd (attempt_gate ver (gate_readings S ver h) (su_attemptVersion h, su_lastAttempt h))
     \<and> (\<exists>es. trace (after m h) = trace h @ es \<and> set es \<subseteq> {Now})
     \<and> T (world h) \<le> fst (gate_readings S ver h)
     \<and> fst (gate_readings S ver h) \<le> snd (gate_readings S ver h)
     \<and> T (world h) \<le> T (world (after m h))
     \<and> (result m h \<longrightarrow> snd (gate_readings S ver h) \<le> T (world (after m h)))
     \<and> su_upgrading (after m h) = su_upgrading h \<and> su_upgradeErr (after m h) = su_upgradeErr h"
proof -
  have clock: "T w \<le> T (snd (S c w))" "rnum (fst (S Now w)) = T w" for w c
    using assms(1) by (simp_all add: monotone_clock_def)
  obtain r1 w1 where c1: "S Now (world h) = (r1, w1)" by fastforce
  obtain r2 w2 where c2: "S Now w1 = (r2, w2)" by fastforce
  have le: "T (world h) \<le> T w1" "T w1 \<le> T w2" "rnum r1 = T (world h)" "rnum r2 = T w1"
    using clock(1)[of "world h" Now] clock(1)[of w1 Now] clock(2)[of "world h"] clock(2)[of w1] c1 c2
    by simp_all
  show ?thesis
  proof (cases "ver \<noteq> su_attemptVersion h \<or> su_lastAttempt h = None")
    case True
    then show ?thesis using c1 c2 le
      by (auto simp: m_def enter_attempt_def gate_readings_def attempt_gate_def run_do_call
          State_Monad.get_def State_Monad.update_def State_Monad.set_def Let_def)
  next
    case False
    then obtain a where "su_attemptVersion h = ver" "su_lastAttempt h = Some a" by auto
    then show ?thesis using c1 c2 le
      by (cases "rnum r1 - a < su_retryAfter")
        (auto simp: m_def enter_attempt_def gate_readings_def attempt_gate_def run_do_call
          State_Monad.get_def State_Monad.update_def State_Monad.set_def Let_def)
  qed
qed

text \<open>The rest of an attempt: at most one request, and the gate is left alone.\<close>

definition at_most :: "nat \<Rightarrow> (call \<Rightarrow> bool) \<Rightarrow> ('w, 'm, 'a) prog \<Rightarrow> bool" where
  "at_most n P m \<longleftrightarrow> (\<forall>h. \<exists>es. trace (after m h) = trace h @ es \<and> length (filter P es) \<le> n)"

lemma at_most_emits: "emits (\<lambda>cl. \<not> P cl) m \<Longrightarrow> at_most n P m"
  unfolding emits_def at_most_def by (metis filter_False list_all_iff list.size(3) zero_le)

lemma at_most_bind:
  assumes "at_most j P m" "\<And>x. at_most k P (f x)"
  shows "at_most (j + k) P (State_Monad.bind m f)"
  unfolding at_most_def after_bind
proof
  fix h
  obtain es where "trace (after m h) = trace h @ es" "length (filter P es) \<le> j"
    using assms(1) unfolding at_most_def by blast
  moreover obtain fs where "trace (after (f (result m h)) (after m h)) = trace (after m h) @ fs"
      "length (filter P fs) \<le> k"
    using assms(2) unfolding at_most_def by blast
  ultimately show "\<exists>es. trace (after (f (result m h)) (after m h)) = trace h @ es \<and> length (filter P es) \<le> j + k"
    by (intro exI[of _ "es @ fs"]) simp
qed

lemma at_most_after: "emits (\<lambda>cl. \<not> P cl) m \<Longrightarrow> (\<And>x. at_most k P (f x)) \<Longrightarrow> at_most k P (State_Monad.bind m f)"
  using at_most_bind[of 0 P m k f] at_most_emits[of P m 0] by simp

lemma emits_no_get:
  "emits (\<lambda>cl. \<not> is_get cl) (install_download S exe tmp)"
  "emits (\<lambda>cl. \<not> is_get cl) (discard S tmp e)"
  "emits (\<lambda>cl. \<not> is_get cl) (checkExecutable S goos tmp)"
  "emits (\<lambda>cl. \<not> is_get cl) (assetURL S goos goarch ver)"
  unfolding install_download_def discard_def checkExecutable_def assetURL_def Let_def
  by (intro emits_intros; simp)+

lemma at_most_one_get: "at_most 1 is_get (download S goos url dir)"
proof -
  have "at_most 1 is_get (do_call S (HttpGet url))"
    by (simp add: at_most_def run_do_call)
  moreover have "emits (\<lambda>cl. \<not> is_get cl) (case rerr resp of
        Some e \<Rightarrow> State_Monad.return (Inl (''download: '' @ e))
      | None \<Rightarrow>
          if rnum resp \<noteq> 200 then State_Monad.return (Inl (''download: status '' @ Itoa (rnum resp)))
          else do {
            f \<leftarrow> do_call S (CreateTemp dir ''.exnode-download-*'');
            (case rerr f of
               Some e \<Rightarrow> State_Monad.return (Inl (''create temp file: '' @ e))
             | None \<Rightarrow> (let path = rout f in do {
                 w \<leftarrow> do_call S (CopyBody path (minBinarySize * 200));
                 (case rerr w of
                    Some e \<Rightarrow> discard S path (''write download: '' @ e)
                  | None \<Rightarrow>
                      if rnum w < minBinarySize
                      then discard S path (''download too small ('' @ Itoa (rnum w) @ '' bytes)'')
                      else do {
                        e \<leftarrow> checkExecutable S goos path;
                        (case e of Some m \<Rightarrow> discard S path m | None \<Rightarrow> State_Monad.return (Inr path)) }) })) })"
    for resp
    unfolding Let_def by (intro emits_intros emits_no_get; simp)
  ultimately show ?thesis
    unfolding download_def using at_most_bind[of 1 is_get _ 0] at_most_emits by fastforce
qed

lemma selfUpgrade_one_get: "at_most 1 is_get (selfUpgrade S goos goarch order)"
proof -
  have tail: "emits (\<lambda>cl. \<not> is_get cl) (case d of
             Inl e \<Rightarrow> State_Monad.return (Returned (Some e))
           | Inr tmp \<Rightarrow> do {
               o' \<leftarrow> install_download S exe tmp;
               (case o' of
                  Replaced \<Rightarrow> State_Monad.return Replaced
                | Returned e \<Rightarrow> do {
                    _ \<leftarrow> do_call S (RemoveFile tmp);
                    State_Monad.return (Returned e) }) })" for d exe
    by (intro emits_intros emits_no_get) (auto split: outcome.splits intro!: emits_intros)
  have rest: "at_most 1 is_get (do {
          d \<leftarrow> download S goos url (Dir exe);
          (case d of
             Inl e \<Rightarrow> State_Monad.return (Returned (Some e))
           | Inr tmp \<Rightarrow> do {
               o' \<leftarrow> install_download S exe tmp;
               (case o' of
                  Replaced \<Rightarrow> State_Monad.return Replaced
                | Returned e \<Rightarrow> do {
                    _ \<leftarrow> do_call S (RemoveFile tmp);
                    State_Monad.return (Returned e) }) }) })" for url exe
    using at_most_bind[OF at_most_one_get at_most_emits[OF tail, of 0]] by fastforce
  show ?thesis
    unfolding selfUpgrade_def
  proof (rule at_most_after)
    show "emits (\<lambda>cl. \<not> is_get cl) (do_call S Executable)" by (intro emits_intros) simp
    show "at_most 1 is_get (case rerr r of
        Some e \<Rightarrow> State_Monad.return (Returned (Some (''locate own binary: '' @ e)))
      | None \<Rightarrow> do {
          url \<leftarrow> (if TrimSpace (ord_URL order) = [] then assetURL S goos goarch (ord_Version order)
                  else State_Monad.return (TrimSpace (ord_URL order)));
          d \<leftarrow> download S goos url (Dir (rout r));
          (case d of
             Inl e \<Rightarrow> State_Monad.return (Returned (Some e))
           | Inr tmp \<Rightarrow> do {
               o' \<leftarrow> install_download S (rout r) tmp;
               (case o' of
                  Replaced \<Rightarrow> State_Monad.return Replaced
                | Returned e \<Rightarrow> do {
                    _ \<leftarrow> do_call S (RemoveFile tmp);
                    State_Monad.return (Returned e) }) }) })" for r
    proof (cases "rerr r")
      case None
      have "emits (\<lambda>cl. \<not> is_get cl) (if TrimSpace (ord_URL order) = []
          then assetURL S goos goarch (ord_Version order)
          else State_Monad.return (TrimSpace (ord_URL order)))"
        by (intro emits_intros emits_no_get)
      then show ?thesis unfolding None option.case by (rule at_most_after[OF _ rest])
    qed (auto intro!: at_most_emits emits_intros)
  qed
qed

lemma keeps_case_outcome:
  "(\<And>e. x = Returned e \<Longrightarrow> keeps I (f e)) \<Longrightarrow> (x = Replaced \<Longrightarrow> keeps I g)
   \<Longrightarrow> keeps I (case x of Returned e \<Rightarrow> f e | Replaced \<Rightarrow> g)"
  by (cases x) auto

lemma selfUpgrade_keeps:
  assumes "\<And>h c. I h \<Longrightarrow> I (h\<lparr>world := snd (S c (world h)), trace := trace h @ [c]\<rparr>)"
  shows "keeps I (selfUpgrade S goos goarch order)"
proof -
  have call: "keeps I (do_call S c)" for c using assms by (rule keeps_do_call)
  show ?thesis
    unfolding selfUpgrade_def download_def install_download_def discard_def checkExecutable_def
      assetURL_def Let_def
    by (intro keeps_intros keeps_case_outcome call)
qed

lemma paced_trivial:
  assumes "T (world h) \<le> T (world h')" "trace h' = trace h @ es" "filter is_get es = []"
    "su_attemptVersion h' = su_attemptVersion h" "su_lastAttempt h' = su_lastAttempt h"
  shows "upgrade.paced_run ver T h h'"
  unfolding upgrade.paced_run_def using assms
  by (intro conjI exI[of _ "[]"] exI[of _ es]) auto

lemma paced_Maybe:
  fixes S :: "'w sys"
  assumes clock: "monotone_clock S T" and ver: "ord_Version ord = ver"
  shows "upgrade.paced_prog ver T (Maybe S goos goarch (Some ord) current :: ('w, 'm, outcome) prog)"
  unfolding upgrade.paced_prog_def
proof
  fix h :: "('w, 'm) host_scheme"
  let ?m = "Maybe S goos goarch (Some ord) current :: ('w, 'm, outcome) prog"
  let ?u = "h\<lparr>su_upgrading := True\<rparr>"
  let ?g = "after (enter_attempt S ver) ?u"
  let ?s = "after (selfUpgrade S goos goarch ord) ?g"
  note enter = enter_attempt_run[OF clock, of ver ?u]
  show "upgrade.paced_run ver T h (after ?m h)"
  proof (cases "TrimSpace (ord_Version ord) = [] \<or> \<not> newerVersion (ord_Version ord) current
        \<or> TrimSpace (ord_URL ord) = [] \<or> su_upgrading h")
    case True
    then show ?thesis
      by (intro paced_trivial[where es = "[]"])
        (auto simp: Maybe_def setUpgradeError_def State_Monad.get_def State_Monad.update_def State_Monad.set_def)
  next
    case False
    have le: "x \<le> T w \<Longrightarrow> x \<le> T (snd (S c w))" for x w c
      using clock order_trans unfolding monotone_clock_def by blast
    obtain es where es: "trace ?g = trace h @ es" "set es \<subseteq> {Now}" using enter by auto
    then have none: "filter is_get es = []" by (auto simp: filter_empty_conv)
    have view: "(su_attemptVersion ?g, su_lastAttempt ?g)
        = snd (attempt_gate ver (gate_readings S ver ?u) (su_attemptVersion h, su_lastAttempt h))"
      using enter by simp
    show ?thesis
    proof (cases "result (enter_attempt S ver) ?u")
      case go: False
      then obtain g where g: "run_state (enter_attempt S ver) ?u = (False, g)"
        by (metis prod.collapse)
      then have "after ?m h = ?g\<lparr>su_upgrading := False\<rparr>"
        using False ver
        by (simp add: Maybe_def State_Monad.get_def State_Monad.update_def State_Monad.set_def)
      with go enter es none show ?thesis
        by (intro paced_trivial[where es = es])
          (auto simp: attempt_gate_def Let_def split: prod.splits option.splits if_splits)
    next
      case go: True
      have keeps: "su_attemptVersion ?s = su_attemptVersion ?g \<and> su_lastAttempt ?s = su_lastAttempt ?g
          \<and> T (world ?g) \<le> T (world ?s)"
        by (rule keepsD[where I = "\<lambda>h'. su_attemptVersion h' = su_attemptVersion ?g
            \<and> su_lastAttempt h' = su_lastAttempt ?g \<and> T (world ?g) \<le> T (world h')"])
          (rule selfUpgrade_keeps, use le in auto)
      obtain fs where fs: "trace ?s = trace ?g @ fs" "length (filter is_get fs) \<le> 1"
        using selfUpgrade_one_get unfolding at_most_def by blast
      obtain g u s where "run_state (enter_attempt S ver) ?u = (True, g)"
          "run_state (selfUpgrade S goos goarch ord) g = (u, s)"
        using go by (metis prod.collapse)
      then have "world (after ?m h) = world ?s \<and> trace (after ?m h) = trace ?s
          \<and> su_attemptVersion (after ?m h) = su_attemptVersion ?s \<and> su_lastAttempt (after ?m h) = su_lastAttempt ?s"
        using False ver
        by (auto simp: Maybe_def State_Monad.get_def State_Monad.update_def State_Monad.set_def
            setUpgradeError_def split: outcome.splits option.splits)
      with go enter es none keeps fs view show ?thesis
        by (intro upgrade.paced_action[where k = "()" and a = "fst (gate_readings S ver ?u)"
              and b = "snd (gate_readings S ver ?u)" and es = "es @ fs"]) auto
    qed
  qed
qed

text \<open>
  C18. However often the panel repeats its orders for one version (with any URLs, from any number of
  controllers, at any running version), \<open>n\<close> download attempts take at least \<open>n -
  1\<close> times five minutes, however many calls are refused or skipped in between.
\<close>
theorem upgrade_attempts_rate_limited:
  assumes "monotone_clock S T" and "\<forall>(ord, current) \<in> set orders. ord_Version ord = ver"
  shows "(let h' = after (for_each orders (\<lambda>(ord, current). do {
                     _ \<leftarrow> Maybe S goos goarch (Some ord) current; State_Monad.return () })) h;
              downloads = length (filter is_get (drop (length (trace h)) (trace h')))
     in (int downloads - 1) * (5 * 60 * 1000000000) \<le> T (world h') - T (world h))"
proof -
  let ?h = "after (for_each orders (\<lambda>(ord, current). do {
                     _ \<leftarrow> Maybe S goos goarch (Some ord) current; State_Monad.return () })) h"
  have "upgrade.paced_run ver T h ?h"
    unfolding case_prod_unfold
    by (intro upgrade.pacedD upgrade.paced_for_each upgrade.paced_bind upgrade.paced_return paced_Maybe assms(1))
      (use assms(2) in auto)
  from upgrade.paced_bound[OF this] show ?thesis
    unfolding Let_def su_retryAfter_def .
qed

theorem upgrade_attempts_rate_limited_witness:
  "(let o' = \<lparr>ord_Version = ''v2'', ord_URL = ''https://p/x''\<rparr>;
        h' = after (for_each [(o', ''v1''), (o', ''v1'')] (\<lambda>(ord, current). do {
               _ \<leftarrow> Maybe sim_sys ''linux'' ''amd64'' (Some ord) current; State_Monad.return () }))
             (init_host sim_host);
        downloads = length (filter is_get (trace h'))
    in (int downloads - 1) * (5 * 60 * 1000000000) \<le> sim_clock (world h'))"
proof -
  let ?o = "\<lparr>ord_Version = ''v2'', ord_URL = ''https://p/x''\<rparr>"
  have "\<forall>(ord, current) \<in> set [(?o, ''v1''), (?o, ''v1'')]. ord_Version ord = ''v2''" by simp
  from upgrade_attempts_rate_limited[OF sim_monotone_clock this, of "''linux''" "''amd64''" "init_host sim_host"]
  show ?thesis unfolding Let_def by (simp add: sim_host_def)
qed

end
