(* ===== verification/SelfUpdateSafety.thy ===== *)
theory SelfUpdateSafety
  imports SelfUpdateFacts
begin

text \<open>
  The safety of an upgrade: the working binary is replaced only by a download that passed every
  check, an attempt that did not replace the process leaves its error for the next heartbeat, and
  of any number of concurrent controllers at most one upgrades at a time.
\<close>

section \<open>Only a checked download is installed\<close>

text \<open>A host that also records every exchange: the call and its reply, in order.\<close>

definition logged :: "'w sys \<Rightarrow> ('w \<times> (call \<times> reply) list) sys" where
  "logged S c w = (case S c (fst w) of (r, w') \<Rightarrow> (r, (w', snd w @ [(c, r)])))"

text \<open>The checks a downloaded file has passed, by the exchanges before.\<close>

definition fetched :: "string \<Rightarrow> string \<Rightarrow> (call \<times> reply) list \<Rightarrow> bool" where
  "fetched goos tmp log \<longleftrightarrow>
     (\<exists>url r. (HttpGet url, r) \<in> set log \<and> rerr r = nil \<and> rnum r = 200)
   \<and> (\<exists>n r. (CopyBody tmp n, r) \<in> set log \<and> rerr r = nil \<and> minBinarySize \<le> rnum r)
   \<and> (goos = ''linux'' \<longrightarrow> (\<exists>r. (ReadHead tmp 4, r) \<in> set log \<and> rerr r = nil \<and> rout r = elf_magic))"

text \<open>The file was made executable, with mode 0755.\<close>

definition runnable :: "string \<Rightarrow> string \<Rightarrow> (call \<times> reply) list \<Rightarrow> bool" where
  "runnable goos tmp log \<longleftrightarrow> fetched goos tmp log \<and> (\<exists>r. (Chmod tmp 493, r) \<in> set log \<and> rerr r = nil)"

definition checked :: "string \<Rightarrow> string \<Rightarrow> (call \<times> reply) list \<Rightarrow> bool" where
  "checked goos tmp log \<longleftrightarrow> runnable goos tmp log \<and> (\<exists>r. (Exec tmp [''-version''], r) \<in> set log \<and> rerr r = nil)"

text \<open>
  Reading a log from the left: a command is run only to try a file that was fetched and made executable
  before, a file is renamed only after it was checked, and the process is re-executed only after a
  successful rename onto the binary it executes.
\<close>

fun safe_log :: "string \<Rightarrow> (call \<times> reply) list \<Rightarrow> (call \<times> reply) list \<Rightarrow> bool" where
  "safe_log goos past [] = True"
| "safe_log goos past ((c, r) # log) =
     ((case c of
         Exec tmp args \<Rightarrow> args = [''-version''] \<and> runnable goos tmp past
       | Rename tmp exe \<Rightarrow> checked goos tmp past
       | ReExec exe \<Rightarrow> (\<exists>tmp q. (Rename tmp exe, q) \<in> set past \<and> rerr q = nil)
       | _ \<Rightarrow> True)
      \<and> safe_log goos (past @ [(c, r)]) log)"

lemma safe_log_append:
  "safe_log goos past (xs @ ys) \<longleftrightarrow> safe_log goos past xs \<and> safe_log goos (past @ xs) ys"
  by (induction xs arbitrary: past) auto

definition installs :: "call \<Rightarrow> bool" where
  "installs c \<longleftrightarrow> (\<exists>a b. c = Exec a b) \<or> (\<exists>a b. c = Rename a b) \<or> (\<exists>e. c = ReExec e)"

lemma safe_log_harmless: "\<forall>(c, r) \<in> set log. \<not> installs c \<Longrightarrow> safe_log goos past log"
  by (induction log arbitrary: past) (auto simp: installs_def split: call.splits)

text \<open>A program appends to the log; \<open>logs P m\<close> says that what it appends satisfies \<open>P\<close> of its result.\<close>

definition logs ::
  "('a \<Rightarrow> (call \<times> reply) list \<Rightarrow> bool) \<Rightarrow> ('w \<times> (call \<times> reply) list, 'm, 'a) prog \<Rightarrow> bool" where
  "logs P m \<longleftrightarrow> (\<forall>h. \<exists>xs. snd (world (after m h)) = snd (world h) @ xs \<and> P (result m h) xs)"

lemma logs_return: "P x [] \<Longrightarrow> logs P (State_Monad.return x)"
  by (simp add: logs_def)

lemma logs_call: "(\<And>r. P r [(c, r)]) \<Longrightarrow> logs P (do_call (logged S) c)"
  by (simp add: logs_def run_do_call logged_def split: prod.splits)

lemma logs_bind:
  assumes "logs Q m" "\<And>x xs. Q x xs \<Longrightarrow> logs (\<lambda>y ys. P y (xs @ ys)) (f x)"
  shows "logs P (State_Monad.bind m f)"
  unfolding logs_def after_bind result_bind
proof
  fix h
  obtain xs where xs: "snd (world (after m h)) = snd (world h) @ xs" "Q (result m h) xs"
    using assms(1) unfolding logs_def by blast
  moreover obtain ys where "snd (world (after (f (result m h)) (after m h))) = snd (world (after m h)) @ ys"
      "P (result (f (result m h)) (after m h)) (xs @ ys)"
    using assms(2)[OF xs(2)] unfolding logs_def by blast
  ultimately show "\<exists>zs. snd (world (after (f (result m h)) (after m h))) = snd (world h) @ zs
      \<and> P (result (f (result m h)) (after m h)) zs"
    by (intro exI[of _ "xs @ ys"]) simp
qed

lemma logs_option:
  "(x = None \<Longrightarrow> logs P m) \<Longrightarrow> (\<And>y. x = Some y \<Longrightarrow> logs P (f y))
   \<Longrightarrow> logs P (case x of None \<Rightarrow> m | Some y \<Rightarrow> f y)"
  by (cases x) auto

lemma logs_if: "(b \<Longrightarrow> logs P m) \<Longrightarrow> (\<not> b \<Longrightarrow> logs P n) \<Longrightarrow> logs P (if b then m else n)"
  by simp

lemma logs_call_bind:
  "(\<And>r. logs (\<lambda>y ys. P y ((c, r) # ys)) (f r)) \<Longrightarrow> logs P (State_Monad.bind (do_call (logged S) c) f)"
  by (rule logs_bind[where Q = "\<lambda>r xs. xs = [(c, r)]"]) (auto intro: logs_call)

text \<open>What a download logs: nothing that installs; and when it succeeds, its checks.\<close>

definition downloaded :: "string \<Rightarrow> string go_result \<Rightarrow> (call \<times> reply) list \<Rightarrow> bool" where
  "downloaded goos d log \<longleftrightarrow> (\<forall>(c, r) \<in> set log. \<not> installs c)
     \<and> (\<forall>tmp. d = Inr tmp \<longrightarrow> fetched goos tmp log)"

lemma logs_checkExecutable:
  "logs (\<lambda>e log. (\<forall>(c, r) \<in> set log. \<not> installs c)
       \<and> (e = nil \<and> goos = ''linux'' \<longrightarrow> (\<exists>r. (ReadHead path 4, r) \<in> set log \<and> rerr r = nil \<and> rout r = elf_magic)))
     (checkExecutable (logged S) goos path)"
  unfolding checkExecutable_def
  by (intro logs_call_bind logs_option logs_return) (auto simp: installs_def split: option.splits)

lemma logs_download: "logs (downloaded goos) (download (logged S) goos url dir)"
  unfolding download_def discard_def Let_def
  by (intro logs_call_bind logs_option logs_if logs_return
      logs_bind[OF logs_checkExecutable[where goos = goos]])
    (auto simp: downloaded_def fetched_def installs_def, (metis linorder_not_less)+)

lemma logs_install:
  assumes "downloaded goos (Inr tmp) past" 
  shows "logs (\<lambda>o' log. safe_log goos past log) (install_download (logged S) exe tmp)"
  unfolding install_download_def
  using assms
  by (intro logs_call_bind logs_option logs_return)
    (auto simp: downloaded_def checked_def runnable_def fetched_def)

lemma downloaded_safe: "downloaded goos d log \<Longrightarrow> safe_log goos past log"
  by (rule safe_log_harmless) (auto simp: downloaded_def)

lemma downloaded_more:
  "downloaded goos d log \<Longrightarrow> \<forall>(c, r) \<in> set past. \<not> installs c \<Longrightarrow> downloaded goos d (past @ log)"
  unfolding downloaded_def fetched_def by (simp add: ball_Un) blast

lemma logs_mono: "logs P m \<Longrightarrow> (\<And>x xs. P x xs \<Longrightarrow> Q x xs) \<Longrightarrow> logs Q m"
  unfolding logs_def by blast

lemma logs_selfUpgrade:
  "logs (\<lambda>_ log. safe_log goos [] log) (selfUpgrade (logged S) goos goarch order)"
proof -
  have url: "logs (\<lambda>_ xs. \<forall>(c, r) \<in> set xs. \<not> installs c)
      (if TrimSpace (ord_URL order) = [] then assetURL (logged S) goos goarch (ord_Version order)
       else State_Monad.return (TrimSpace (ord_URL order)))"
    unfolding assetURL_def Let_def
    by (intro logs_if logs_call_bind logs_return) (auto simp: installs_def)
  have tail: "logs (\<lambda>_ log. safe_log goos [] (past @ xs @ log))
      (case d of
         Inl e \<Rightarrow> State_Monad.return (Returned (Some e))
       | Inr tmp \<Rightarrow> do {
           o' \<leftarrow> install_download (logged S) exe tmp;
           (case o' of
              Replaced \<Rightarrow> State_Monad.return Replaced
            | Returned e \<Rightarrow> do {
                _ \<leftarrow> do_call (logged S) (RemoveFile tmp);
                State_Monad.return (Returned e) }) })"
    if past: "\<forall>(c, r) \<in> set past. \<not> installs c" and xs: "downloaded goos d xs" for past xs d exe
  proof -
    have down: "downloaded goos d (past @ xs)" by (rule downloaded_more[OF xs past])
    note safe = downloaded_safe[OF down, of "[]"]
    show ?thesis
    proof (cases d)
      case (Inl e)
      then show ?thesis using safe by (simp add: logs_return)
    next
      case (Inr tmp)
      have install: "logs (\<lambda>o' log. safe_log goos (past @ xs) log) (install_download (logged S) exe tmp)"
        using down Inr by (intro logs_install) simp
      show ?thesis
        unfolding Inr sum.case using safe
        by (intro logs_bind[OF install]) (auto split: outcome.splits intro!: logs_return logs_call_bind
            simp: safe_log_append)
    qed
  qed
  show ?thesis
    unfolding selfUpgrade_def
  proof (intro logs_call_bind logs_option logs_return)
    fix r
    show "logs (\<lambda>y ys. safe_log goos [] ((Executable, r) # ys)) (do {
          url \<leftarrow> (if TrimSpace (ord_URL order) = [] then assetURL (logged S) goos goarch (ord_Version order)
                  else State_Monad.return (TrimSpace (ord_URL order)));
          d \<leftarrow> download (logged S) goos url (Dir (rout r));
          (case d of
             Inl e \<Rightarrow> State_Monad.return (Returned (Some e))
           | Inr tmp \<Rightarrow> do {
               o' \<leftarrow> install_download (logged S) (rout r) tmp;
               (case o' of
                  Replaced \<Rightarrow> State_Monad.return Replaced
                | Returned e \<Rightarrow> do {
                    _ \<leftarrow> do_call (logged S) (RemoveFile tmp);
                    State_Monad.return (Returned e) }) }) })"
    proof (rule logs_bind[OF url], rule logs_bind[OF logs_download])
      fix xs :: "(call \<times> reply) list" and d ys
      assume "\<forall>(c, r) \<in> set xs. \<not> installs c" "downloaded goos d ys"
      then show "logs (\<lambda>_ zs. safe_log goos [] ((Executable, r) # xs @ ys @ zs))
          (case d of
             Inl e \<Rightarrow> State_Monad.return (Returned (Some e))
           | Inr tmp \<Rightarrow> do {
               o' \<leftarrow> install_download (logged S) (rout r) tmp;
               (case o' of
                  Replaced \<Rightarrow> State_Monad.return Replaced
                | Returned e \<Rightarrow> do {
                    _ \<leftarrow> do_call (logged S) (RemoveFile tmp);
                    State_Monad.return (Returned e) }) })"
        using tail[of "(Executable, r) # xs" d ys "rout r"] by (simp add: installs_def)
    qed
  qed simp
qed

lemma logs_enter_attempt:
  "logs (\<lambda>_ xs. \<forall>(c, r) \<in> set xs. \<not> installs c) (enter_attempt (logged S) ver)"
  unfolding logs_def
  by (auto simp: enter_attempt_def run_do_call logged_def installs_def State_Monad.get_def
      State_Monad.update_def State_Monad.set_def split: prod.splits option.splits)

lemma logs_update: "P () [] \<Longrightarrow> (\<And>h. world (f h) = world h) \<Longrightarrow> logs P (State_Monad.update f)"
  by (simp add: logs_def State_Monad.update_def State_Monad.get_def State_Monad.set_def)

lemma logs_get: "(\<And>x. P x []) \<Longrightarrow> logs P State_Monad.get"
  by (simp add: logs_def State_Monad.get_def)

lemma safe_log_mono: "safe_log goos past log \<Longrightarrow> set past \<subseteq> set past' \<Longrightarrow> safe_log goos past' log"
proof (induction log arbitrary: past past')
  case (Cons e log)
  obtain c r where e: "e = (c, r)" by fastforce
  have more: "fetched goos tmp past \<Longrightarrow> fetched goos tmp past'" for tmp
    using Cons.prems(2) unfolding fetched_def by blast
  then have "runnable goos tmp past \<Longrightarrow> runnable goos tmp past'" "checked goos tmp past \<Longrightarrow> checked goos tmp past'" for tmp
    using Cons.prems(2) unfolding checked_def runnable_def by blast+
  then show ?case using Cons.prems Cons.IH[of "past @ [e]" "past' @ [e]"] e
    by (cases c) (auto, blast)
qed simp

lemma logs_Maybe:
  "logs (\<lambda>_ log. safe_log goos [] log) (Maybe (logged S) goos goarch order current)"
proof -
  have silent: "logs (\<lambda>_ xs. xs = []) State_Monad.get" "(\<And>h. world (f h) = world h) \<Longrightarrow>
      logs (\<lambda>_ xs. xs = []) (State_Monad.update f)" for f
    by (intro logs_get logs_update; simp)+
  have upgrade: "logs (\<lambda>_ log. safe_log goos [] log) (do {
        u \<leftarrow> selfUpgrade (logged S) goos goarch o';
        (case u of
           Replaced \<Rightarrow> State_Monad.return Replaced
         | Returned e \<Rightarrow> do {
             (case e of None \<Rightarrow> State_Monad.return ()
              | Some m \<Rightarrow> setUpgradeError (''upgrade to '' @ ord_Version o' @ '' failed: '' @ m));
             State_Monad.update (\<lambda>h. h\<lparr>su_upgrading := False\<rparr>);
             State_Monad.return (Returned nil) }) })" for o'
    by (rule logs_bind[OF logs_selfUpgrade])
      (auto split: outcome.splits option.splits simp: setUpgradeError_def
        intro!: logs_return logs_update logs_bind[where Q = "\<lambda>_ xs. xs = []"])
  show ?thesis
    unfolding Maybe_def setUpgradeError_def
    by (intro logs_option logs_if logs_return logs_bind[OF silent(1)] logs_bind[OF silent(2)]
        logs_bind[OF logs_enter_attempt])
      (auto intro!: logs_mono[OF upgrade[unfolded setUpgradeError_def]]
        simp: safe_log_append safe_log_harmless intro: safe_log_mono[where past = "[]"])
qed

text \<open>
  C9. On any host, acting on an upgrade order puts a file in the place of a binary only after, in
  the same exchange with the host, a download answered status 200, at least 1 MiB were written to the
  file, it began with the ELF magic (on linux), it was given mode 0755 and it ran with \<open>-version\<close>. That
  trial run is the only command it executes, and only on a file that passed the checks before it; and it
  re-executes a path only after it renamed a checked file onto it. Downloads that fail any check leave
  the working binary alone.
\<close>
theorem only_checked_downloads_are_installed:
  "safe_log goos [] (drop (length (snd (world h)))
     (snd (world (after (Maybe (logged S) goos goarch order current) h))))"
proof -
  obtain xs where "snd (world (after (Maybe (logged S) goos goarch order current) h)) = snd (world h) @ xs"
      "safe_log goos [] xs"
    using logs_Maybe[of goos S goarch order current] unfolding logs_def by blast
  then show ?thesis by simp
qed

section \<open>A failed attempt is reported\<close>

lemma selfUpgrade_never_nil:
  fixes S :: "'w sys" and h :: "('w, 'm) host_scheme"
  shows "result (selfUpgrade S goos goarch order) h \<noteq> Returned nil"
proof -
  have "result (install_download S exe tmp) h \<noteq> Returned nil" for exe tmp and h :: "('w, 'm) host_scheme"
    by (auto simp: install_download_def result_bind simp del: run_state_bind split: option.splits)
  moreover have "result (case d of
             Inl e \<Rightarrow> State_Monad.return (Returned (Some e))
           | Inr tmp \<Rightarrow> do {
               o' \<leftarrow> install_download S exe tmp;
               (case o' of
                  Replaced \<Rightarrow> State_Monad.return Replaced
                | Returned e \<Rightarrow> do {
                    _ \<leftarrow> do_call S (RemoveFile tmp);
                    State_Monad.return (Returned e) }) }) h \<noteq> Returned nil" for d exe and h :: "('w, 'm) host_scheme"
    using calculation by (auto simp: result_bind simp del: run_state_bind split: sum.splits outcome.splits) (metis not_None_eq)
  ultimately show ?thesis
    unfolding selfUpgrade_def
    by (simp add: result_bind del: run_state_bind split: option.splits)
qed

lemma enter_attempt_calls: "\<exists>es. trace (after (enter_attempt S ver) h) = trace h @ es \<and> set es \<subseteq> {Now}"
  by (auto simp: enter_attempt_def run_do_call State_Monad.get_def State_Monad.update_def
      State_Monad.set_def split: prod.splits option.splits)

text \<open>
  C31. Acting on an order either does nothing (no order, or not a newer version: no call is made and
  nothing is remembered), or it leaves the process replaced, or it returns with the guard as it found
  it; and whenever it made a request and returned, the failure is pending as
  \<open>upgrade to V failed: ...\<close> for the next heartbeat to report.
\<close>
theorem Maybe_reports_failures:
  "(order = None \<or> \<not> newerVersion (ord_Version (the order)) current
      \<longrightarrow> after (Maybe S goos goarch order current) h = h)
   \<and> (result (Maybe S goos goarch order current) h \<noteq> Replaced
      \<longrightarrow> result (Maybe S goos goarch order current) h = Returned nil
        \<and> su_upgrading (after (Maybe S goos goarch order current) h) = su_upgrading h)
   \<and> (result (Maybe S goos goarch order current) h \<noteq> Replaced
        \<and> \<not> list_all (\<lambda>c. \<not> is_get c) (drop (length (trace h)) (trace (after (Maybe S goos goarch order current) h)))
      \<longrightarrow> prefix (''upgrade to '' @ ord_Version (the order) @ '' failed: '')
            (su_upgradeErr (after (Maybe S goos goarch order current) h)))"
proof (cases "order = None \<or> TrimSpace (ord_Version (the order)) = []
      \<or> \<not> newerVersion (ord_Version (the order)) current
      \<or> TrimSpace (ord_URL (the order)) = [] \<or> su_upgrading h")
  case True
  then show ?thesis
    by (cases order) (auto simp: Maybe_def setUpgradeError_def State_Monad.get_def
        State_Monad.update_def State_Monad.set_def)
next
  case False
  then obtain ord where ord: "order = Some ord" by auto
  let ?u = "h\<lparr>su_upgrading := True\<rparr>"
  obtain go g where enter: "run_state (enter_attempt S (ord_Version ord)) ?u = (go, g)" by fastforce
  obtain es where es: "trace g = trace h @ es" "set es \<subseteq> {Now}"
    using enter_attempt_calls[of S "ord_Version ord" ?u] enter by auto
  show ?thesis
  proof (cases go)
    case True
    obtain u s where upg: "run_state (selfUpgrade S goos goarch ord) g = (u, s)" by fastforce
    then have "u \<noteq> Returned nil" using selfUpgrade_never_nil[of S goos goarch ord g] by simp
    then show ?thesis using True False ord enter upg
      by (auto simp: Maybe_def setUpgradeError_def State_Monad.get_def State_Monad.update_def
          State_Monad.set_def split: outcome.splits)
  next
    case go: False
    then have "after (Maybe S goos goarch order current) h = g\<lparr>su_upgrading := False\<rparr>
        \<and> result (Maybe S goos goarch order current) h = Returned nil"
      using False ord enter
      by (auto simp: Maybe_def State_Monad.get_def State_Monad.update_def State_Monad.set_def)
    moreover have "list_all (\<lambda>c. \<not> is_get c) es" using es(2) by (auto simp: list_all_iff)
    ultimately show ?thesis using False ord es(1) by auto
  qed
qed

text \<open>A host that knows its own path, where the download then fails.\<close>

definition upgrade_host :: "sim host" where
  "upgrade_host = init_host (sim_host\<lparr>sim_answers := [(Executable, ok_reply\<lparr>rout := ''/b''\<rparr>)]\<rparr>)"

theorem Maybe_reports_failures_witness:
  "prefix ''upgrade to v2 failed: '' (su_upgradeErr (after (Maybe sim_sys ''linux'' ''amd64''
     (Some \<lparr>ord_Version = ''v2'', ord_URL = ''u''\<rparr>) ''v1'') upgrade_host))"
proof -
  let ?m = "Maybe sim_sys ''linux'' ''amd64'' (Some \<lparr>ord_Version = ''v2'', ord_URL = ''u''\<rparr>) ''v1''"
  have "result ?m upgrade_host \<noteq> Replaced" by code_simp
  moreover have "\<not> list_all (\<lambda>c. \<not> is_get c)
      (drop (length (trace upgrade_host)) (trace (after ?m upgrade_host)))" by code_simp
  ultimately show ?thesis
    using Maybe_reports_failures[of "Some \<lparr>ord_Version = ''v2'', ord_URL = ''u''\<rparr>" "''v1''" sim_sys
      "''linux''" "''amd64''" upgrade_host] by simp
qed

section \<open>Concurrent controllers\<close>

text \<open>
  The process runs one controller per panel, each calling \<open>Maybe\<close> from its own goroutine. A step of
  the system is an atomic action of one of them: the compare-and-swap of \<open>upgrading\<close>, the critical
  section under \<open>attemptMu\<close> (here \<open>attempt_gate\<close>), the end of \<open>selfUpgrade\<close>, or the deferred store.
  \<open>up_flag\<close> is \<open>upgrading\<close>, \<open>up_gate\<close> is \<open>(attemptVersion, lastAttempt)\<close>; \<open>replaced\<close> ends the process.
\<close>

datatype phase = Outside | Claimed | Upgrading | Releasing

record upgrade_state =
  up_flag :: bool
  up_phase :: "nat \<Rightarrow> phase"
  up_gate :: "string \<times> int option"
  up_now :: int
  up_exited :: bool

definition up_start :: "int \<Rightarrow> upgrade_state" where
  "up_start t = \<lparr>up_flag = False, up_phase = (\<lambda>_. Outside), up_gate = ([], None), up_now = t, up_exited = False\<rparr>"

inductive up_step :: "upgrade_state \<Rightarrow> upgrade_state \<Rightarrow> bool" where
  claim: "\<not> up_exited s \<Longrightarrow> up_phase s t = Outside \<Longrightarrow> \<not> up_flag s
     \<Longrightarrow> up_step s (s\<lparr>up_flag := True, up_phase := (up_phase s)(t := Claimed)\<rparr>)"
| enter: "\<not> up_exited s \<Longrightarrow> up_phase s t = Claimed \<Longrightarrow> up_now s \<le> a \<Longrightarrow> a \<le> b
     \<Longrightarrow> attempt_gate ver (a, b) (up_gate s) = (True, g)
     \<Longrightarrow> up_step s (s\<lparr>up_phase := (up_phase s)(t := Upgrading), up_gate := g, up_now := b\<rparr>)"
| skip: "\<not> up_exited s \<Longrightarrow> up_phase s t = Claimed \<Longrightarrow> up_now s \<le> a \<Longrightarrow> a \<le> b
     \<Longrightarrow> attempt_gate ver (a, b) (up_gate s) = (False, g)
     \<Longrightarrow> up_step s (s\<lparr>up_phase := (up_phase s)(t := Releasing), up_gate := g, up_now := b\<rparr>)"
| failed: "\<not> up_exited s \<Longrightarrow> up_phase s t = Upgrading
     \<Longrightarrow> up_step s (s\<lparr>up_phase := (up_phase s)(t := Releasing)\<rparr>)"
| replaced: "\<not> up_exited s \<Longrightarrow> up_phase s t = Upgrading \<Longrightarrow> up_step s (s\<lparr>up_exited := True\<rparr>)"
| release: "\<not> up_exited s \<Longrightarrow> up_phase s t = Releasing
     \<Longrightarrow> up_step s (s\<lparr>up_flag := False, up_phase := (up_phase s)(t := Outside)\<rparr>)"

inductive_cases up_stepE: "up_step s s'"

definition up_reachable :: "upgrade_state \<Rightarrow> bool" where
  "up_reachable s \<longleftrightarrow> (\<exists>t. up_step\<^sup>*\<^sup>* (up_start t) s)"

lemma up_reachable_induct [consumes 1, case_names start step]:
  assumes "up_reachable s" "\<And>t. P (up_start t)"
    "\<And>s s'. up_reachable s \<Longrightarrow> P s \<Longrightarrow> up_step s s' \<Longrightarrow> P s'"
  shows "P s"
proof -
  obtain t where "up_step\<^sup>*\<^sup>* (up_start t) s" using assms(1) by (auto simp: up_reachable_def)
  then have "P s \<and> up_reachable s"
  proof (induction rule: rtranclp_induct)
    case base
    show ?case using assms(2) by (auto simp: up_reachable_def)
  next
    case (step y z)
    then have "up_reachable z" by (auto simp: up_reachable_def intro: rtranclp.rtrancl_into_rtrancl)
    with step assms(3) show ?case by blast
  qed
  then show ?thesis by blast
qed

text \<open>The controllers past the guard; the guard is up exactly when there is one.\<close>

definition up_busy :: "upgrade_state \<Rightarrow> nat set" where
  "up_busy s = {t. up_phase s t \<noteq> Outside}"

definition up_owned :: "upgrade_state \<Rightarrow> bool" where
  "up_owned s \<longleftrightarrow> (\<exists>t. up_busy s \<subseteq> {t}) \<and> (up_flag s \<longleftrightarrow> up_busy s \<noteq> {})"

lemma up_owned_busy:
  "up_owned s \<Longrightarrow> t \<in> up_busy s \<Longrightarrow> up_busy s = {t} \<and> up_flag s"
  "up_owned s \<Longrightarrow> \<not> up_flag s \<Longrightarrow> up_busy s = {}"
  by (auto simp: up_owned_def)

lemma up_owned_step:
  assumes "up_step s s'" "up_owned s"
  shows "up_owned s'"
  using assms(1)
proof cases
  case (claim t)
  then show ?thesis using up_owned_busy(2)[OF assms(2)]
    by (simp add: up_owned_def up_busy_def)
next
  case (enter t a b ver g)
  then have "up_busy s = {t} \<and> up_flag s" by (intro up_owned_busy assms(2)) (simp add: up_busy_def)
  then show ?thesis using enter(1) by (auto simp: up_owned_def up_busy_def)
next
  case (skip t a b ver g)
  then have "up_busy s = {t} \<and> up_flag s" by (intro up_owned_busy assms(2)) (simp add: up_busy_def)
  then show ?thesis using skip(1) by (auto simp: up_owned_def up_busy_def)
next
  case (failed t)
  then have "up_busy s = {t} \<and> up_flag s" by (intro up_owned_busy assms(2)) (simp add: up_busy_def)
  then show ?thesis using failed(1) by (auto simp: up_owned_def up_busy_def)
next
  case (replaced t)
  then show ?thesis using assms(2) by (simp add: up_owned_def up_busy_def)
next
  case (release t)
  then have "up_busy s = {t} \<and> up_flag s" by (intro up_owned_busy assms(2)) (simp add: up_busy_def)
  then show ?thesis using release(1) by (auto simp: up_owned_def up_busy_def)
qed

lemma up_owned_invariant: "up_reachable s \<Longrightarrow> up_owned s"
proof (induction rule: up_reachable_induct)
  case (start t)
  show ?case by (simp add: up_owned_def up_busy_def up_start_def)
next
  case (step s s')
  then show ?case by (blast intro: up_owned_step)
qed

lemma up_release_reachable:
  assumes "\<not> up_exited s" "up_phase s t \<noteq> Outside"
  shows "\<exists>s'. up_step\<^sup>*\<^sup>* s s' \<and> \<not> up_flag s'"
proof -
  have rel: "\<exists>s'. up_step\<^sup>*\<^sup>* s s' \<and> \<not> up_flag s'" if "up_phase s t = Releasing" "\<not> up_exited s" for s
    using up_step.release[OF that(2,1)] by (intro exI conjI, rule r_into_rtranclp) auto
  have upg: "\<exists>s'. up_step\<^sup>*\<^sup>* s s' \<and> \<not> up_flag s'" if "up_phase s t = Upgrading" "\<not> up_exited s" for s
    using up_step.failed[OF that(2,1)] rel[of "s\<lparr>up_phase := (up_phase s)(t := Releasing)\<rparr>"] that(2)
    by (auto intro: converse_rtranclp_into_rtranclp)
  show ?thesis
  proof (cases "up_phase s t")
    case Claimed
    obtain go g where g: "attempt_gate [] (up_now s, up_now s) (up_gate s) = (go, g)"
      by (meson surj_pair)
    show ?thesis
    proof (cases go)
      case True
      then show ?thesis
        using up_step.enter[OF assms(1) Claimed, of "up_now s" "up_now s" "[]" g] g assms(1)
          upg[of "s\<lparr>up_phase := (up_phase s)(t := Upgrading), up_gate := g, up_now := up_now s\<rparr>"]
        by (auto intro: converse_rtranclp_into_rtranclp)
    next
      case False
      then show ?thesis
        using up_step.skip[OF assms(1) Claimed, of "up_now s" "up_now s" "[]" g] g assms(1)
          rel[of "s\<lparr>up_phase := (up_phase s)(t := Releasing), up_gate := g, up_now := up_now s\<rparr>"]
        by (auto intro: converse_rtranclp_into_rtranclp)
    qed
  qed (use assms upg rel in auto)
qed

text \<open>
  C19. In every reachable state of any number of concurrent controllers, at most one is past the
  guard, so two upgrades never run at once; the guard is up exactly when one of them is; and it can
  never get stuck: as long as the process runs, a state with the guard down can be reached.
\<close>
theorem one_upgrade_at_a_time:
  assumes "up_reachable s"
  shows "(\<forall>t u. up_phase s t \<noteq> Outside \<and> up_phase s u \<noteq> Outside \<longrightarrow> t = u)
    \<and> (up_flag s \<longleftrightarrow> (\<exists>t. up_phase s t \<noteq> Outside))
    \<and> (\<not> up_exited s \<longrightarrow> (\<exists>s'. up_step\<^sup>*\<^sup>* s s' \<and> \<not> up_flag s'))"
proof -
  have owned: "up_owned s" using assms by (rule up_owned_invariant)
  then have one: "\<forall>t u. up_phase s t \<noteq> Outside \<and> up_phase s u \<noteq> Outside \<longrightarrow> t = u"
    and flag: "up_flag s \<longleftrightarrow> (\<exists>t. up_phase s t \<noteq> Outside)"
    unfolding up_owned_def up_busy_def by blast+
  have "\<exists>s'. up_step\<^sup>*\<^sup>* s s' \<and> \<not> up_flag s'" if "\<not> up_exited s"
    using that flag up_release_reachable[of s] by (cases "up_flag s") auto
  with one flag show ?thesis by blast
qed

theorem one_upgrade_at_a_time_witness:
  "\<exists>s. up_reachable s \<and> up_phase s 1 = Claimed \<and> (\<forall>t. t \<noteq> 1 \<longrightarrow> up_phase s t = Outside)"
proof -
  let ?s = "(up_start 0)\<lparr>up_flag := True, up_phase := (up_phase (up_start 0))(1 := Claimed)\<rparr>"
  have "up_step (up_start 0) ?s" by (rule up_step.claim) (simp_all add: up_start_def)
  then have "up_reachable ?s" by (auto simp: up_reachable_def)
  have claimed: "up_phase ?s 1 = Claimed" by simp
  have "up_phase ?s t = Outside" if "t \<noteq> 1" for t
    using conjunct1[OF one_upgrade_at_a_time[OF \<open>up_reachable ?s\<close>]] claimed that phase.distinct(1) by metis
  with \<open>up_reachable ?s\<close> claimed show ?thesis by blast
qed

end
