(* ===== verification/NetIP.thy ===== *)
theory NetIP
  imports Host
begin

unbundle bit_operations_syntax

text \<open>
  The part of Go's \<open>net\<close> package the agent uses: \<open>net.ParseIP\<close>, \<open>net.ParseCIDR\<close> and
  \<open>IPNet.String\<close>, for IPv4 and IPv6. Addresses are 128-bit words, an IPv4 address \<open>a\<close> being
  \<open>::ffff:a\<close>; a network is its (masked) address, its prefix length and the width of the address
  family it was written in.
\<close>

section \<open>IPv4 text\<close>

definition is_dec :: "char \<Rightarrow> bool" where
  "is_dec c \<longleftrightarrow> 48 \<le> (of_char c :: nat) \<and> of_char c \<le> (57 :: nat)"

text \<open>A decimal octet: digits, no leading zero, at most 255.\<close>

definition parse_octet :: "string \<Rightarrow> int option" where
  "parse_octet s =
     (if s \<noteq> [] \<and> list_all is_dec s \<and> length s \<le> 3 \<and> (length s = 1 \<or> hd s \<noteq> CHR ''0'') \<and> int (dec_val 0 s) \<le> 255
      then Some (int (dec_val 0 s)) else None)"

definition parse_v4 :: "string \<Rightarrow> int option" where
  "parse_v4 s =
     (case map parse_octet (Split s (CHR ''.'')) of
        [Some a, Some b, Some c, Some d] \<Rightarrow> Some (((a * 256 + b) * 256 + c) * 256 + d)
      | _ \<Rightarrow> None)"

definition v4_string :: "int \<Rightarrow> string" where
  "v4_string n = Join (map (\<lambda>k. nat_str (nat k)) [n div 2 ^ 24 mod 256, n div 2 ^ 16 mod 256, n div 2 ^ 8 mod 256, n mod 256]) ''.''"

section \<open>IPv6 text\<close>

definition hex_digit :: "char \<Rightarrow> int option" where
  "hex_digit c =
     (let n = (of_char c :: int)
      in if 48 \<le> n \<and> n \<le> 57 then Some (n - 48)
         else if 97 \<le> n \<and> n \<le> 102 then Some (n - 87)
         else if 65 \<le> n \<and> n \<le> 70 then Some (n - 55)
         else None)"

fun hex_val :: "int \<Rightarrow> string \<Rightarrow> int" where
  "hex_val n [] = n"
| "hex_val n (c # s) = hex_val (16 * n + (case hex_digit c of None \<Rightarrow> 0 | Some d \<Rightarrow> d)) s"

text \<open>
  The groups of an address after its optional leading \<open>::\<close>; \<open>gs\<close> are the groups read so far,
  \<open>ell\<close> the position of the \<open>::\<close>. A group has one to four hexadecimal digits; the last two may be
  written as an IPv4 address. The first argument bounds the number of groups.
\<close>

fun v6_groups :: "nat \<Rightarrow> string \<Rightarrow> int list \<Rightarrow> nat option \<Rightarrow> (int list \<times> nat option) option" where
  "v6_groups 0 s gs ell = (if s = [] then Some (gs, ell) else None)"
| "v6_groups (Suc n) s gs ell =
     (let ds = takeWhile (\<lambda>c. hex_digit c \<noteq> None) s; rest = drop (length ds) s
      in if ds = [] \<or> length ds > 4 then None
         else if rest \<noteq> [] \<and> hd rest = CHR ''.'' then
           (if (ell = None \<and> length gs \<noteq> 6) \<or> length gs > 6 then None
            else (case parse_v4 s of
                    None \<Rightarrow> None
                  | Some a \<Rightarrow> Some (gs @ [a div 65536, a mod 65536], ell)))
         else (let gs' = gs @ [hex_val 0 ds]
               in case rest of
                    [] \<Rightarrow> Some (gs', ell)
                  | c # rest' \<Rightarrow>
                      if c \<noteq> CHR '':'' \<or> rest' = [] then None
                      else if hd rest' = CHR '':'' then
                        (if ell \<noteq> None then None
                         else if tl rest' = [] then Some (gs', Some (length gs'))
                         else v6_groups n (tl rest') gs' (Some (length gs')))
                      else v6_groups n rest' gs' ell))"

definition v6_value :: "int list \<Rightarrow> int" where
  "v6_value gs = foldl (\<lambda>n g. n * 65536 + g) 0 gs"

definition parse_v6 :: "string \<Rightarrow> int option" where
  "parse_v6 s =
     (if s = ''::'' then Some 0
      else (let lead = (take 2 s = ''::'');
                r = (if lead then v6_groups 8 (drop 2 s) [] (Some 0) else v6_groups 8 s [] None)
            in case r of
                 None \<Rightarrow> None
               | Some (gs, None) \<Rightarrow> if length gs = 8 then Some (v6_value gs) else None
               | Some (gs, Some e) \<Rightarrow>
                   if length gs < 8
                   then Some (v6_value (take e gs @ replicate (8 - length gs) 0 @ drop e gs))
                   else None))"

section \<open>Addresses\<close>

text \<open>\<open>netip.ParseAddr\<close> without a zone; the flag says whether it is an IPv4 address.\<close>

definition parse_addr :: "string \<Rightarrow> (bool \<times> int) option" where
  "parse_addr s =
     (case find (\<lambda>c. c = CHR ''.'' \<or> c = CHR '':'' \<or> c = CHR ''%'') s of
        Some c \<Rightarrow> (if CHR ''%'' \<in> set s then None
                   else if c = CHR ''.'' then map_option (Pair True) (parse_v4 s)
                   else map_option (Pair False) (parse_v6 s))
      | None \<Rightarrow> None)"

definition v4_prefix :: int where "v4_prefix = 65535 * 2 ^ 32"

definition ParseIP :: "string \<Rightarrow> ip option" where
  "ParseIP s = map_option (\<lambda>(v4, n). of_int (if v4 then v4_prefix + n else n)) (parse_addr s)"

definition To4 :: "ip \<Rightarrow> int option" where
  "To4 a = (if uint a div 2 ^ 32 = 65535 then Some (uint a mod 2 ^ 32) else None)"

definition IsUnspecified :: "ip \<Rightarrow> bool" where
  "IsUnspecified a \<longleftrightarrow> a = 0 \<or> a = of_int v4_prefix"

text \<open>Clear the low \<open>k\<close> bits of an address.\<close>

definition clear_low :: "nat \<Rightarrow> ip \<Rightarrow> ip" where
  "clear_low k a = a AND NOT (mask k)"

text \<open>\<open>dtoi\<close>, then the test that all of the text was used: a nonempty decimal below \<open>0xFFFFFF\<close>.\<close>

definition parse_bits :: "string \<Rightarrow> nat option" where
  "parse_bits s = (if s \<noteq> [] \<and> list_all is_dec s \<and> int (dec_val 0 s) < 16777215 then Some (dec_val 0 s) else None)"

text \<open>\<open>net.ParseCIDR\<close>: the network, as address, prefix length and width.\<close>

definition ParseCIDR :: "string \<Rightarrow> ipnet option" where
  "ParseCIDR s =
     (if CHR ''/'' \<notin> set s then None
      else (let addr = takeWhile (\<lambda>c. c \<noteq> CHR ''/'') s; bits = drop (Suc (length addr)) s
            in case (parse_addr addr, parse_bits bits) of
                 (Some (v4, n), Some b) \<Rightarrow>
                   (let width = (if v4 then 32 else 128);
                        a = (of_int (if v4 then v4_prefix + n else n) :: ip)
                    in if b > width then None else Some (clear_low (width - b) a, b, width))
               | _ \<Rightarrow> None))"

section \<open>Printing\<close>

definition hex_char :: "int \<Rightarrow> char" where
  "hex_char d = (if d < 10 then char_of (nat (48 + d)) else char_of (nat (87 + d)))"

text \<open>A group of 16 bits in hexadecimal, without leading zeros.\<close>

definition hex_str :: "int \<Rightarrow> string" where
  "hex_str g =
     (let ds = dropWhile (\<lambda>d. d = 0) [g div 4096, g div 256 mod 16, g div 16 mod 16, g mod 16]
      in if ds = [] then ''0'' else map hex_char ds)"

definition v6_split :: "int \<Rightarrow> int list" where
  "v6_split n = map (\<lambda>i. n div 2 ^ (16 * (7 - i)) mod 65536) [0..<8]"

text \<open>The first longest run of zero groups, as start and length.\<close>

definition zero_run :: "int list \<Rightarrow> nat \<Rightarrow> nat" where
  "zero_run gs i = length (takeWhile (\<lambda>g. g = 0) (drop i gs))"

definition best_run :: "int list \<Rightarrow> nat \<times> nat" where
  "best_run gs = foldl (\<lambda>(s, l) i. if zero_run gs i > l then (i, zero_run gs i) else (s, l)) (0, 0) [0..<length gs]"

definition v6_string :: "int \<Rightarrow> string" where
  "v6_string n =
     (let gs = v6_split n; (s, l) = best_run gs
      in if l < 2 then Join (map hex_str gs) '':''
         else Join (map hex_str (take s gs)) '':'' @ ''::'' @ Join (map hex_str (drop (s + l) gs)) '':'')"

definition IP_String :: "ip \<Rightarrow> string" where
  "IP_String a = (case To4 a of Some n \<Rightarrow> v4_string n | None \<Rightarrow> v6_string (uint a))"

text \<open>
  \<open>IPNet.String\<close>: a network whose address has an IPv4 form prints in it, with the part of the mask
  that covers it.
\<close>

definition IPNet_String :: "ipnet \<Rightarrow> string" where
  "IPNet_String net =
     (case net of (a, b, width) \<Rightarrow>
        (let ones = (if width = 128 \<and> To4 a \<noteq> None then b - 96 else b)
         in IP_String a @ ''/'' @ nat_str ones))"

end
