(* ===== verification/WgEngine.thy ===== *)
theory WgEngine
  imports NetIP Interfaces Extras
begin

text \<open>
  \<open>src/wg/engine.go\<close>: the WireGuard devices of the kernel. This theory holds the definitions, one
  per Go type and function.

  \<open>netlink\<close> and \<open>wgctrl\<close> are outside packages. What they do to the kernel are calls of the host;
  what they compute from their arguments alone is the parameter \<open>L\<close> of type \<open>wg_lib\<close>. The errors of
  this package are only ever logged, so an error is a constructor per \<open>fmt.Errorf\<close> with the
  message of the wrapped error.
\<close>

section \<open>Data\<close>

record wg_peer =
  wp_PublicKey :: string
  wp_PresharedKey :: string
  wp_AllowedIPs :: string
  wp_PersistentKeepalive :: int

record wg_interface =
  if_Name :: string
  if_PrivateKey :: string
  if_ListenPort :: int
  if_Address :: string
  if_MTU :: int
  if_Masquerade :: bool
  if_EgressInterface :: string
  if_NATSubnets :: string
  if_PolicyRoutes :: string
  if_Extras :: extras
  if_Peers :: "wg_peer list"

record peer_stat =
  st_PublicKey :: string
  st_LastHandshake :: "int option"
  st_RxBytes :: int
  st_TxBytes :: int
  st_Endpoint :: string

text \<open>\<open>wgtypes.ParseKey\<close>, \<open>Key.String\<close> and \<open>netlink.ParseAddr\<close>.\<close>

record wg_lib =
  lib_ParseKey :: "string \<Rightarrow> key go_result"
  lib_KeyString :: "key \<Rightarrow> string"
  lib_ParseAddr :: "string \<Rightarrow> string go_result"

datatype wg_error =
    CreateLink string string
  | BadAddress string string
  | AssignAddress string
  | BringUp string
  | BadPrivateKey string
  | OpenWgctrl string
  | ConfigureFailed string string
  | ReadDevice string string
  | BadPublicKey string
  | BadAllowedIP string
  | BadPresharedKey string
  | ConfigurePeers string string

section \<open>Links\<close>

definition wg_wrap :: "(string \<Rightarrow> wg_error) \<Rightarrow> go_error \<Rightarrow> wg_error option" where
  "wg_wrap f e = map_option f e"

definition link_of :: "'w sys \<Rightarrow> string \<Rightarrow> int \<Rightarrow> ('w, 'm, wg_error + link) prog" where
  "link_of S name mtu = do {
     r \<leftarrow> do_call S (LinkByName name);
     if rerr r = nil then State_Monad.return (Inr (FoundLink (rnum r)))
     else do {
       a \<leftarrow> do_call S (LinkAdd name (if mtu > 0 then Some mtu else None));
       State_Monad.return (case rerr a of
         Some e \<Rightarrow> Inl (CreateLink name e)
       | None \<Rightarrow> Inr (NewLink name)) } }"

definition EnsureLink ::
  "wg_lib \<Rightarrow> 'w sys \<Rightarrow> string \<Rightarrow> string \<Rightarrow> int \<Rightarrow> ('w, 'm, wg_error option) prog" where
  "EnsureLink L S name address mtu = do {
     l \<leftarrow> link_of S name mtu;
     (case l of
        Inl e \<Rightarrow> State_Monad.return (Some e)
      | Inr link \<Rightarrow>
          (case lib_ParseAddr L address of
             Inl e \<Rightarrow> State_Monad.return (Some (BadAddress address e))
           | Inr addr \<Rightarrow> do {
               r \<leftarrow> do_call S (AddrReplace link addr);
               if rerr r \<noteq> nil then State_Monad.return (wg_wrap AssignAddress (rerr r))
               else do {
                 u \<leftarrow> do_call S (LinkSetUp link);
                 State_Monad.return (wg_wrap BringUp (rerr u)) } })) }"

definition RemoveLink :: "'w sys \<Rightarrow> string \<Rightarrow> ('w, 'm, go_error) prog" where
  "RemoveLink S name = do {
     r \<leftarrow> do_call S (LinkByName name);
     if rerr r \<noteq> nil then State_Monad.return nil
     else do {
       d \<leftarrow> do_call S (LinkDel (FoundLink (rnum r)));
       State_Monad.return (rerr d) } }"

section \<open>Peers\<close>

fun cidr_list :: "string list \<Rightarrow> wg_error + ipnet list" where
  "cidr_list [] = Inr []"
| "cidr_list (raw # parts) =
     (let s = TrimSpace raw
      in if s = [] then cidr_list parts
         else (case ParseCIDR s of
                 None \<Rightarrow> Inl (BadAllowedIP s)
               | Some net \<Rightarrow> map_sum id (Cons net) (cidr_list parts)))"

definition parseCIDRList :: "string \<Rightarrow> wg_error + ipnet list" where
  "parseCIDRList list = cidr_list (Split list (CHR '',''))"

text \<open>\<open>time.Duration(n) * time.Second\<close>, a product of 64-bit integers.\<close>

definition seconds :: "int \<Rightarrow> int" where
  "seconds n = sint (of_int (n * 1000000000) :: 64 word)"

definition preshared :: "wg_lib \<Rightarrow> string \<Rightarrow> wg_error + key option" where
  "preshared L s =
     (if s = [] then Inr None
      else (case lib_ParseKey L s of Inl e \<Rightarrow> Inl (BadPresharedKey e) | Inr k \<Rightarrow> Inr (Some k)))"

definition buildPeerConfig :: "wg_lib \<Rightarrow> wg_peer \<Rightarrow> wg_error + peer_config" where
  "buildPeerConfig L p =
     (case lib_ParseKey L (wp_PublicKey p) of
        Inl e \<Rightarrow> Inl (BadPublicKey e)
      | Inr pub \<Rightarrow>
          (case parseCIDRList (wp_AllowedIPs p) of
             Inl e \<Rightarrow> Inl e
           | Inr allowed \<Rightarrow>
               (case preshared L (wp_PresharedKey p) of
                  Inl e \<Rightarrow> Inl e
                | Inr psk \<Rightarrow> Inr
                    \<lparr>pc_PublicKey = pub, pc_Remove = False, pc_PresharedKey = psk,
                     pc_PersistentKeepalive =
                       (if wp_PersistentKeepalive p > 0 then Some (seconds (wp_PersistentKeepalive p)) else None),
                     pc_ReplaceAllowedIPs = True, pc_AllowedIPs = allowed\<rparr>)))"

text \<open>The loop over the wanted peers; the first bad one ends it.\<close>

fun peer_configs :: "wg_lib \<Rightarrow> wg_peer list \<Rightarrow> wg_error + peer_config list" where
  "peer_configs L [] = Inr []"
| "peer_configs L (p # ps) =
     (case buildPeerConfig L p of
        Inl e \<Rightarrow> Inl e
      | Inr pc \<Rightarrow> map_sum id (Cons pc) (peer_configs L ps))"

definition removal :: "key \<Rightarrow> peer_config" where
  "removal k = \<lparr>pc_PublicKey = k, pc_Remove = True, pc_PresharedKey = None, pc_PersistentKeepalive = None,
     pc_ReplaceAllowedIPs = False, pc_AllowedIPs = []\<rparr>"

text \<open>
  The loop over \<open>current\<close>, the set of the printed keys on the device; \<open>ord\<close> is the order in which
  Go ranges over that map.
\<close>

definition current_keys :: "wg_lib \<Rightarrow> device_peer list \<Rightarrow> string list" where
  "current_keys L peers = remdups (map (\<lambda>p. lib_KeyString L (dp_PublicKey p)) peers)"

definition undesired :: "string list \<Rightarrow> wg_peer list \<Rightarrow> string list" where
  "undesired pubs peers = filter (\<lambda>pub. pub \<notin> set (map wp_PublicKey peers)) pubs"

definition removals :: "wg_lib \<Rightarrow> string list \<Rightarrow> peer_config list" where
  "removals L pubs =
     concat (map (\<lambda>pub. case lib_ParseKey L pub of Inl e \<Rightarrow> [] | Inr k \<Rightarrow> [removal k]) pubs)"

section \<open>Reconciling a device\<close>

text \<open>The second half of \<open>Reconcile\<close>, from the current peers on.\<close>

definition sync_peers ::
  "wg_lib \<Rightarrow> 'w sys \<Rightarrow> (string list \<Rightarrow> string list) \<Rightarrow> wg_interface \<Rightarrow> device_peer list
   \<Rightarrow> ('w, 'm, wg_error option) prog" where
  "sync_peers L S ord iface peers =
     (case peer_configs L (if_Peers iface) of
        Inl e \<Rightarrow> State_Monad.return (Some e)
      | Inr wanted \<Rightarrow>
          (let configs = wanted @ removals L (undesired (ord (current_keys L peers)) (if_Peers iface))
           in if length configs > 0 then do {
                r \<leftarrow> do_call S (ConfigureDevice (if_Name iface)
                  \<lparr>dc_PrivateKey = None, dc_ListenPort = None, dc_ReplacePeers = False, dc_Peers = configs\<rparr>);
                State_Monad.return (wg_wrap (ConfigurePeers (if_Name iface)) (rerr r)) }
              else State_Monad.return None))"

definition wg_Reconcile ::
  "wg_lib \<Rightarrow> 'w sys \<Rightarrow> (string list \<Rightarrow> string list) \<Rightarrow> wg_interface \<Rightarrow> ('w, 'm, wg_error option) prog" where
  "wg_Reconcile L S ord iface = do {
     e \<leftarrow> EnsureLink L S (if_Name iface) (if_Address iface) (if_MTU iface);
     if e \<noteq> None then State_Monad.return e
     else (case lib_ParseKey L (if_PrivateKey iface) of
       Inl m \<Rightarrow> State_Monad.return (Some (BadPrivateKey m))
     | Inr priv \<Rightarrow> do {
         c \<leftarrow> do_call S WgctrlNew;
         if rerr c \<noteq> nil then State_Monad.return (wg_wrap OpenWgctrl (rerr c))
         else do {
           r \<leftarrow> do_call S (ConfigureDevice (if_Name iface)
             \<lparr>dc_PrivateKey = Some priv, dc_ListenPort = Some (if_ListenPort iface),
              dc_ReplacePeers = False, dc_Peers = []\<rparr>);
           if rerr r \<noteq> nil then State_Monad.return (wg_wrap (ConfigureFailed (if_Name iface)) (rerr r))
           else do {
             d \<leftarrow> do_call S (Device (if_Name iface));
             if rerr d \<noteq> nil then State_Monad.return (wg_wrap (ReadDevice (if_Name iface)) (rerr d))
             else sync_peers L S ord iface (rpeers d) } } }) }"

definition peer_stat_of :: "wg_lib \<Rightarrow> device_peer \<Rightarrow> peer_stat" where
  "peer_stat_of L p =
     \<lparr>st_PublicKey = lib_KeyString L (dp_PublicKey p), st_LastHandshake = dp_LastHandshake p,
      st_RxBytes = dp_ReceiveBytes p, st_TxBytes = dp_TransmitBytes p,
      st_Endpoint = (case dp_Endpoint p of None \<Rightarrow> [] | Some a \<Rightarrow> a)\<rparr>"

definition DeviceStats ::
  "wg_lib \<Rightarrow> 'w sys \<Rightarrow> string \<Rightarrow> ('w, 'm, wg_error + peer_stat list) prog" where
  "DeviceStats L S name = do {
     c \<leftarrow> do_call S WgctrlNew;
     (case rerr c of
        Some e \<Rightarrow> State_Monad.return (Inl (OpenWgctrl e))
      | None \<Rightarrow> do {
          d \<leftarrow> do_call S (Device name);
          State_Monad.return (case rerr d of
            Some e \<Rightarrow> Inl (ReadDevice name e)
          | None \<Rightarrow> Inr (map (peer_stat_of L) (rpeers d))) }) }"

end
