(* ===== verification/WgPeers.thy ===== *)
theory WgPeers
  imports WgEngine
begin

text \<open>
  What a sync of a WireGuard device does to its peers. The kernel and \<open>wgctrl\<close> are outside the
  repository: \<open>wgctrl_ok S D\<close> says what their documentation promises, \<open>D w name\<close> being the peers of
  a device by public key. A peer configuration changes the settings it carries and leaves the
  others; an allowed IP moves to the peer it is configured on last.
\<close>

section \<open>The documented device\<close>

record peer_state =
  ps_Preshared :: "key option"
  ps_Keepalive :: "int option"
  ps_Allowed :: "ipnet list"

type_synonym peer_table = "key \<Rightarrow> peer_state option"

definition set_peer :: "peer_config \<Rightarrow> peer_state option \<Rightarrow> peer_state" where
  "set_peer pc old =
     (let s = (case old of None \<Rightarrow> \<lparr>ps_Preshared = None, ps_Keepalive = None, ps_Allowed = []\<rparr> | Some s \<Rightarrow> s)
      in \<lparr>ps_Preshared = (case pc_PresharedKey pc of None \<Rightarrow> ps_Preshared s | Some k \<Rightarrow> Some k),
          ps_Keepalive = (case pc_PersistentKeepalive pc of None \<Rightarrow> ps_Keepalive s | Some n \<Rightarrow> Some n),
          ps_Allowed = (if pc_ReplaceAllowedIPs pc then [] else ps_Allowed s) @ pc_AllowedIPs pc\<rparr>)"

definition lose_ips :: "ipnet list \<Rightarrow> peer_state \<Rightarrow> peer_state" where
  "lose_ips ips s = s\<lparr>ps_Allowed := filter (\<lambda>n. n \<notin> set ips) (ps_Allowed s)\<rparr>"

definition apply_peer :: "peer_config \<Rightarrow> peer_table \<Rightarrow> peer_table" where
  "apply_peer pc T =
     (\<lambda>k. if k = pc_PublicKey pc then (if pc_Remove pc then None else Some (set_peer pc (T k)))
          else map_option (lose_ips (pc_AllowedIPs pc)) (T k))"

fun changes_peers :: "call \<Rightarrow> bool" where
  "changes_peers (ConfigureDevice _ _) = True"
| "changes_peers (LinkDel _) = True"
| "changes_peers (Exec _ _) = True"
| "changes_peers (ReExec _) = True"
| "changes_peers (StartProcess _ _) = True"
| "changes_peers (KillProcess _) = True"
| "changes_peers _ = False"

definition wgctrl_ok :: "'w sys \<Rightarrow> ('w \<Rightarrow> string \<Rightarrow> peer_table) \<Rightarrow> bool" where
  "wgctrl_ok S D \<longleftrightarrow>
     (\<forall>w name cfg. rerr (fst (S (ConfigureDevice name cfg) w)) = None \<and> \<not> dc_ReplacePeers cfg \<longrightarrow>
        D (snd (S (ConfigureDevice name cfg) w)) name = fold apply_peer (dc_Peers cfg) (D w name))
   \<and> (\<forall>w name. rerr (fst (S (Device name) w)) = None \<longrightarrow>
        dp_PublicKey ` set (rpeers (fst (S (Device name) w))) = dom (D w name))
   \<and> (\<forall>w name k. k \<in> dom (D w name) \<longrightarrow> length k = 32)
   \<and> (\<forall>w cl. \<not> changes_peers cl \<longrightarrow> D (snd (S cl w)) = D w)"

text \<open>A key is 32 bytes, and \<open>ParseKey\<close> reads what \<open>String\<close> prints.\<close>

definition key_lib_ok :: "wg_lib \<Rightarrow> bool" where
  "key_lib_ok L \<longleftrightarrow>
     (\<forall>k. length k = 32 \<longrightarrow> lib_ParseKey L (lib_KeyString L k) = Inr k)
   \<and> (\<forall>s k. lib_ParseKey L s = Inr k \<longrightarrow> length k = 32)"

definition canonical_key :: "wg_lib \<Rightarrow> string \<Rightarrow> bool" where
  "canonical_key L s \<longleftrightarrow> (case lib_ParseKey L s of Inl e \<Rightarrow> False | Inr k \<Rightarrow> lib_KeyString L k = s)"

section \<open>A batch of peer configurations\<close>

definition settings :: "peer_state \<Rightarrow> key option \<times> int option" where
  "settings s = (ps_Preshared s, ps_Keepalive s)"

lemma settings_lose_ips [simp]: "settings (lose_ips ips s) = settings s"
  by (simp add: settings_def lose_ips_def)

lemma apply_peer_same:
  "\<not> pc_Remove c \<Longrightarrow> apply_peer c T (pc_PublicKey c) = Some (set_peer c (T (pc_PublicKey c)))"
  by (simp add: apply_peer_def)

lemma settings_apply_other:
  "k \<noteq> pc_PublicKey pc \<Longrightarrow> map_option settings (apply_peer pc T k) = map_option settings (T k)"
  by (cases "T k") (simp_all add: apply_peer_def)

lemma settings_fold_other:
  "k \<notin> pc_PublicKey ` set cs \<Longrightarrow> map_option settings (fold apply_peer cs T k) = map_option settings (T k)"
  by (induction cs arbitrary: T) (auto simp: settings_apply_other)

lemma settings_set_peer_cong:
  "map_option settings s = map_option settings t \<Longrightarrow> settings (set_peer pc s) = settings (set_peer pc t)"
  by (cases s; cases t) (auto simp: set_peer_def settings_def split: option.splits)

text \<open>The settings of a peer that is configured once in a batch.\<close>

lemma settings_fold:
  assumes "c \<in> set cs" "distinct (map pc_PublicKey cs)" "\<not> pc_Remove c"
  shows "map_option settings (fold apply_peer cs T (pc_PublicKey c)) = Some (settings (set_peer c (T (pc_PublicKey c))))"
  using assms
proof (induction cs arbitrary: T)
  case (Cons d cs)
  show ?case
  proof (cases "d = c")
    case True
    then have "pc_PublicKey c \<notin> pc_PublicKey ` set cs" using Cons.prems by auto
    then show ?thesis
      using True Cons.prems(3) settings_fold_other[of "pc_PublicKey c" cs "apply_peer c T"]
      by (simp add: apply_peer_same)
  next
    case False
    then have c: "c \<in> set cs" and d: "pc_PublicKey c \<noteq> pc_PublicKey d"
      using Cons.prems by (auto simp: image_iff)
    have "map_option settings (fold apply_peer cs (apply_peer d T) (pc_PublicKey c))
        = Some (settings (set_peer c (apply_peer d T (pc_PublicKey c))))"
      using Cons.IH[OF c] Cons.prems by simp
    also have "\<dots> = Some (settings (set_peer c (T (pc_PublicKey c))))"
      using settings_set_peer_cong[OF settings_apply_other[OF d, of T]] by simp
    finally show ?thesis by simp
  qed
qed simp

text \<open>Its allowed IPs, when no later configuration of the batch takes one of them.\<close>

lemma allowed_fold_keeps:
  assumes "T k = Some s" "set (ps_Allowed s) \<inter> (\<Union>c \<in> set cs. set (pc_AllowedIPs c)) = {}"
    and "k \<notin> pc_PublicKey ` set cs"
  shows "map_option ps_Allowed (fold apply_peer cs T k) = Some (ps_Allowed s)"
  using assms
proof (induction cs arbitrary: T s)
  case (Cons d cs)
  have "filter (\<lambda>n. n \<notin> set (pc_AllowedIPs d)) (ps_Allowed s) = ps_Allowed s"
    using Cons.prems(2) by (auto simp: filter_id_conv)
  then have "apply_peer d T k = Some (lose_ips (pc_AllowedIPs d) s)" "ps_Allowed (lose_ips (pc_AllowedIPs d) s) = ps_Allowed s"
    using Cons.prems by (auto simp: apply_peer_def lose_ips_def)
  with Cons.IH[of "apply_peer d T" "lose_ips (pc_AllowedIPs d) s"] Cons.prems show ?case by auto
qed simp

definition disjoint_ips :: "peer_config list \<Rightarrow> bool" where
  "disjoint_ips cs \<longleftrightarrow>
     sorted_wrt (\<lambda>c d. set (pc_AllowedIPs c) \<inter> set (pc_AllowedIPs d) = {}) cs"

lemma allowed_fold:
  assumes "c \<in> set cs" "distinct (map pc_PublicKey cs)" "\<not> pc_Remove c" "pc_ReplaceAllowedIPs c" "disjoint_ips cs"
  shows "map_option ps_Allowed (fold apply_peer cs T (pc_PublicKey c)) = Some (pc_AllowedIPs c)"
  using assms
proof (induction cs arbitrary: T)
  case (Cons d cs)
  show ?case
  proof (cases "d = c")
    case True
    then have "pc_PublicKey c \<notin> pc_PublicKey ` set cs" using Cons.prems by auto
    then show ?thesis
      using True Cons.prems(3,4,5)
        allowed_fold_keeps[of "apply_peer c T" "pc_PublicKey c" "set_peer c (T (pc_PublicKey c))" cs]
      by (auto simp: apply_peer_same set_peer_def disjoint_ips_def Let_def)
  next
    case False
    then show ?thesis using Cons by (auto simp: disjoint_ips_def)
  qed
qed simp

lemma dom_fold:
  "\<forall>c \<in> set cs. \<not> pc_Remove c \<Longrightarrow> dom (fold apply_peer cs T) = dom T \<union> pc_PublicKey ` set cs"
proof (induction cs arbitrary: T)
  case (Cons c cs)
  have "dom (apply_peer c T) = insert (pc_PublicKey c) (dom T)"
    using Cons.prems by (auto simp: apply_peer_def split: if_splits)
  with Cons show ?case by auto
qed simp

lemma apply_removal: "apply_peer (removal k) T = T(k := None)"
  by (auto simp: apply_peer_def removal_def lose_ips_def map_option_case fun_eq_iff split: option.splits)

lemma fold_removals: "fold apply_peer (map removal ks) T = T |` (- set ks)"
  by (induction ks arbitrary: T) (auto simp: apply_removal restrict_map_def fun_eq_iff)

section \<open>What is configured\<close>

lemma buildPeerConfig_Inr:
  "buildPeerConfig L p = Inr c \<Longrightarrow>
     lib_ParseKey L (wp_PublicKey p) = Inr (pc_PublicKey c) \<and> \<not> pc_Remove c \<and> pc_ReplaceAllowedIPs c"
  by (auto simp: buildPeerConfig_def split: sum.splits)

lemma map_sum_Cons_Inr: "map_sum id (Cons x) r = Inr ys \<longleftrightarrow> (\<exists>xs. r = Inr xs \<and> ys = x # xs)"
  by (cases r) auto

lemma peer_configs_Inr:
  "peer_configs L ps = Inr cs \<longleftrightarrow> list_all2 (\<lambda>p c. buildPeerConfig L p = Inr c) ps cs"
proof (induction ps arbitrary: cs)
  case (Cons p ps)
  show ?case
    by (cases "buildPeerConfig L p") (simp_all add: list_all2_Cons1 map_sum_Cons_Inr Cons.IH, blast)
qed auto

text \<open>The printed keys a sync takes away: those on the device that are no wanted key.\<close>

interpretation device_keys: stale_plan set "\<lambda>peers. set (map wp_PublicKey peers)" undesired
  by unfold_locales (auto simp: undesired_def)

lemma configs_built:
  "list_all2 (\<lambda>p c. buildPeerConfig L p = Inr c) ps cs \<Longrightarrow> p \<in> set ps \<Longrightarrow> \<exists>c \<in> set cs. buildPeerConfig L p = Inr c"
  by (induction rule: list_all2_induct) auto

lemma removals_parsed:
  assumes "\<forall>pub \<in> set pubs. lib_ParseKey L pub \<in> range Inr"
  shows "removals L pubs = map removal (map (\<lambda>pub. projr (lib_ParseKey L pub)) pubs)"
  using assms by (induction pubs) (auto simp: removals_def)

lemma configs_print:
  assumes "list_all2 (\<lambda>p c. buildPeerConfig L p = Inr c) ps cs"
    and "\<forall>p \<in> set ps. canonical_key L (wp_PublicKey p)"
  shows "map (\<lambda>c. lib_KeyString L (pc_PublicKey c)) cs = map wp_PublicKey ps"
  using assms by (induction rule: list_all2_induct) (auto simp: canonical_key_def dest: buildPeerConfig_Inr)

lemma configs_plain:
  assumes "list_all2 (\<lambda>p c. buildPeerConfig L p = Inr c) ps cs" "c \<in> set cs"
  shows "\<exists>p \<in> set ps. lib_ParseKey L (wp_PublicKey p) = Inr (pc_PublicKey c)"
    and "\<not> pc_Remove c" and "pc_ReplaceAllowedIPs c"
  using assms by (induction rule: list_all2_induct) (auto dest: buildPeerConfig_Inr)

section \<open>A sync of the device\<close>

lemma wgctrl_frame: "wgctrl_ok S D \<Longrightarrow> \<not> changes_peers cl \<Longrightarrow> D (snd (S cl w)) = D w"
  by (simp add: wgctrl_ok_def)

lemma wgctrl_configure:
  "wgctrl_ok S D \<Longrightarrow> rerr (fst (S (ConfigureDevice name cfg) w)) = None \<Longrightarrow> \<not> dc_ReplacePeers cfg
   \<Longrightarrow> D (snd (S (ConfigureDevice name cfg) w)) name = fold apply_peer (dc_Peers cfg) (D w name)"
  by (simp add: wgctrl_ok_def)

lemma wgctrl_keys: "wgctrl_ok S D \<Longrightarrow> k \<in> dom (D w name) \<Longrightarrow> length k = 32"
  by (simp add: wgctrl_ok_def)

lemma EnsureLink_frame:
  "wgctrl_ok S D \<Longrightarrow> D (world (after (EnsureLink L S name address mtu) h)) = D (world h)"
  by (auto simp: EnsureLink_def link_of_def run_do_call wgctrl_frame split: sum.splits option.splits)

lemma sync_peers_effect:
  assumes "wgctrl_ok S D" "result (sync_peers L S ord iface peers) h = None"
  shows "\<exists>cs. peer_configs L (if_Peers iface) = Inr cs
    \<and> D (world (after (sync_peers L S ord iface peers) h)) (if_Name iface)
        = fold apply_peer (cs @ removals L (undesired (ord (current_keys L peers)) (if_Peers iface)))
            (D (world h) (if_Name iface))"
proof -
  from assms(2) obtain cs where cs: "peer_configs L (if_Peers iface) = Inr cs"
    by (auto simp: sync_peers_def split: sum.splits)
  show ?thesis
    using assms(2) unfolding sync_peers_def cs sum.case Let_def
    by (auto simp: run_do_call wg_wrap_def wgctrl_configure[OF assms(1)])
qed

lemma wg_Reconcile_effect:
  assumes "wgctrl_ok S D" "result (wg_Reconcile L S ord iface) h = None"
  shows "\<exists>cs peers. peer_configs L (if_Peers iface) = Inr cs
    \<and> dp_PublicKey ` set peers = dom (D (world h) (if_Name iface))
    \<and> D (world (after (wg_Reconcile L S ord iface) h)) (if_Name iface)
        = fold apply_peer (cs @ removals L (undesired (ord (current_keys L peers)) (if_Peers iface)))
            (D (world h) (if_Name iface))"
proof -
  let ?n = "if_Name iface"
  obtain e h1 where e: "run_state (EnsureLink L S ?n (if_Address iface) (if_MTU iface)) h = (e, h1)" by fastforce
  then have D1: "D (world h1) = D (world h)"
    using EnsureLink_frame[OF assms(1), of L ?n "if_Address iface" "if_MTU iface" h] by simp
  from assms(2) e have e0: "e = None" by (cases e) (auto simp: wg_Reconcile_def)
  from assms(2) e e0 obtain priv where priv: "lib_ParseKey L (if_PrivateKey iface) = Inr priv"
    by (cases "lib_ParseKey L (if_PrivateKey iface)") (auto simp: wg_Reconcile_def)
  let ?cfg = "\<lparr>dc_PrivateKey = Some priv, dc_ListenPort = Some (if_ListenPort iface),
              dc_ReplacePeers = False, dc_Peers = []\<rparr>"
  let ?w1 = "snd (S WgctrlNew (world h1))"
  let ?w2 = "snd (S (ConfigureDevice ?n ?cfg) ?w1)"
  let ?d = "S (Device ?n) ?w2"
  let ?h = "h1\<lparr>world := snd ?d, trace := ((trace h1 @ [WgctrlNew]) @ [ConfigureDevice ?n ?cfg]) @ [Device ?n]\<rparr>"
  have oks: "rerr (fst (S (ConfigureDevice ?n ?cfg) ?w1)) = None" "rerr (fst ?d) = None"
    and run: "run_state (wg_Reconcile L S ord iface) h = run_state (sync_peers L S ord iface (rpeers (fst ?d))) ?h"
    using assms(2) e e0 priv
    by (auto simp: wg_Reconcile_def run_do_call wg_wrap_def split: if_splits)
  have D2: "D (snd ?d) ?n = D (world h) ?n" "D ?w2 ?n = D (world h) ?n"
    using wgctrl_configure[OF assms(1) oks(1)] D1 wgctrl_frame[OF assms(1)] by simp_all
  have "dp_PublicKey ` set (rpeers (fst ?d)) = dom (D (world h) ?n)"
    using assms(1) oks(2) D2(2) unfolding wgctrl_ok_def by metis
  moreover have "result (sync_peers L S ord iface (rpeers (fst ?d))) ?h = None"
    using assms(2) run by simp
  from sync_peers_effect[OF assms(1) this]
  obtain cs where "peer_configs L (if_Peers iface) = Inr cs"
    "D (world (after (wg_Reconcile L S ord iface) h)) ?n
      = fold apply_peer (cs @ removals L (undesired (ord (current_keys L (rpeers (fst ?d)))) (if_Peers iface)))
          (D (world h) ?n)"
    using D2(1) run by auto
  ultimately show ?thesis by blast
qed

lemma key_string_inj:
  "key_lib_ok L \<Longrightarrow> length k = 32 \<Longrightarrow> length j = 32 \<Longrightarrow> lib_KeyString L k = lib_KeyString L j \<Longrightarrow> k = j"
  unfolding key_lib_ok_def by (metis sum.inject(2))

text \<open>The keys a sync removes, as keys.\<close>

lemma removed_keys:
  assumes "key_lib_ok L" "range_order ord" "\<forall>p \<in> set peers. length (dp_PublicKey p) = 32"
  shows "\<exists>ks. removals L (undesired (ord (current_keys L peers)) wanted) = map removal ks
    \<and> set ks = {k \<in> dp_PublicKey ` set peers. lib_KeyString L k \<notin> wp_PublicKey ` set wanted}"
proof -
  let ?pubs = "undesired (ord (current_keys L peers)) wanted"
  let ?ks = "map (\<lambda>pub. projr (lib_ParseKey L pub)) ?pubs"
  have parse: "lib_ParseKey L (lib_KeyString L (dp_PublicKey p)) = Inr (dp_PublicKey p)" if "p \<in> set peers" for p
    using assms(1,3) that by (simp add: key_lib_ok_def)
  have pubs: "set ?pubs = (\<lambda>p. lib_KeyString L (dp_PublicKey p)) ` set peers - wp_PublicKey ` set wanted"
    using device_keys.set_stale[of "ord (current_keys L peers)" wanted] range_order_set[OF assms(2)]
    by (simp add: current_keys_def)
  have "removals L ?pubs = map removal ?ks"
    by (rule removals_parsed) (use parse in \<open>auto simp: pubs\<close>)
  moreover have "set ?ks = (\<lambda>k. projr (lib_ParseKey L (lib_KeyString L k))) `
      {k \<in> dp_PublicKey ` set peers. lib_KeyString L k \<notin> wp_PublicKey ` set wanted}"
    unfolding set_map pubs by (auto simp: image_iff)
  moreover have "\<dots> = (\<lambda>k. k) ` {k \<in> dp_PublicKey ` set peers. lib_KeyString L k \<notin> wp_PublicKey ` set wanted}"
    by (rule image_cong) (use parse in auto)
  ultimately show ?thesis unfolding image_ident by blast
qed

lemma synced_table:
  assumes "wgctrl_ok S D" "key_lib_ok L" "range_order ord" "result (wg_Reconcile L S ord iface) h = None"
  shows "\<exists>cs ks. peer_configs L (if_Peers iface) = Inr cs
    \<and> set ks = {k \<in> dom (D (world h) (if_Name iface)). lib_KeyString L k \<notin> wp_PublicKey ` set (if_Peers iface)}
    \<and> D (world (after (wg_Reconcile L S ord iface) h)) (if_Name iface)
        = fold apply_peer cs (D (world h) (if_Name iface)) |` (- set ks)"
proof -
  let ?T = "D (world h) (if_Name iface)"
  from wg_Reconcile_effect[OF assms(1,4)] obtain cs peers
    where cs: "peer_configs L (if_Peers iface) = Inr cs" and peers: "dp_PublicKey ` set peers = dom ?T"
      and T': "D (world (after (wg_Reconcile L S ord iface) h)) (if_Name iface)
        = fold apply_peer (cs @ removals L (undesired (ord (current_keys L peers)) (if_Peers iface))) ?T"
    by blast
  have "\<forall>p \<in> set peers. length (dp_PublicKey p) = 32"
    using wgctrl_keys[OF assms(1)] peers by blast
  from removed_keys[OF assms(2,3) this, of "if_Peers iface"] obtain ks
    where "removals L (undesired (ord (current_keys L peers)) (if_Peers iface)) = map removal ks"
      and ks: "set ks = {k \<in> dom ?T. lib_KeyString L k \<notin> wp_PublicKey ` set (if_Peers iface)}"
    unfolding peers by blast
  with T' have "D (world (after (wg_Reconcile L S ord iface) h)) (if_Name iface)
      = fold apply_peer cs ?T |` (- set ks)"
    by (simp add: fold_removals)
  with cs ks show ?thesis by blast
qed

text \<open>
  C5. When every wanted key is spelled as \<open>Key.String\<close> prints it and a sync of a device
  succeeds, the device has exactly the wanted peers, in whatever order Go ranges over the current ones.
  If the wanted keys are distinct, a wanted peer has the preshared key and the keepalive of its config
  where the config sets them and keeps the old ones where it does not, and its allowed IPs are those of
  its config unless two peers claim one.
\<close>
theorem peers_converge:
  assumes "wgctrl_ok S D" and "key_lib_ok L" and "range_order ord"
    and "\<forall>p \<in> set (if_Peers iface). canonical_key L (wp_PublicKey p)"
    and "result (wg_Reconcile L S ord iface) h = None"
  shows "(let T = D (world h) (if_Name iface);
              T' = D (world (after (wg_Reconcile L S ord iface) h)) (if_Name iface)
     in dom T' = {k. length k = 32 \<and> lib_KeyString L k \<in> wp_PublicKey ` set (if_Peers iface)}
      \<and> (\<exists>cs. peer_configs L (if_Peers iface) = Inr cs
          \<and> (distinct (map wp_PublicKey (if_Peers iface)) \<longrightarrow>
               (\<forall>c \<in> set cs. map_option settings (T' (pc_PublicKey c))
                  = Some (settings (set_peer c (T (pc_PublicKey c)))))
             \<and> (disjoint_ips cs \<longrightarrow>
                 (\<forall>c \<in> set cs. map_option ps_Allowed (T' (pc_PublicKey c)) = Some (pc_AllowedIPs c))))))"
proof -
  let ?T = "D (world h) (if_Name iface)" and ?pubs = "wp_PublicKey ` set (if_Peers iface)"
  from synced_table[OF assms(1,2,3,5)] obtain cs ks
    where cs: "peer_configs L (if_Peers iface) = Inr cs"
      and ks: "set ks = {k \<in> dom ?T. lib_KeyString L k \<notin> ?pubs}"
      and T': "D (world (after (wg_Reconcile L S ord iface) h)) (if_Name iface)
        = fold apply_peer cs ?T |` (- set ks)"
    by blast
  note all2 = cs[unfolded peer_configs_Inr]
  have print: "map (\<lambda>c. lib_KeyString L (pc_PublicKey c)) cs = map wp_PublicKey (if_Peers iface)"
    by (rule configs_print[OF all2 assms(4)])
  have printed: "(\<lambda>c. lib_KeyString L (pc_PublicKey c)) ` set cs = ?pubs"
    using arg_cong[OF print, of set] by simp
  have len: "length (pc_PublicKey c) = 32" if "c \<in> set cs" for c
    using configs_plain(1)[OF all2 that] assms(2) unfolding key_lib_ok_def by blast
  have keys: "pc_PublicKey ` set cs = {k. length k = 32 \<and> lib_KeyString L k \<in> ?pubs}"
  proof (intro equalityI subsetI)
    fix k assume k: "k \<in> {k. length k = 32 \<and> lib_KeyString L k \<in> ?pubs}"
    then obtain c where "c \<in> set cs" "lib_KeyString L k = lib_KeyString L (pc_PublicKey c)"
      using printed by force
    with k len key_string_inj[OF assms(2), of k "pc_PublicKey c"] show "k \<in> pc_PublicKey ` set cs" by simp
  qed (use len printed in \<open>auto\<close>)
  have "dom ?T \<subseteq> {k. length k = 32}" using wgctrl_keys[OF assms(1)] by blast
  then have dom: "dom (fold apply_peer cs ?T |` (- set ks)) = {k. length k = 32 \<and> lib_KeyString L k \<in> ?pubs}"
    using dom_fold[of cs ?T] configs_plain(2)[OF all2] by (auto simp: ks keys)
  have kept: "(fold apply_peer cs ?T |` (- set ks)) (pc_PublicKey c) = fold apply_peer cs ?T (pc_PublicKey c)"
    if "c \<in> set cs" for c
    using that keys by (auto simp: restrict_map_def ks)
  have "distinct (map pc_PublicKey cs)" if "distinct (map wp_PublicKey (if_Peers iface))"
    using that unfolding print[symmetric] by (auto simp: distinct_map inj_on_def)
  then have "distinct (map wp_PublicKey (if_Peers iface)) \<longrightarrow>
      (\<forall>c \<in> set cs. map_option settings ((fold apply_peer cs ?T |` (- set ks)) (pc_PublicKey c))
         = Some (settings (set_peer c (?T (pc_PublicKey c)))))
    \<and> (disjoint_ips cs \<longrightarrow> (\<forall>c \<in> set cs.
         map_option ps_Allowed ((fold apply_peer cs ?T |` (- set ks)) (pc_PublicKey c)) = Some (pc_AllowedIPs c)))"
    using kept settings_fold[of _ cs ?T] allowed_fold[of _ cs ?T] configs_plain(2,3)[OF all2] by simp
  then show ?thesis unfolding Let_def T' dom using cs by blast
qed

text \<open>
  C33. The wanted keys are compared as text: a peer whose key \<open>ParseKey\<close> accepts but \<open>String\<close> prints
  differently (a line break in the base64, unused bits in its last character) is added by one
  sync and removed by the next one, over and over.
\<close>
theorem respelled_key_flaps:
  assumes "wgctrl_ok S D" and "key_lib_ok L" and "range_order ord"
    and "result (wg_Reconcile L S ord iface) h = None"
    and "p \<in> set (if_Peers iface)" and "lib_ParseKey L (wp_PublicKey p) = Inr k"
    and "lib_KeyString L k \<notin> wp_PublicKey ` set (if_Peers iface)"
  shows "(D (world (after (wg_Reconcile L S ord iface) h)) (if_Name iface) k = None)
     \<longleftrightarrow> D (world h) (if_Name iface) k \<noteq> None"
proof -
  let ?T = "D (world h) (if_Name iface)"
  from synced_table[OF assms(1-4)] obtain cs ks
    where cs: "peer_configs L (if_Peers iface) = Inr cs"
      and ks: "set ks = {k \<in> dom ?T. lib_KeyString L k \<notin> wp_PublicKey ` set (if_Peers iface)}"
      and T': "D (world (after (wg_Reconcile L S ord iface) h)) (if_Name iface)
        = fold apply_peer cs ?T |` (- set ks)"
    by blast
  note all2 = cs[unfolded peer_configs_Inr]
  obtain c where "c \<in> set cs" "buildPeerConfig L p = Inr c"
    using configs_built[OF all2 assms(5)] by blast
  then have "k \<in> pc_PublicKey ` set cs" using assms(6) buildPeerConfig_Inr[of L p c] by auto
  then have "k \<in> dom (fold apply_peer cs ?T)" using dom_fold[of cs ?T] configs_plain(2)[OF all2] by blast
  moreover have "k \<in> set ks \<longleftrightarrow> ?T k \<noteq> None" using assms(7) ks by blast
  ultimately show ?thesis unfolding T' by (cases "k \<in> set ks") (simp_all add: domIff)
qed

section \<open>A kernel with the documented devices\<close>

text \<open>
  A device is the keys it was ever given and the table of its peers; it refuses a key that is not
  32 bytes. \<open>tag_lib\<close> prints a key behind the letter \<open>k\<close> and also reads it behind \<open>K\<close>.
\<close>

type_synonym kernel = "string \<Rightarrow> key list \<times> peer_table"

definition kernel_peers :: "kernel \<Rightarrow> string \<Rightarrow> peer_table" where
  "kernel_peers w name = snd (w name) |` {k \<in> set (fst (w name)). length k = 32}"

fun kernel_sys :: "kernel sys" where
  "kernel_sys (ConfigureDevice name cfg) w =
     (if list_all (\<lambda>c. length (pc_PublicKey c) = 32) (dc_Peers cfg)
      then (ok_reply, w(name := (fst (w name) @ map pc_PublicKey (dc_Peers cfg),
                                 fold apply_peer (dc_Peers cfg) (kernel_peers w name))))
      else (err_reply ''bad key'', w))"
| "kernel_sys (Device name) w =
     (ok_reply\<lparr>rpeers := map (\<lambda>k. \<lparr>dp_PublicKey = k, dp_LastHandshake = None, dp_ReceiveBytes = 0,
          dp_TransmitBytes = 0, dp_Endpoint = None\<rparr>)
        (filter (\<lambda>k. kernel_peers w name k \<noteq> None) (fst (w name)))\<rparr>, w)"
| "kernel_sys c w = (ok_reply, w)"

definition tag_lib :: wg_lib where
  "tag_lib = \<lparr>lib_ParseKey = (\<lambda>s. case s of [] \<Rightarrow> Inl ''empty''
       | c # k \<Rightarrow> if (c = CHR ''k'' \<or> c = CHR ''K'') \<and> length k = 32 then Inr k else Inl ''bad key''),
     lib_KeyString = (\<lambda>k. CHR ''k'' # k), lib_ParseAddr = Inr\<rparr>"

lemma tag_lib_ok: "key_lib_ok tag_lib"
  by (auto simp: key_lib_ok_def tag_lib_def split: list.splits if_splits)

lemma dom_apply_fold:
  "dom (fold apply_peer cs T) \<subseteq> dom T \<union> pc_PublicKey ` set cs"
proof (induction cs arbitrary: T)
  case (Cons c cs)
  have "dom (apply_peer c T) \<subseteq> insert (pc_PublicKey c) (dom T)"
    by (auto simp: apply_peer_def split: if_splits)
  with Cons[of "apply_peer c T"] show ?case by auto
qed simp

lemma restrict_superset: "dom m \<subseteq> A \<Longrightarrow> m |` A = m"
  by (rule ext) (metis domI option.exhaust restrict_map_def subsetD)

lemma kernel_dom: "k \<in> dom (kernel_peers w name) \<Longrightarrow> k \<in> set (fst (w name)) \<and> length k = 32"
  by (auto simp: kernel_peers_def restrict_map_def split: if_splits)

lemma kernel_ok: "wgctrl_ok kernel_sys kernel_peers"
proof -
  have "kernel_peers (snd (kernel_sys (ConfigureDevice name cfg) w)) name
      = fold apply_peer (dc_Peers cfg) (kernel_peers w name)"
    if "rerr (fst (kernel_sys (ConfigureDevice name cfg) w)) = None" for w name cfg
  proof -
    let ?T = "fold apply_peer (dc_Peers cfg) (kernel_peers w name)"
    let ?K = "{k \<in> set (fst (w name) @ map pc_PublicKey (dc_Peers cfg)). length k = 32}"
    have keys: "list_all (\<lambda>c. length (pc_PublicKey c) = 32) (dc_Peers cfg)"
      using that by (simp split: if_splits)
    then have "dom ?T \<subseteq> ?K"
      using dom_apply_fold[of "dc_Peers cfg" "kernel_peers w name"] kernel_dom[of _ w name]
      by (fastforce simp: list_all_iff)
    then have "?T |` ?K = ?T" by (rule restrict_superset)
    with keys show ?thesis by (simp add: kernel_peers_def[of "w(name := _)"])
  qed
  moreover have "dp_PublicKey ` set (rpeers (fst (kernel_sys (Device name) w))) = dom (kernel_peers w name)" for w name
    using kernel_dom[of _ w name] by (force simp: image_iff)
  moreover have "kernel_peers (snd (kernel_sys cl w)) = kernel_peers w" if "\<not> changes_peers cl" for cl w
    using that by (cases cl) simp_all
  ultimately show ?thesis unfolding wgctrl_ok_def using kernel_dom by blast
qed

text \<open>A device with peer \<open>b...b\<close>, to be reconciled to one peer given as the text \<open>s\<close>.\<close>

definition one_peer :: "string \<Rightarrow> wg_interface" where
  "one_peer s = \<lparr>if_Name = ''wg0'', if_PrivateKey = CHR ''k'' # replicate 32 (CHR ''x''), if_ListenPort = 1,
     if_Address = ''a'', if_MTU = 0, if_Masquerade = False, if_EgressInterface = [], if_NATSubnets = [],
     if_PolicyRoutes = [], if_Extras = \<lparr>ex_Routes = [], ex_Rules = [], ex_NAT = []\<rparr>,
     if_Peers = [\<lparr>wp_PublicKey = s, wp_PresharedKey = [], wp_AllowedIPs = [], wp_PersistentKeepalive = 0\<rparr>]\<rparr>"

definition b_kernel :: kernel where
  "b_kernel = (\<lambda>name. ([replicate 32 (CHR ''b'')],
     [replicate 32 (CHR ''b'') \<mapsto> \<lparr>ps_Preshared = None, ps_Keepalive = None, ps_Allowed = []\<rparr>]))"

theorem peers_converge_witness:
  "dom (kernel_peers (world (after (wg_Reconcile tag_lib kernel_sys rev
       (one_peer (CHR ''k'' # replicate 32 (CHR ''a'')))) (init_host b_kernel))) ''wg0'')
     = {replicate 32 (CHR ''a'')}"
proof -
  let ?i = "one_peer (CHR ''k'' # replicate 32 (CHR ''a''))"
  have "result (wg_Reconcile tag_lib kernel_sys rev ?i) (init_host b_kernel) = None" by code_simp
  moreover have "\<forall>p \<in> set (if_Peers ?i). canonical_key tag_lib (wp_PublicKey p)"
    by (simp add: one_peer_def canonical_key_def tag_lib_def)
  ultimately show ?thesis
    using peers_converge[OF kernel_ok tag_lib_ok range_order_id(2), of ?i "init_host b_kernel"]
    unfolding Let_def by (auto simp: one_peer_def tag_lib_def)
qed

theorem respelled_key_flaps_witness:
  "kernel_peers (world (after (wg_Reconcile tag_lib kernel_sys rev
       (one_peer (CHR ''K'' # replicate 32 (CHR ''b'')))) (init_host b_kernel))) ''wg0''
     (replicate 32 (CHR ''b'')) = None"
proof -
  let ?i = "one_peer (CHR ''K'' # replicate 32 (CHR ''b''))"
  have "result (wg_Reconcile tag_lib kernel_sys rev ?i) (init_host b_kernel) = None" by code_simp
  from respelled_key_flaps[OF kernel_ok tag_lib_ok range_order_id(2) this, of "hd (if_Peers ?i)" "replicate 32 (CHR ''b'')"]
  show ?thesis by (simp add: one_peer_def tag_lib_def b_kernel_def kernel_peers_def)
qed

end
