(* ===== verification/WgNat.thy ===== *)
theory WgNat
  imports WgEngine Netfilter
begin

text \<open>
  \<open>src/wg/nat.go\<close>: internet access for the clients of an interface, as iptables rules of its own.
  This theory holds the definitions, one per Go function. An error that quotes its argument is a
  constructor; the rest are the messages the code builds. The values Go returns beside an error are
  not used by any caller and are left out.
\<close>

section \<open>Rules\<close>

record wg_rule =
  wr_table :: string
  wr_chain :: string
  wr_args :: "string list"

definition natRules :: "string list \<Rightarrow> string \<Rightarrow> string \<Rightarrow> string \<Rightarrow> wg_rule list" where
  "natRules subnets device egress snatIP =
     map (\<lambda>s. \<lparr>wr_table = ''nat'', wr_chain = ''POSTROUTING'',
         wr_args = [''-s'', s, ''-o'', egress]
           @ (if snatIP \<noteq> [] then [''-j'', ''SNAT'', ''--to-source'', snatIP] else [''-j'', ''MASQUERADE''])\<rparr>) subnets
     @ [\<lparr>wr_table = [], wr_chain = ''FORWARD'',
          wr_args = [''-i'', device, ''-o'', egress, ''-j'', ''ACCEPT'']\<rparr>,
        \<lparr>wr_table = [], wr_chain = ''FORWARD'',
          wr_args = [''-i'', egress, ''-o'', device, ''-m'', ''state'', ''--state'', ''RELATED,ESTABLISHED'',
                     ''-j'', ''ACCEPT'']\<rparr>]"

definition NATEnabled :: "wg_interface \<Rightarrow> bool" where
  "NATEnabled iface \<longleftrightarrow> if_Masquerade iface \<or> TrimSpace (if_EgressInterface iface) \<noteq> []
     \<or> TrimSpace (if_NATSubnets iface) \<noteq> []"

definition natParamsDiffer :: "wg_interface \<Rightarrow> wg_interface \<Rightarrow> bool" where
  "natParamsDiffer a b \<longleftrightarrow> if_Masquerade a \<noteq> if_Masquerade b
     \<or> if_EgressInterface a \<noteq> if_EgressInterface b \<or> if_NATSubnets a \<noteq> if_NATSubnets b
     \<or> if_Address a \<noteq> if_Address b"

section \<open>Source subnets\<close>

datatype nat_error =
    BadInterfaceAddress string
  | BadSubnet string nat_error
  | ResolveEgress string
  | ForwardingFailed string
  | RuleFailed string

definition subnetFor :: "string \<Rightarrow> nat_error + string" where
  "subnetFor address =
     (case ParseCIDR (TrimSpace address) of
        None \<Rightarrow> Inl (BadInterfaceAddress address)
      | Some net \<Rightarrow> Inr (IPNet_String net))"

text \<open>The loop of \<open>natSources\<close>; the keys of \<open>seen\<close> are the elements of \<open>custom\<close>.\<close>

fun custom_subnets :: "string list \<Rightarrow> string list \<Rightarrow> nat_error + string list" where
  "custom_subnets [] custom = Inr custom"
| "custom_subnets (raw # parts) custom =
     (let s = TrimSpace raw
      in if s = [] then custom_subnets parts custom
         else (case subnetFor s of
                 Inl e \<Rightarrow> Inl (BadSubnet s e)
               | Inr norm \<Rightarrow>
                   if norm \<in> set custom then custom_subnets parts custom
                   else custom_subnets parts (custom @ [norm])))"

definition natSources :: "wg_interface \<Rightarrow> nat_error + string list" where
  "natSources iface =
     (case custom_subnets (Split (if_NATSubnets iface) (CHR '','')) [] of
        Inl e \<Rightarrow> Inl e
      | Inr custom \<Rightarrow>
          if length custom > 0 then Inr custom
          else (case subnetFor (if_Address iface) of
                  Inl e \<Rightarrow> Inl e
                | Inr wgSubnet \<Rightarrow> Inr [wgSubnet]))"

section \<open>The egress device\<close>

text \<open>The loop of \<open>linkForIP\<close>: the first link that has the address.\<close>

fun owner_in :: "'w sys \<Rightarrow> ip \<Rightarrow> (int \<times> string) list \<Rightarrow> ('w, 'm, string option) prog" where
  "owner_in S ip [] = State_Monad.return None"
| "owner_in S ip ((i, name) # links) = do {
     r \<leftarrow> do_call S (AddrList i);
     if rerr r \<noteq> nil then owner_in S ip links
     else if ip \<in> set (raddrs r) then State_Monad.return (Some name)
     else owner_in S ip links }"

definition linkForIP :: "'w sys \<Rightarrow> ip \<Rightarrow> ('w, 'm, string go_result) prog" where
  "linkForIP S ip = do {
     r \<leftarrow> do_call S LinkList;
     (case rerr r of
        Some e \<Rightarrow> State_Monad.return (Inl (''list links: '' @ e))
      | None \<Rightarrow> do {
          l \<leftarrow> owner_in S ip (rlinks r);
          State_Monad.return (case l of
            Some name \<Rightarrow> Inr name
          | None \<Rightarrow> Inl (''no interface owns IP '' @ IP_String ip)) }) }"

text \<open>The routes without a destination, or with an unspecified one, count as default routes.\<close>

definition DefaultEgressInterface :: "'w sys \<Rightarrow> ('w, 'm, string go_result) prog" where
  "DefaultEgressInterface S = do {
     r \<leftarrow> do_call S RouteListV4;
     (case rerr r of
        Some e \<Rightarrow> State_Monad.return (Inl (''list routes: '' @ e))
      | None \<Rightarrow>
          (case find (\<lambda>(dst, i). case dst of None \<Rightarrow> True | Some a \<Rightarrow> IsUnspecified a) (rroutes r) of
             None \<Rightarrow> State_Monad.return (Inl ''no IPv4 default route found'')
           | Some (dst, i) \<Rightarrow> do {
               l \<leftarrow> do_call S (LinkByIndex i);
               State_Monad.return (case rerr l of
                 Some e \<Rightarrow> Inl (''resolve egress link: '' @ e)
               | None \<Rightarrow> Inr (rout l)) })) }"

text \<open>The device, and the source address to translate to (empty to masquerade).\<close>

definition resolveEgress :: "'w sys \<Rightarrow> string \<Rightarrow> ('w, 'm, (string \<times> string) go_result) prog" where
  "resolveEgress S egress =
     (let spec = TrimSpace egress
      in if spec = [] then do {
           d \<leftarrow> DefaultEgressInterface S;
           State_Monad.return (map_sum id (\<lambda>dev. (dev, [])) d) }
         else (case ParseIP spec of
                 Some ip \<Rightarrow> do {
                   d \<leftarrow> linkForIP S ip;
                   State_Monad.return (map_sum id (\<lambda>dev. (dev, spec)) d) }
               | None \<Rightarrow> State_Monad.return (Inr (spec, []))))"

section \<open>Running iptables\<close>

definition iptablesArgs :: "string \<Rightarrow> wg_rule \<Rightarrow> string list" where
  "iptablesArgs action r =
     (if wr_table r \<noteq> [] then [''-t'', wr_table r] else []) @ [action, wr_chain r] @ wr_args r"

definition runIptables :: "'w sys \<Rightarrow> string list \<Rightarrow> ('w, 'm, go_error) prog" where
  "runIptables S args = do {
     r \<leftarrow> do_call S (Exec ''iptables'' args);
     State_Monad.return (case rerr r of
       None \<Rightarrow> nil
     | Some e \<Rightarrow> Some (''iptables '' @ Join args '' '' @ '': '' @ e @ '' ('' @ TrimSpace (rcomb r) @ '')'')) }"

definition ensureRule :: "'w sys \<Rightarrow> wg_rule \<Rightarrow> ('w, 'm, go_error) prog" where
  "ensureRule S r = do {
     e \<leftarrow> runIptables S (iptablesArgs ''-C'' r);
     if e = nil then State_Monad.return nil
     else runIptables S (iptablesArgs ''-A'' r) }"

definition deleteRule :: "'w sys \<Rightarrow> wg_rule \<Rightarrow> ('w, 'm, go_error) prog" where
  "deleteRule S r = do {
     e \<leftarrow> runIptables S (iptablesArgs ''-C'' r);
     if e \<noteq> nil then State_Monad.return nil
     else runIptables S (iptablesArgs ''-D'' r) }"

definition EnableForwarding :: "'w sys \<Rightarrow> ('w, 'm, go_error) prog" where
  "EnableForwarding S = do {
     r \<leftarrow> do_call S (WriteFile ''/proc/sys/net/ipv4/ip_forward'' [CHR ''1'', CHR 0x0A] 420);
     State_Monad.return (map_option (\<lambda>e. ''enable ip_forward: '' @ e) (rerr r)) }"

section \<open>Installing and removing\<close>

definition SetupNAT :: "'w sys \<Rightarrow> wg_interface \<Rightarrow> ('w, 'm, nat_error + string) prog" where
  "SetupNAT S iface =
     (case natSources iface of
        Inl e \<Rightarrow> State_Monad.return (Inl e)
      | Inr subnets \<Rightarrow> do {
          d \<leftarrow> resolveEgress S (if_EgressInterface iface);
          (case d of
             Inl e \<Rightarrow> State_Monad.return (Inl (ResolveEgress e))
           | Inr (device, snatIP) \<Rightarrow> do {
               f \<leftarrow> EnableForwarding S;
               (case f of
                  Some e \<Rightarrow> State_Monad.return (Inl (ForwardingFailed e))
                | None \<Rightarrow> do {
                    e \<leftarrow> for_each_err (natRules subnets (if_Name iface) device snatIP) (ensureRule S);
                    State_Monad.return (case e of Some m \<Rightarrow> Inl (RuleFailed m) | None \<Rightarrow> Inr device) }) }) })"

text \<open>The loop of \<open>TeardownNAT\<close>: every rule is tried, the first error is kept.\<close>

fun delete_rules :: "'w sys \<Rightarrow> wg_rule list \<Rightarrow> go_error \<Rightarrow> ('w, 'm, go_error) prog" where
  "delete_rules S [] firstErr = State_Monad.return firstErr"
| "delete_rules S (r # rs) firstErr = do {
     e \<leftarrow> deleteRule S r;
     delete_rules S rs (if e \<noteq> nil \<and> firstErr = nil then e else firstErr) }"

definition TeardownNAT :: "'w sys \<Rightarrow> wg_interface \<Rightarrow> ('w, 'm, nat_error option) prog" where
  "TeardownNAT S iface =
     (case natSources iface of
        Inl e \<Rightarrow> State_Monad.return (Some e)
      | Inr subnets \<Rightarrow> do {
          d \<leftarrow> resolveEgress S (if_EgressInterface iface);
          (case d of
             Inl e \<Rightarrow> State_Monad.return None
           | Inr (device, snatIP) \<Rightarrow>
               if device = [] then State_Monad.return None
               else do {
                 e \<leftarrow> delete_rules S (natRules subnets (if_Name iface) device snatIP) nil;
                 State_Monad.return (map_option RuleFailed e) }) })"

definition ReconcileNAT :: "'w sys \<Rightarrow> wg_interface \<Rightarrow> wg_interface \<Rightarrow> ('w, 'm, nat_error option) prog" where
  "ReconcileNAT S old new = do {
     (if NATEnabled old \<and> (\<not> NATEnabled new \<or> natParamsDiffer old new)
      then do { _ \<leftarrow> TeardownNAT S old; State_Monad.return () }
      else State_Monad.return ());
     if NATEnabled new then do {
       r \<leftarrow> SetupNAT S new;
       State_Monad.return (case r of Inl e \<Rightarrow> Some e | Inr device \<Rightarrow> None) }
     else State_Monad.return None }"

end
