(* ===== verification/WgNatFacts.thy ===== *)
theory WgNatFacts
  imports WgNat
begin

text \<open>
  What the NAT rules of an interface do to the firewall: every rule function as a function on the
  rules, then the sync as a whole. The behaviour of iptables is the hypothesis \<open>iptables_ok\<close> of
  \<open>Netfilter\<close>.
\<close>

section \<open>Lists of rules as functions on the firewall\<close>

definition put_rule :: "wg_rule \<Rightarrow> rules \<Rightarrow> rules" where
  "put_rule r R = set_chain R (wr_table r) (wr_chain r)
     (add_missing ''-A'' (wr_args r) (R (wr_table r) (wr_chain r)))"

definition take_rule :: "wg_rule \<Rightarrow> rules \<Rightarrow> rules" where
  "take_rule r R = set_chain R (wr_table r) (wr_chain r)
     (remove1 (wr_args r) (R (wr_table r) (wr_chain r)))"

text \<open>The specifications of a rule list that go to one chain.\<close>

definition in_chain :: "string \<Rightarrow> string \<Rightarrow> wg_rule list \<Rightarrow> spec list" where
  "in_chain t c rs = map wr_args (filter (\<lambda>r. wr_table r = t \<and> wr_chain r = c) rs)"

lemma set_in_chain: "a \<in> set (in_chain t c rs) \<longleftrightarrow> \<lparr>wr_table = t, wr_chain = c, wr_args = a\<rparr> \<in> set rs"
proof
  assume "a \<in> set (in_chain t c rs)"
  then obtain r where r: "r \<in> set rs" "wr_table r = t" "wr_chain r = c" "wr_args r = a"
    by (auto simp: in_chain_def)
  then have "r = \<lparr>wr_table = t, wr_chain = c, wr_args = a\<rparr>" by (simp add: wg_rule.equality)
  with r(1) show "\<lparr>wr_table = t, wr_chain = c, wr_args = a\<rparr> \<in> set rs" by simp
qed (force simp: in_chain_def)

lemma distinct_in_chain: "distinct rs \<Longrightarrow> distinct (in_chain t c rs)"
  by (auto simp: in_chain_def distinct_map inj_on_def intro: wg_rule.equality)

lemma fold_put_rule: "fold put_rule rs R t c = fold (add_missing ''-A'') (in_chain t c rs) (R t c)"
  by (induction rs arbitrary: R) (auto simp: put_rule_def in_chain_def set_chain_def)

lemma fold_take_rule: "fold take_rule rs R t c = fold remove1 (in_chain t c rs) (R t c)"
  by (induction rs arbitrary: R) (auto simp: take_rule_def in_chain_def set_chain_def)

lemma count_put_rules:
  "count_list (fold put_rule rs R t c) a
     = (if \<lparr>wr_table = t, wr_chain = c, wr_args = a\<rparr> \<in> set rs then max 1 (count_list (R t c) a)
        else count_list (R t c) a)"
  by (simp add: fold_put_rule count_fold_add_missing set_in_chain)

lemma remove_copies_1: "remove_copies (Suc 0) = remove1"
  by (simp add: fun_eq_iff remove_copies_Suc)

lemma count_take_rules:
  "distinct rs \<Longrightarrow> count_list (fold take_rule rs R t c) a
     = count_list (R t c) a - (if \<lparr>wr_table = t, wr_chain = c, wr_args = a\<rparr> \<in> set rs then 1 else 0)"
  using count_fold_remove_copies[of "in_chain t c rs" "Suc 0" "R t c" a]
  by (simp add: fold_take_rule set_in_chain distinct_in_chain remove_copies_1)

text \<open>Rules that are all there are not added again.\<close>

lemma put_rules_id:
  "(\<And>t c. set (in_chain t c rs) \<subseteq> set (R t c)) \<Longrightarrow> fold put_rule rs R = R"
  by (intro ext) (simp add: fold_put_rule fold_add_missing_id)

lemma put_rules_idem: "fold put_rule rs (fold put_rule rs R) = fold put_rule rs R"
  by (rule put_rules_id) (simp add: fold_put_rule set_fold_add_missing)

text \<open>Fresh rules that are added and taken away again leave the firewall as it was.\<close>

lemma fold_add_fresh:
  "distinct xs \<Longrightarrow> set xs \<inter> set ys = {} \<Longrightarrow> fold (add_missing ''-A'') xs ys = ys @ xs"
  by (induction xs arbitrary: ys) (auto simp: add_missing_def)

lemma fold_remove_fresh: "set xs \<inter> set ys = {} \<Longrightarrow> fold remove1 xs (ys @ xs) = ys"
  by (induction xs) (auto simp: remove1_append)

lemma take_put_rules:
  assumes "distinct rs" "\<And>t c. set (in_chain t c rs) \<inter> set (R t c) = {}"
  shows "fold take_rule rs (fold put_rule rs R) = R"
proof (intro ext)
  fix t c
  show "fold take_rule rs (fold put_rule rs R) t c = R t c"
    using assms(2)[of t c]
    by (simp add: fold_take_rule fold_put_rule fold_add_fresh fold_remove_fresh distinct_in_chain assms(1))
qed

section \<open>The rules of an interface\<close>

lemma distinct_natRules: "distinct subnets \<Longrightarrow> distinct (natRules subnets device egress snatIP)"
  by (auto simp: natRules_def distinct_map inj_on_def)

lemma custom_subnets_distinct:
  "custom_subnets parts custom = Inr ss \<Longrightarrow> distinct custom \<Longrightarrow> distinct ss"
  by (induction parts custom rule: custom_subnets.induct)
    (auto simp: Let_def split: if_splits sum.splits)

lemma natSources_distinct: "natSources iface = Inr ss \<Longrightarrow> distinct ss"
  by (auto simp: natSources_def dest: custom_subnets_distinct split: sum.splits if_splits)

text \<open>The rules of an interface whose egress is device \<open>d\<close> with SNAT address \<open>a\<close>.\<close>

definition nat_rules :: "wg_interface \<Rightarrow> string \<times> string \<Rightarrow> wg_rule list" where
  "nat_rules iface e =
     (if NATEnabled iface
      then (case natSources iface of Inl _ \<Rightarrow> [] | Inr ss \<Rightarrow> natRules ss (if_Name iface) (fst e) (snd e))
      else [])"

lemma distinct_nat_rules: "distinct (nat_rules iface e)"
  by (auto simp: nat_rules_def intro!: distinct_natRules dest: natSources_distinct split: sum.splits)

section \<open>On a host with the documented iptables\<close>

lemma iptablesArgs_spec: "iptablesArgs act r = ipt_args (wr_table r) act (wr_chain r) (wr_args r)"
  by (simp add: iptablesArgs_def ipt_args_def)

lemma run_runIptables:
  "run_state (runIptables S args) h
     = ((case rerr (fst (S (Exec ''iptables'' args) (world h))) of
           None \<Rightarrow> nil
         | Some e \<Rightarrow> Some (''iptables '' @ Join args '' '' @ '': '' @ e @ '' (''
              @ TrimSpace (rcomb (fst (S (Exec ''iptables'' args) (world h)))) @ '')'')),
        h\<lparr>world := snd (S (Exec ''iptables'' args) (world h)), trace := trace h @ [Exec ''iptables'' args]\<rparr>)"
  by (simp add: runIptables_def run_do_call)

context netfilter
begin

lemma ensureRule_effect:
  assumes "iptables_accepts S"
  shows "result (ensureRule S r) h = nil" "R (world (after (ensureRule S r) h)) = put_rule r (R (world h))"
proof -
  have add: "rerr (fst (S (Exec ''iptables'' (ipt_args t ''-A'' c a)) w)) = None" for t c a w
    using assms by (simp add: iptables_accepts_def)
  show "result (ensureRule S r) h = nil"
    by (simp add: ensureRule_def run_runIptables iptablesArgs_spec add split: option.splits)
  show "R (world (after (ensureRule S r) h)) = put_rule r (R (world h))"
    using check_iff[of "wr_table r" "wr_chain r" "wr_args r" "world h"]
    by (auto simp: ensureRule_def run_runIptables iptablesArgs_spec add add_effect[of "''-A''"] check_effect
        put_rule_def add_missing_def split: option.splits)
qed

lemma deleteRule_effect:
  "result (deleteRule S r) h = nil" "R (world (after (deleteRule S r) h)) = take_rule r (R (world h))"
proof -
  let ?t = "wr_table r" and ?c = "wr_chain r" and ?a = "wr_args r"
  let ?w = "snd (S (Exec ''iptables'' (ipt_args ?t ''-C'' ?c ?a)) (world h))"
  have same: "R ?w = R (world h)" by (rule check_effect)
  show "result (deleteRule S r) h = nil" "R (world (after (deleteRule S r) h)) = take_rule r (R (world h))"
    using check_iff[of ?t ?c ?a "world h"] delete_iff[of ?t ?c ?a ?w] same
    by (auto simp: deleteRule_def run_runIptables iptablesArgs_spec delete_effect take_rule_def remove1_idem
        split: option.splits)
qed

lemma ensure_rules_effect:
  assumes "iptables_accepts S"
  shows "result (for_each_err rs (ensureRule S)) h = nil"
    "R (world (after (for_each_err rs (ensureRule S)) h)) = fold put_rule rs (R (world h))"
  by (induction rs arbitrary: h)
    (simp_all del: run_state_bind add: after_bind result_bind ensureRule_effect[OF assms])

lemma delete_rules_effect:
  "result (delete_rules S rs e) h = e"
  "R (world (after (delete_rules S rs e) h)) = fold take_rule rs (R (world h))"
  by (induction rs arbitrary: h e)
    (simp_all del: run_state_bind add: after_bind result_bind deleteRule_effect)

lemma quiet_owner_in: "quiet (owner_in S ip links)"
  by (induction links) (auto intro!: quiet_intros)

lemma quiet_resolveEgress: "quiet (resolveEgress S spec)"
  unfolding resolveEgress_def DefaultEgressInterface_def linkForIP_def
  by (intro quiet_intros quiet_owner_in) (auto split: prod.splits intro!: quiet_intros)

text \<open>Every program resolves the egress and switches forwarding on without touching a rule.\<close>

lemma quiet_EnableForwarding: "quiet (EnableForwarding S)"
  unfolding EnableForwarding_def by (intro quiet_intros) simp

lemma TeardownNAT_effect:
  assumes "NATEnabled iface" "result (resolveEgress S (if_EgressInterface iface)) h = Inr e" "fst e \<noteq> []"
  shows "R (world (after (TeardownNAT S iface) h)) = fold take_rule (nat_rules iface e) (R (world h))"
proof (cases "natSources iface")
  case (Inr ss)
  obtain h1 where run: "run_state (resolveEgress S (if_EgressInterface iface)) h = (Inr e, h1)"
    using assms(2) by (metis prod.collapse)
  then have "R (world h1) = R (world h)" using quietD[OF quiet_resolveEgress] by (metis snd_conv)
  then show ?thesis
    using assms(1,3) Inr run delete_rules_effect(2)[of "nat_rules iface e" nil h1]
    by (cases e) (simp del: run_state_bind add: after_bind result_bind TeardownNAT_def nat_rules_def)
qed (simp add: TeardownNAT_def nat_rules_def)

lemma SetupNAT_effect:
  assumes "iptables_accepts S" "NATEnabled iface" "result (resolveEgress S (if_EgressInterface iface)) h = Inr e"
    and "result (SetupNAT S iface) h = Inr d"
  shows "R (world (after (SetupNAT S iface) h)) = fold put_rule (nat_rules iface e) (R (world h))"
proof -
  from assms(4) obtain ss where ss: "natSources iface = Inr ss"
    by (auto simp: SetupNAT_def split: sum.splits)
  obtain h1 where run: "run_state (resolveEgress S (if_EgressInterface iface)) h = (Inr e, h1)"
    using assms(3) by (metis prod.collapse)
  then have R1: "R (world h1) = R (world h)" using quietD[OF quiet_resolveEgress] by (metis snd_conv)
  obtain f h2 where fwd: "run_state (EnableForwarding S) h1 = (f, h2)" by fastforce
  then have R2: "R (world h2) = R (world h)" using quietD[OF quiet_EnableForwarding] R1 by (metis snd_conv)
  have "f = None"
    using assms(4) ss run fwd by (cases e; cases f) (auto simp: SetupNAT_def)
  then show ?thesis
    using assms(2) ss run fwd R2 ensure_rules_effect[OF assms(1), of "nat_rules iface e" h2]
    by (cases e) (simp del: run_state_bind add: after_bind result_bind SetupNAT_def nat_rules_def)
qed

end

end
