(* ===== verification/WgNatSync.thy ===== *)
theory WgNatSync
  imports WgNatFacts
begin

text \<open>
  The sync of the NAT rules of an interface: what one \<open>ReconcileNAT\<close> leaves in the firewall, and
  what a whole history of them leaves when NAT is switched off again.
\<close>

section \<open>One sync\<close>

lemma SetupNAT_rules:
  fixes h :: "('w, 'm) host_scheme"
  assumes "iptables_ok S R" "iptables_accepts S" "NATEnabled iface"
    and "result (resolveEgress S (if_EgressInterface iface)) h = Inr e"
  shows "R (world (after (SetupNAT S iface) h))
     = (case result (SetupNAT S iface) h of Inl _ \<Rightarrow> R (world h)
        | Inr _ \<Rightarrow> fold put_rule (nat_rules iface e) (R (world h)))"
proof (cases "result (SetupNAT S iface) h")
  case (Inl m)
  note nf = netfilter.intro[OF assms(1)]
  obtain h1 where run: "run_state (resolveEgress S (if_EgressInterface iface)) h = (Inr e, h1)"
    using assms(4) by (metis prod.collapse)
  then have R1: "R (world h1) = R (world h)"
    using netfilter.quietD[OF nf netfilter.quiet_resolveEgress[OF nf]] by (metis snd_conv)
  obtain f h2 where fwd: "run_state (EnableForwarding S) h1 = (f, h2)" by fastforce
  then have R2: "R (world h2) = R (world h)"
    using netfilter.quietD[OF nf netfilter.quiet_EnableForwarding[OF nf]] R1 by (metis snd_conv)
  show ?thesis
  proof (cases "natSources iface")
    case ss: (Inr ss)
    have "f \<noteq> None"
      using Inl ss run fwd netfilter.ensure_rules_effect(1)[OF nf assms(2), of "natRules ss (if_Name iface) (fst e) (snd e)" h2]
      by (cases e; cases f) (auto simp del: run_state_bind simp: result_bind SetupNAT_def)
    then show ?thesis
      using Inl ss run fwd R2 by (cases e) (auto simp del: run_state_bind simp: after_bind SetupNAT_def)
  qed (simp add: SetupNAT_def)
next
  case (Inr d)
  then show ?thesis
    using netfilter.SetupNAT_effect[OF netfilter.intro[OF assms(1)] assms(2,3,4) Inr] by simp
qed

text \<open>Whether a sync removes the rules of the old configuration.\<close>

definition nat_outdated :: "wg_interface \<Rightarrow> wg_interface \<Rightarrow> bool" where
  "nat_outdated old new \<longleftrightarrow> NATEnabled old \<and> (\<not> NATEnabled new \<or> natParamsDiffer old new)"

text \<open>The egress of an interface that wants NAT is the same in every state of the host.\<close>

definition stable_egress :: "'w sys \<Rightarrow> wg_interface \<Rightarrow> string \<times> string \<Rightarrow> bool" where
  "stable_egress S iface e \<longleftrightarrow> (NATEnabled iface \<longrightarrow> fst e \<noteq> []
     \<and> (\<forall>g :: 'w host. result (resolveEgress S (if_EgressInterface iface)) g = Inr e))"

lemma stable_egressD:
  fixes g :: "'w host"
  assumes "stable_egress S iface e" "NATEnabled iface"
  shows "result (resolveEgress S (if_EgressInterface iface)) g = Inr e" "fst e \<noteq> []"
  using assms by (simp_all add: stable_egress_def)

lemma ReconcileNAT_rules:
  fixes h :: "'w host"
  assumes "iptables_ok S R" "iptables_accepts S" "stable_egress S old eo" "stable_egress S new en"
  shows "(let base = (if nat_outdated old new then fold take_rule (nat_rules old eo) (R (world h)) else R (world h))
     in R (world (after (ReconcileNAT S old new) h))
          = (if result (ReconcileNAT S old new) h = None then fold put_rule (nat_rules new en) base else base))"
proof -
  let ?torn = "if nat_outdated old new then do { _ \<leftarrow> TeardownNAT S old; State_Monad.return () }
      else State_Monad.return ()"
  let ?h = "after ?torn h"
  have base: "R (world ?h) = (if nat_outdated old new then fold take_rule (nat_rules old eo) (R (world h)) else R (world h))"
  proof (cases "nat_outdated old new")
    case True
    then have "NATEnabled old" by (simp add: nat_outdated_def)
    then show ?thesis
      using netfilter.TeardownNAT_effect[OF netfilter.intro[OF assms(1)] _ stable_egressD[OF assms(3)], where h = h] True
      by (simp del: run_state_bind add: after_bind)
  qed simp
  have R: "run_state (ReconcileNAT S old new) h
      = run_state (if NATEnabled new then do {
           r \<leftarrow> SetupNAT S new;
           State_Monad.return (case r of Inl e \<Rightarrow> Some e | Inr device \<Rightarrow> None) }
         else State_Monad.return None) ?h"
    unfolding ReconcileNAT_def nat_outdated_def[symmetric] by (subst run_state_bind) (simp only: case_prod_beta)
  show ?thesis
  proof (cases "NATEnabled new")
    case True
    show ?thesis
      unfolding R Let_def base[symmetric]
      using SetupNAT_rules[OF assms(1,2) True stable_egressD(1)[OF assms(4) True], of ?h] True
      by (cases "result (SetupNAT S new) ?h") (simp_all del: run_state_bind add: after_bind result_bind)
  next
    case False
    then show ?thesis unfolding R Let_def base[symmetric] by (simp add: nat_rules_def)
  qed
qed

text \<open>
  C7. Let the egress of the old and of the new settings resolve to one device in every state of the
  host (for an automatic egress: the default route stays). When a sync of the NAT settings succeeds,
  every rule of the new settings is in its chain, added once where it was missing; the rules of the old
  settings are gone (one copy each) when NAT was switched off or a setting changed, unless the new
  settings want them too; every other rule is as it was; and the next sync with the same settings
  changes nothing.
\<close>
theorem ReconcileNAT_converges:
  fixes h :: "'w host"
  assumes "iptables_ok S R" and "iptables_accepts S"
    and "stable_egress S old eo" and "stable_egress S new en"
    and "result (ReconcileNAT S old new) h = None"
  shows "(let h' = after (ReconcileNAT S old new) h;
              gone = (if nat_outdated old new then set (nat_rules old eo) else {});
              want = set (nat_rules new en)
     in (\<forall>t c a. let r = \<lparr>wr_table = t, wr_chain = c, wr_args = a\<rparr>;
                    n = count_list (R (world h) t c) a - (if r \<in> gone then 1 else 0)
          in count_list (R (world h') t c) a = (if r \<in> want then max 1 n else n))
      \<and> R (world (after (ReconcileNAT S new new) h')) = R (world h'))"
proof -
  let ?h = "after (ReconcileNAT S old new) h"
  let ?base = "if nat_outdated old new then fold take_rule (nat_rules old eo) (R (world h)) else R (world h)"
  have R1: "R (world ?h) = fold put_rule (nat_rules new en) ?base"
    using ReconcileNAT_rules[OF assms(1-4), of h] assms(5) by (simp add: Let_def)
  have "nat_outdated new new = False" by (simp add: nat_outdated_def natParamsDiffer_def)
  then have "R (world (after (ReconcileNAT S new new) ?h)) = R (world ?h)"
    using ReconcileNAT_rules[OF assms(1,2,4,4), of ?h] by (simp add: Let_def R1 put_rules_idem split: if_splits)
  then show ?thesis
    unfolding Let_def R1 by (simp add: count_put_rules count_take_rules distinct_nat_rules)
qed

section \<open>A history of syncs\<close>

text \<open>The syncs of one interface under changing settings, each told what was applied before.\<close>

fun nat_syncs :: "'w sys \<Rightarrow> wg_interface \<Rightarrow> wg_interface list \<Rightarrow> ('w, 'm, unit) prog" where
  "nat_syncs S old [] = State_Monad.return ()"
| "nat_syncs S old (new # news) = do { _ \<leftarrow> ReconcileNAT S old new; nat_syncs S new news }"

definition fresh_rules :: "wg_rule list \<Rightarrow> rules \<Rightarrow> bool" where
  "fresh_rules rs R \<longleftrightarrow> (\<forall>r \<in> set rs. wr_args r \<notin> set (R (wr_table r) (wr_chain r)))"

lemma fresh_in_chain: "fresh_rules rs R \<Longrightarrow> set (in_chain t c rs) \<inter> set (R t c) = {}"
  by (auto simp: fresh_rules_def in_chain_def)

lemma fold_remove1_absent: "set xs \<inter> set ys = {} \<Longrightarrow> fold remove1 xs ys = ys"
  by (induction xs) (simp_all add: remove1_idem)

lemma take_absent: "fresh_rules rs R \<Longrightarrow> fold take_rule rs R = R"
  by (intro ext) (simp add: fold_take_rule fold_remove1_absent fresh_in_chain)

text \<open>Settings that do not differ have the same rules.\<close>

lemma same_nat_rules:
  assumes "\<not> natParamsDiffer a b" "if_Name a = if_Name b"
  shows "nat_rules a e = nat_rules b e"
proof -
  have "if_Masquerade a = if_Masquerade b" "if_EgressInterface a = if_EgressInterface b"
    "if_NATSubnets a = if_NATSubnets b" "if_Address a = if_Address b"
    using assms(1) by (auto simp: natParamsDiffer_def)
  then show ?thesis unfolding nat_rules_def NATEnabled_def natSources_def assms(2) by (simp only:)
qed

text \<open>
  The invariant of a history: the firewall is the original one, alone or with the rules of the
  settings applied last.
\<close>

lemma installed_or_not:
  "x = (if ok then P y else y) \<Longrightarrow> y = r \<or> y = q \<Longrightarrow> P q = P r \<Longrightarrow> q = r \<or> q = P r \<Longrightarrow> x = r \<or> x = P r"
  by (cases ok) auto

lemma nat_syncs_invariant:
  fixes h :: "'w host" and n :: string
  assumes "iptables_ok S R" "iptables_accepts S"
    and "\<forall>i \<in> set (old # ifaces). if_Name i = n \<and> stable_egress S i (e (if_EgressInterface i))
         \<and> fresh_rules (nat_rules i (e (if_EgressInterface i))) R0"
    and "R (world h) = R0 \<or> R (world h) = fold put_rule (nat_rules old (e (if_EgressInterface old))) R0"
  shows "R (world (after (nat_syncs S old ifaces) h)) = R0
    \<or> R (world (after (nat_syncs S old ifaces) h))
        = fold put_rule (nat_rules (last (old # ifaces)) (e (if_EgressInterface (last (old # ifaces))))) R0"
  using assms(3,4)
proof (induction ifaces arbitrary: old h)
  case (Cons new ifaces)
  let ?h = "after (ReconcileNAT S old new) h"
  let ?rs = "\<lambda>i. nat_rules i (e (if_EgressInterface i))"
  have rules: "R (world ?h) = (let base = (if nat_outdated old new then fold take_rule (?rs old) (R (world h)) else R (world h))
     in if result (ReconcileNAT S old new) h = None then fold put_rule (?rs new) base else base)"
    using ReconcileNAT_rules[OF assms(1,2), of old _ new _ h] Cons.prems(1) unfolding Let_def by simp
  have undone: "fold take_rule (?rs old) (R (world h)) = R0"
    using Cons.prems by (auto simp: take_absent take_put_rules distinct_nat_rules fresh_in_chain)
  have kept: "fold put_rule (?rs new) (fold put_rule (?rs old) R0) = fold put_rule (?rs new) R0
      \<and> (fold put_rule (?rs old) R0 = R0 \<or> fold put_rule (?rs old) R0 = fold put_rule (?rs new) R0)"
    if "\<not> nat_outdated old new"
  proof (cases "NATEnabled old")
    case True
    with that have d: "\<not> natParamsDiffer old new" by (simp add: nat_outdated_def)
    then have "if_EgressInterface old = if_EgressInterface new" by (simp add: natParamsDiffer_def)
    moreover have "if_Name old = if_Name new" using Cons.prems(1) by simp
    ultimately have "?rs old = ?rs new" using same_nat_rules[OF d] by simp
    then show ?thesis by (simp only: put_rules_idem simp_thms)
  next
    case False
    then have "?rs old = []" by (simp add: nat_rules_def)
    then show ?thesis by simp
  qed
  have "R (world ?h) = R0 \<or> R (world ?h) = fold put_rule (?rs new) R0"
  proof (cases "nat_outdated old new")
    case True
    then show ?thesis unfolding rules Let_def undone by simp
  next
    case False
    then have "R (world ?h) = (if result (ReconcileNAT S old new) h = None
        then fold put_rule (?rs new) (R (world h)) else R (world h))"
      using rules by (simp only: Let_def if_False)
    from installed_or_not[where P = "fold put_rule (?rs new)", OF this Cons.prems(2)] kept[OF False]
    show ?thesis by blast
  qed
  moreover have "after (nat_syncs S old (new # ifaces)) h = after (nat_syncs S new ifaces) ?h"
    by (simp only: nat_syncs.simps after_bind)
  moreover have "\<forall>i \<in> set (new # ifaces). if_Name i = n \<and> stable_egress S i (e (if_EgressInterface i))
      \<and> fresh_rules (nat_rules i (e (if_EgressInterface i))) R0"
    using Cons.prems(1) by (meson list.set_intros(2))
  ultimately show ?case
    unfolding list.simps(3) last_ConsR[OF list.simps(3)] using Cons.IH[of new ?h] by (simp only:)
qed simp

text \<open>
  C8. Whatever settings an interface goes through, switching NAT off in the end puts the whole
  firewall back to where it was before NAT was first switched on, in every chain and in the order of
  its rules, as long as the rules were not there before and the egress resolves to one device
  throughout; also when some of the syncs fail.
\<close>
theorem nat_history_restores_firewall:
  fixes h :: "'w host"
  assumes "iptables_ok S R" and "iptables_accepts S"
    and "\<forall>i \<in> set (start # ifaces @ [off]). if_Name i = n \<and> stable_egress S i (e (if_EgressInterface i))
         \<and> fresh_rules (nat_rules i (e (if_EgressInterface i))) (R (world h))"
    and "\<not> NATEnabled off"
  shows "R (world (after (nat_syncs S start (ifaces @ [off])) h)) = R (world h)"
  using nat_syncs_invariant[OF assms(1-3), of h] assms(4) by (simp add: nat_rules_def)

section \<open>Concrete settings\<close>

definition lan :: "string \<Rightarrow> string \<Rightarrow> wg_interface" where
  "lan egress subnets = \<lparr>if_Name = ''w'', if_PrivateKey = [], if_ListenPort = 1, if_Address = ''10.0.0.1/8'',
     if_MTU = 0, if_Masquerade = False, if_EgressInterface = egress, if_NATSubnets = subnets,
     if_PolicyRoutes = [], if_Extras = \<lparr>ex_Routes = [], ex_Rules = [], ex_NAT = []\<rparr>, if_Peers = []\<rparr>"

lemma stable_lan: "stable_egress S (lan ''eth0'' ss) (''eth0'', [])"
proof -
  have "TrimSpace ''eth0'' = ''eth0''" "ParseIP ''eth0'' = None" by code_simp+
  then show ?thesis by (simp add: stable_egress_def resolveEgress_def lan_def)
qed

lemma off_lan: "\<not> NATEnabled (lan [] [])"
  by code_simp

lemma nat_rules_lan:
  "nat_rules (lan ''eth0'' ''1.2.0.0/16'') (''eth0'', []) = natRules [''1.2.0.0/16''] ''w'' ''eth0'' []"
  "nat_rules (lan ''eth0'' ''1.3.3.3/8, 1.2.3.4/8'') (''eth0'', []) = natRules [''1.0.0.0/8''] ''w'' ''eth0'' []"
  by code_simp+

theorem ReconcileNAT_converges_witness:
  "count_list (sim_rules (world (after (ReconcileNAT sim_sys (lan ''eth0'' ''1.2.0.0/16'')
       (lan ''eth0'' ''1.3.3.3/8, 1.2.3.4/8'')) (init_host sim_host))) ''nat'' ''POSTROUTING'')
     [''-s'', ''1.0.0.0/8'', ''-o'', ''eth0'', ''-j'', ''MASQUERADE''] = 1"
proof -
  have "result (ReconcileNAT sim_sys (lan ''eth0'' ''1.2.0.0/16'') (lan ''eth0'' ''1.3.3.3/8, 1.2.3.4/8''))
      (init_host sim_host) = None" by code_simp
  from ReconcileNAT_converges[OF sim_iptables_ok sim_iptables_accepts stable_lan stable_lan this]
  show ?thesis
    unfolding Let_def nat_rules_lan by (simp add: natRules_def sim_host_def)
qed

theorem nat_history_restores_firewall_witness:
  "sim_rules (world (after (nat_syncs sim_sys (lan [] []) ([lan ''eth0'' ''1.2.0.0/16'',
       lan ''eth0'' ''1.3.3.3/8, 1.2.3.4/8''] @ [lan [] []])) (init_host sim_host))) = (\<lambda>t c. [])"
proof -
  let ?on = "[lan ''eth0'' ''1.2.0.0/16'', lan ''eth0'' ''1.3.3.3/8, 1.2.3.4/8'']"
  let ?e = "\<lambda>s. (s, [])"
  have "stable_egress sim_sys (lan [] []) ([], [])" using off_lan by (simp add: stable_egress_def)
  then have "\<forall>i \<in> set (lan [] [] # ?on @ [lan [] []]). if_Name i = ''w''
      \<and> stable_egress sim_sys i (?e (if_EgressInterface i))
      \<and> fresh_rules (nat_rules i (?e (if_EgressInterface i))) (sim_rules (world (init_host sim_host)))"
    using stable_lan by (auto simp: fresh_rules_def sim_host_def lan_def)
  from nat_history_restores_firewall[OF sim_iptables_ok sim_iptables_accepts this off_lan]
  show ?thesis by (simp add: sim_host_def)
qed

end
