(* ===== verification/WgSources.thy ===== *)
theory WgSources
  imports WgNatFacts
begin

text \<open>
  The source subnets of the NAT rules: whatever the operator writes, what reaches the iptables
  command line is the text of masked networks.
\<close>

definition subnet_char :: "char \<Rightarrow> bool" where
  "subnet_char c \<longleftrightarrow> c \<in> set ''0123456789abcdef.:/''"

definition valid_net :: "ipnet \<Rightarrow> bool" where
  "valid_net net = (case net of (a, b, width) \<Rightarrow>
     (width = 32 \<or> width = 128) \<and> b \<le> width \<and> clear_low (width - b) a = a)"

lemma list_all_Join:
  "list_all P sep \<Longrightarrow> list_all (list_all P) xs \<Longrightarrow> list_all P (Join xs sep)"
  by (induction xs sep rule: Join.induct) auto

lemma subnet_char_digit: "d < 10 \<Longrightarrow> subnet_char (digit_char d)"
proof -
  assume "d < 10"
  then have "d \<in> set [0..<10]" by simp
  moreover have "list_all (\<lambda>d. subnet_char (digit_char d)) [0..<10]" by code_simp
  ultimately show ?thesis by (simp only: list_all_iff)
qed

lemma subnet_char_nat_str: "list_all subnet_char (nat_str n)"
  by (induction n rule: nat_str.induct) (subst nat_str.simps, simp add: subnet_char_digit)

lemma subnet_char_hex: "0 \<le> d \<Longrightarrow> d < 16 \<Longrightarrow> subnet_char (hex_char d)"
proof -
  assume "0 \<le> d" "d < 16"
  then have "d \<in> set [0..15]" by auto
  moreover have "list_all (\<lambda>d. subnet_char (hex_char d)) [0..15]" by code_simp
  ultimately show ?thesis by (auto simp: list_all_iff)
qed

lemma subnet_char_hex_str: "0 \<le> g \<Longrightarrow> g < 65536 \<Longrightarrow> list_all subnet_char (hex_str g)"
proof -
  assume g: "0 \<le> g" "g < 65536"
  have "list_all (\<lambda>d. 0 \<le> d \<and> d < 16) [g div 4096, g div 256 mod 16, g div 16 mod 16, g mod 16]"
    using g zdiv_mono1[of g 65535 4096] by simp
  then have "list_all (\<lambda>d. 0 \<le> d \<and> d < 16)
      (dropWhile (\<lambda>d. d = 0) [g div 4096, g div 256 mod 16, g div 16 mod 16, g mod 16])"
    using set_dropWhileD by (fastforce simp: list_all_iff)
  then have "list_all (\<lambda>d. subnet_char (hex_char d))
      (dropWhile (\<lambda>d. d = 0) [g div 4096, g div 256 mod 16, g div 16 mod 16, g mod 16])"
    using subnet_char_hex by (simp only: list_all_iff, blast)
  moreover have "list_all subnet_char ''0''" by (simp add: subnet_char_def)
  ultimately show ?thesis
    unfolding hex_str_def Let_def list.pred_map comp_def by (simp only: if_split list.pred_map comp_def, blast)
qed

lemma subnet_char_v6: "list_all subnet_char (v6_string n)"
proof -
  have groups: "list_all (\<lambda>g. 0 \<le> g \<and> g < 65536) (v6_split n)"
    by (simp add: v6_split_def list_all_iff)
  have c: "subnet_char (CHR '':'')" by (simp add: subnet_char_def)
  have hex: "list_all subnet_char (Join (map hex_str gs) '':'')" if "set gs \<subseteq> set (v6_split n)" for gs
    using that groups c subnet_char_hex_str
    by (intro list_all_Join) (simp, simp only: list_all_iff set_map ball_simps, blast)
  show ?thesis
    unfolding v6_string_def Let_def using c
    by (auto split: prod.splits intro!: hex dest: in_set_takeD in_set_dropD)
qed

lemma subnet_char_v4: "list_all subnet_char (v4_string n)"
  unfolding v4_string_def
  by (rule list_all_Join) (simp_all add: subnet_char_nat_str, simp add: subnet_char_def)

lemma subnet_char_IPNet: "list_all subnet_char (IPNet_String net)" "IPNet_String net \<noteq> []"
  by (auto simp: IPNet_String_def IP_String_def Let_def subnet_char_nat_str subnet_char_v4 subnet_char_v6
      subnet_char_def split: prod.splits option.splits)

lemma clear_low_idem: "clear_low k (clear_low k a) = clear_low k a"
  by (simp add: clear_low_def ac_simps)

lemma ParseCIDR_valid: "ParseCIDR s = Some net \<Longrightarrow> valid_net net"
  by (auto simp: ParseCIDR_def Let_def valid_net_def clear_low_idem split: if_splits option.splits prod.splits)

definition network_texts :: "string set" where
  "network_texts = IPNet_String ` {net. valid_net net}"

lemma subnetFor_Inr: "subnetFor s = Inr t \<Longrightarrow> t \<in> network_texts"
  unfolding subnetFor_def network_texts_def
  using ParseCIDR_valid[of "TrimSpace s"] by (cases "ParseCIDR (TrimSpace s)") auto

lemma custom_subnets_Inr:
  "custom_subnets parts custom = Inr ss \<Longrightarrow> set ss \<subseteq> set custom \<union> network_texts"
proof (induction parts custom rule: custom_subnets.induct)
  case (2 raw parts custom)
  show ?case
  proof (cases "TrimSpace raw = []")
    case False
    with 2(4) obtain norm where norm: "subnetFor (TrimSpace raw) = Inr norm"
      by (auto simp: Let_def split: sum.splits)
    with subnetFor_Inr[OF norm] 2(2,3)[OF refl False norm] 2(4) False show ?thesis
      by (cases "norm \<in> set custom") (fastforce simp: Let_def)+
  qed (use 2 in \<open>simp add: Let_def\<close>)
qed simp

text \<open>An interface that only sets NAT subnets.\<close>

definition one_lan :: "string \<Rightarrow> wg_interface" where
  "one_lan subnets = \<lparr>if_Name = ''w'', if_PrivateKey = [], if_ListenPort = 1, if_Address = [],
     if_MTU = 0, if_Masquerade = False, if_EgressInterface = [], if_NATSubnets = subnets,
     if_PolicyRoutes = [], if_Extras = \<lparr>ex_Routes = [], ex_Rules = [], ex_NAT = []\<rparr>, if_Peers = []\<rparr>"

text \<open>
  C34. The source subnets of an interface are never empty, pairwise different, and each is the text of
  a network whose host bits are clear; so a subnet on the iptables command line is made of
  hexadecimal digits, dots, colons and a slash, and can be taken neither for an option nor for a
  negation.
\<close>
theorem nat_sources_are_networks:
  assumes "natSources iface = Inr ss"
  shows "ss \<noteq> [] \<and> distinct ss
    \<and> (\<forall>s \<in> set ss. s \<in> network_texts
        \<and> s \<noteq> [] \<and> list_all subnet_char s \<and> hd s \<noteq> CHR ''-'' \<and> hd s \<noteq> CHR ''!'')"
proof -
  have net: "s \<in> network_texts" if "s \<in> set ss" for s
    using assms that custom_subnets_Inr[of "Split (if_NATSubnets iface) (CHR '','')" "[]" ss] subnetFor_Inr
    by (auto simp: natSources_def split: sum.splits if_splits)
  moreover have "s \<noteq> [] \<and> list_all subnet_char s \<and> hd s \<noteq> CHR ''-'' \<and> hd s \<noteq> CHR ''!''" if "s \<in> set ss" for s
  proof -
    have s: "s \<noteq> []" "list_all subnet_char s" using net[OF that] subnet_char_IPNet by (auto simp: network_texts_def)
    then have "subnet_char (hd s)" by (simp add: list_all_iff)
    with s show ?thesis by (auto simp: subnet_char_def)
  qed
  moreover have "ss \<noteq> []" using assms by (auto simp: natSources_def split: sum.splits if_splits)
  ultimately show ?thesis using natSources_distinct[OF assms] by blast
qed

theorem nat_sources_are_networks_witness:
  "natSources (one_lan ''10.7.7.7/8'') = Inr [''10.0.0.0/8''] \<and> ''10.0.0.0/8'' \<in> network_texts"
proof -
  have "natSources (one_lan ''10.7.7.7/8'') = Inr [''10.0.0.0/8'']" by code_simp
  with nat_sources_are_networks[OF this] show ?thesis by simp
qed

end
