(* ===== verification/WgPolicy.thy ===== *)
theory WgPolicy
  imports WgNat
begin

text \<open>
  \<open>src/wg/policy.go\<close>: the operator's policy routes, lines of text that are \<open>ip\<close> commands. This
  theory holds the definitions, one per Go function; log lines are left out.
\<close>

section \<open>Lines\<close>

definition policyLines :: "string \<Rightarrow> string list" where
  "policyLines conf = filter (\<lambda>ln. ln \<noteq> [] \<and> \<not> HasPrefix ln ''#'') (map TrimSpace (Split conf (CHR 0x0A)))"

datatype policy_error = UnsupportedLine string | IpFailed string

text \<open>The first \<open>add\<close> or \<open>del\<close> of a command becomes the given verb.\<close>

fun swap_verb :: "string \<Rightarrow> string list \<Rightarrow> string list" where
  "swap_verb verb [] = []"
| "swap_verb verb (f # fs) = (if f = ''add'' \<or> f = ''del'' then verb # fs else f # swap_verb verb fs)"

definition runPolicyLine :: "'w sys \<Rightarrow> string \<Rightarrow> string \<Rightarrow> ('w, 'm, policy_error option) prog" where
  "runPolicyLine S line verb =
     (let fs = Fields line
      in if length fs < 2 \<or> fs ! 0 \<noteq> ''ip'' then State_Monad.return (Some (UnsupportedLine line))
         else (let swapped = swap_verb verb fs
               in do {
                 r \<leftarrow> do_call S (Exec (swapped ! 0) (drop 1 swapped));
                 State_Monad.return (map_option (\<lambda>e. IpFailed (''ip '' @ Join (drop 1 swapped) '' '' @ '': '' @ e
                   @ '' ('' @ TrimSpace (rcomb r) @ '')'')) (rerr r)) }))"

definition applyPolicyLine :: "'w sys \<Rightarrow> string \<Rightarrow> ('w, 'm, unit) prog" where
  "applyPolicyLine S line = do {
     _ \<leftarrow> runPolicyLine S line ''del'';
     _ \<leftarrow> runPolicyLine S line ''add'';
     State_Monad.return () }"

section \<open>Source subnets\<close>

text \<open>The inner loop of \<open>policyFromSubnets\<close>: every field that follows a \<open>from\<close>.\<close>

fun after_from :: "string list \<Rightarrow> string list" where
  "after_from (a # b # fs) = (if a = ''from'' then [b] else []) @ after_from (b # fs)"
| "after_from _ = []"

definition policyFromSubnets :: "string \<Rightarrow> string list" where
  "policyFromSubnets conf = concat (map (\<lambda>ln. after_from (Fields ln)) (policyLines conf))"

definition policyForwardRules :: "string list \<Rightarrow> wg_rule list" where
  "policyForwardRules subnets = concat (map (\<lambda>s.
     [\<lparr>wr_table = [], wr_chain = ''FORWARD'', wr_args = [''-s'', s, ''-j'', ''ACCEPT'']\<rparr>,
      \<lparr>wr_table = [], wr_chain = ''FORWARD'',
       wr_args = [''-d'', s, ''-m'', ''state'', ''--state'', ''RELATED,ESTABLISHED'', ''-j'', ''ACCEPT'']\<rparr>]) subnets)"

section \<open>Installing and removing\<close>

definition ensure_each :: "'w sys \<Rightarrow> wg_rule list \<Rightarrow> ('w, 'm, unit) prog" where
  "ensure_each S rs = for_each rs (\<lambda>r. do { _ \<leftarrow> ensureRule S r; State_Monad.return () })"

definition delete_each :: "'w sys \<Rightarrow> wg_rule list \<Rightarrow> ('w, 'm, unit) prog" where
  "delete_each S rs = for_each rs (\<lambda>r. do { _ \<leftarrow> deleteRule S r; State_Monad.return () })"

definition delete_lines :: "'w sys \<Rightarrow> string list \<Rightarrow> ('w, 'm, unit) prog" where
  "delete_lines S lines = for_each lines (\<lambda>ln. do { _ \<leftarrow> runPolicyLine S ln ''del''; State_Monad.return () })"

definition ApplyPolicyRoutes :: "'w sys \<Rightarrow> string \<Rightarrow> ('w, 'm, unit) prog" where
  "ApplyPolicyRoutes S conf =
     (let lines = policyLines conf
      in if length lines = 0 then State_Monad.return ()
         else do {
           _ \<leftarrow> EnableForwarding S;
           for_each lines (applyPolicyLine S);
           ensure_each S (policyForwardRules (policyFromSubnets conf)) })"

definition RemovePolicyRoutes :: "'w sys \<Rightarrow> string \<Rightarrow> ('w, 'm, unit) prog" where
  "RemovePolicyRoutes S conf = do {
     delete_lines S (policyLines conf);
     delete_each S (policyForwardRules (policyFromSubnets conf)) }"

definition stale_lines :: "string \<Rightarrow> string \<Rightarrow> string list" where
  "stale_lines oldText newText = filter (\<lambda>ln. ln \<notin> set (policyLines newText)) (policyLines oldText)"

definition stale_subnets :: "string \<Rightarrow> string \<Rightarrow> string list" where
  "stale_subnets oldText newText = filter (\<lambda>s. s \<notin> set (policyFromSubnets newText)) (policyFromSubnets oldText)"

definition ReconcilePolicyRoutes :: "'w sys \<Rightarrow> string \<Rightarrow> string \<Rightarrow> ('w, 'm, unit) prog" where
  "ReconcilePolicyRoutes S oldText newText = do {
     delete_lines S (stale_lines oldText newText);
     delete_each S (policyForwardRules (stale_subnets oldText newText));
     ApplyPolicyRoutes S newText }"

section \<open>The watchdog\<close>

definition ipShow :: "'w sys \<Rightarrow> string list \<Rightarrow> ('w, 'm, string) prog" where
  "ipShow S args = do {
     r \<leftarrow> do_call S (Exec ''ip'' args);
     State_Monad.return (if rerr r \<noteq> nil then [] else rcomb r) }"

fun fieldAfter :: "string list \<Rightarrow> string \<Rightarrow> string" where
  "fieldAfter (a # b # fs) key = (if a = key then b else fieldAfter (b # fs) key)"
| "fieldAfter _ key = []"

definition hasField :: "string list \<Rightarrow> string \<Rightarrow> bool" where
  "hasField fs v = list_ex (\<lambda>f. f = v) fs"

definition policyLinePresent :: "'w sys \<Rightarrow> string \<Rightarrow> ('w, 'm, bool) prog" where
  "policyLinePresent S line =
     (let f = Fields line; table = fieldAfter f ''table''
      in if table = [] then State_Monad.return True
         else if hasField f ''rule'' then do {
           out \<leftarrow> ipShow S [''rule'', ''show''];
           (let src = fieldAfter f ''from''
            in State_Monad.return (list_ex (\<lambda>ln. (src = [] \<or> Contains ln (''from '' @ src))
                 \<and> Contains ln (''lookup '' @ table)) (Split out (CHR 0x0A)))) }
         else if hasField f ''route'' then do {
           out \<leftarrow> ipShow S [''route'', ''show'', ''table'', table];
           State_Monad.return (TrimSpace out \<noteq> []) }
         else State_Monad.return True)"

definition EnsurePolicyRoutes :: "'w sys \<Rightarrow> string \<Rightarrow> ('w, 'm, unit) prog" where
  "EnsurePolicyRoutes S conf =
     (let lines = policyLines conf
      in if length lines = 0 then State_Monad.return ()
         else do {
           _ \<leftarrow> EnableForwarding S;
           for_each lines (\<lambda>ln. do {
             present \<leftarrow> policyLinePresent S ln;
             if present then State_Monad.return () else applyPolicyLine S ln });
           ensure_each S (policyForwardRules (policyFromSubnets conf)) })"

end
