(* ===== verification/Engine.thy ===== *)
theory Engine
  imports WgPolicy
begin

text \<open>
  \<open>src/engine/kernel.go\<close>: the datapath engine of the kernel's WireGuard module. The engine is a
  value that \<open>Apply\<close> takes and returns; a Go map that is ranged over is an association list of its
  entries, and the order in which Go ranges over it is an argument: \<open>mord\<close> for the managed
  interfaces, \<open>pord\<close> for the peers of a device. The mutex makes the calls of one engine sequential;
  log lines are left out.
\<close>

type_synonym interfaces = "(string, wg_interface) go_map"

text \<open>The zero value of \<open>wg.Interface\<close>, which a map gives for a name it does not hold.\<close>

definition zero_interface :: wg_interface where
  "zero_interface = \<lparr>if_Name = [], if_PrivateKey = [], if_ListenPort = 0, if_Address = [], if_MTU = 0,
     if_Masquerade = False, if_EgressInterface = [], if_NATSubnets = [], if_PolicyRoutes = [],
     if_Extras = \<lparr>ex_Routes = [], ex_Rules = [], ex_NAT = []\<rparr>, if_Peers = []\<rparr>"

definition managed_interface :: "interfaces \<Rightarrow> string \<Rightarrow> wg_interface" where
  "managed_interface m name = (case map_of m name of None \<Rightarrow> zero_interface | Some i \<Rightarrow> i)"

text \<open>\<open>want[iface.Name] = iface\<close> for every wanted interface, in order.\<close>

definition wanted_map :: "wg_interface list \<Rightarrow> interfaces" where
  "wanted_map ifaces = fold (\<lambda>i. AList.update (if_Name i) i) ifaces []"

record kernel_engine =
  ke_managed :: interfaces

definition NewKernelEngine :: kernel_engine where
  "NewKernelEngine = \<lparr>ke_managed = []\<rparr>"

definition kernel_reconcile ::
  "wg_lib \<Rightarrow> 'w sys \<Rightarrow> (string list \<Rightarrow> string list) \<Rightarrow> interfaces \<Rightarrow> wg_interface \<Rightarrow> ('w, 'm, unit) prog" where
  "kernel_reconcile L S pord managed iface = do {
     _ \<leftarrow> wg_Reconcile L S pord iface;
     _ \<leftarrow> ReconcileNAT S (managed_interface managed (if_Name iface)) iface;
     ReconcilePolicyRoutes S (if_PolicyRoutes (managed_interface managed (if_Name iface))) (if_PolicyRoutes iface) }"

definition kernel_remove :: "'w sys \<Rightarrow> interfaces \<Rightarrow> string \<Rightarrow> ('w, 'm, unit) prog" where
  "kernel_remove S managed name = do {
     RemovePolicyRoutes S (if_PolicyRoutes (managed_interface managed name));
     _ \<leftarrow> TeardownNAT S (managed_interface managed name);
     _ \<leftarrow> RemoveLink S name;
     State_Monad.return () }"

text \<open>The managed interfaces that are no longer wanted, in the order of the loop.\<close>

definition stale_interfaces :: "string list \<Rightarrow> wg_interface list \<Rightarrow> string list" where
  "stale_interfaces names ifaces = filter (\<lambda>n. n \<notin> set (map if_Name ifaces)) names"

definition kernel_Apply ::
  "wg_lib \<Rightarrow> 'w sys \<Rightarrow> (string list \<Rightarrow> string list) \<Rightarrow> (string list \<Rightarrow> string list)
   \<Rightarrow> wg_interface list \<Rightarrow> kernel_engine \<Rightarrow> ('w, 'm, go_error \<times> kernel_engine) prog" where
  "kernel_Apply L S mord pord ifaces e = do {
     for_each ifaces (kernel_reconcile L S pord (ke_managed e));
     for_each (stale_interfaces (mord (map_keys (ke_managed e))) ifaces) (kernel_remove S (ke_managed e));
     State_Monad.return (nil, e\<lparr>ke_managed := wanted_map ifaces\<rparr>) }"

text \<open>The loop of \<open>Stats\<close>: a device that cannot be read is left out.\<close>

fun read_stats :: "wg_lib \<Rightarrow> 'w sys \<Rightarrow> string list \<Rightarrow> ('w, 'm, peer_stat list) prog" where
  "read_stats L S [] = State_Monad.return []"
| "read_stats L S (name # names) = do {
     s \<leftarrow> DeviceStats L S name;
     rest \<leftarrow> read_stats L S names;
     State_Monad.return (case s of Inl e \<Rightarrow> rest | Inr stats \<Rightarrow> stats @ rest) }"

definition kernel_Stats ::
  "wg_lib \<Rightarrow> 'w sys \<Rightarrow> (string list \<Rightarrow> string list) \<Rightarrow> kernel_engine
   \<Rightarrow> ('w, 'm, peer_stat list go_result) prog" where
  "kernel_Stats L S mord e = do {
     out \<leftarrow> read_stats L S (mord (map_keys (ke_managed e)));
     State_Monad.return (Inr out) }"

definition kernel_Close :: "kernel_engine \<Rightarrow> ('w, 'm, go_error) prog" where
  "kernel_Close e = State_Monad.return nil"

end
