(* ===== verification/WgPolicyFacts.thy ===== *)
theory WgPolicyFacts
  imports WgPolicy WgNatFacts
begin

text \<open>
  What the policy routes of an interface do to the firewall, which commands they run, and what the
  removal of a line runs.
\<close>

interpretation policy_lines: stale_plan "\<lambda>conf. set (policyLines conf)" "\<lambda>conf. set (policyLines conf)" stale_lines
  by unfold_locales (auto simp: stale_lines_def)

interpretation policy_subnets: stale_plan "\<lambda>conf. set (policyFromSubnets conf)" "\<lambda>conf. set (policyFromSubnets conf)" stale_subnets
  by unfold_locales (auto simp: stale_subnets_def)

section \<open>Forward rules\<close>

lemma count_in_chain: "count_list (in_chain t c rs) a = count_list rs \<lparr>wr_table = t, wr_chain = c, wr_args = a\<rparr>"
  by (induction rs) (auto simp: in_chain_def intro: wg_rule.equality)

lemma count_fold_remove1: "count_list (fold remove1 xs ys) a = count_list ys a - count_list xs a"
  by (induction xs arbitrary: ys) (auto simp: count_list_remove1)

lemma count_take_copies:
  "count_list (fold take_rule rs R t c) a
     = count_list (R t c) a - count_list rs \<lparr>wr_table = t, wr_chain = c, wr_args = a\<rparr>"
  by (simp add: fold_take_rule count_fold_remove1 count_in_chain)

definition forward_rules :: "string \<Rightarrow> wg_rule list" where
  "forward_rules conf = policyForwardRules (policyFromSubnets conf)"

lemma forward_rules_empty: "policyLines conf = [] \<Longrightarrow> policyForwardRules (policyFromSubnets conf) = []"
  by (simp add: policyFromSubnets_def policyForwardRules_def)

lemma stale_none: "stale_lines conf conf = []" "stale_subnets conf conf = []"
  by (simp_all add: stale_lines_def stale_subnets_def)

context netfilter
begin

lemma quiet_runPolicyLine: "quiet (runPolicyLine S line verb)"
proof (cases "length (Fields line) < 2 \<or> Fields line ! 0 \<noteq> ''ip''")
  case False
  then obtain f fs where "Fields line = ''ip'' # f # fs"
    by (cases "Fields line" rule: remdups_adj.cases) auto
  then show ?thesis unfolding runPolicyLine_def Let_def by (intro quiet_intros) simp
qed (simp add: runPolicyLine_def Let_def quiet_return)

lemma quiet_lines:
  "quiet (applyPolicyLine S line)" "quiet (delete_lines S lines)" "quiet (policyLinePresent S line)"
  unfolding applyPolicyLine_def delete_lines_def policyLinePresent_def ipShow_def
  by (intro quiet_intros quiet_runPolicyLine; simp)+

lemma ensure_each_effect:
  assumes "iptables_accepts S"
  shows "R (world (after (ensure_each S rs) h)) = fold put_rule rs (R (world h))"
  unfolding ensure_each_def
  by (induction rs arbitrary: h)
    (simp_all del: run_state_bind add: after_bind ensureRule_effect[OF assms])

lemma delete_each_effect: "R (world (after (delete_each S rs) h)) = fold take_rule rs (R (world h))"
  unfolding delete_each_def
  by (induction rs arbitrary: h) (simp_all del: run_state_bind add: after_bind deleteRule_effect)

lemma quiet_loops:
  "quiet (for_each lines (applyPolicyLine S))"
  "quiet (for_each lines (\<lambda>ln. do {
      present \<leftarrow> policyLinePresent S ln;
      if present then State_Monad.return () else applyPolicyLine S ln }))"
  by (intro quiet_for_each quiet_bind quiet_if quiet_return quiet_lines)+

lemma ApplyPolicyRoutes_effect:
  assumes "iptables_accepts S"
  shows "R (world (after (ApplyPolicyRoutes S conf) h)) = fold put_rule (forward_rules conf) (R (world h))"
  by (cases "policyLines conf = []")
    (simp_all del: run_state_bind add: ApplyPolicyRoutes_def Let_def after_bind ensure_each_effect[OF assms]
      quietD[OF quiet_loops(1)] quietD[OF quiet_EnableForwarding] forward_rules_empty forward_rules_def[of conf])

lemma EnsurePolicyRoutes_effect:
  assumes "iptables_accepts S"
  shows "R (world (after (EnsurePolicyRoutes S conf) h)) = fold put_rule (forward_rules conf) (R (world h))"
  by (cases "policyLines conf = []")
    (simp_all del: run_state_bind add: EnsurePolicyRoutes_def Let_def after_bind ensure_each_effect[OF assms]
      quietD[OF quiet_loops(2)] quietD[OF quiet_EnableForwarding] forward_rules_empty forward_rules_def[of conf])

lemma ReconcilePolicyRoutes_effect:
  assumes "iptables_accepts S"
  shows "R (world (after (ReconcilePolicyRoutes S oldText newText) h))
     = fold put_rule (forward_rules newText)
         (fold take_rule (policyForwardRules (stale_subnets oldText newText)) (R (world h)))"
  unfolding ReconcilePolicyRoutes_def
  by (simp del: run_state_bind
      add: after_bind ApplyPolicyRoutes_effect[OF assms] delete_each_effect quietD[OF quiet_lines(2)])

end

lemmas policy_effects = netfilter.ReconcilePolicyRoutes_effect[OF netfilter.intro]
  netfilter.EnsurePolicyRoutes_effect[OF netfilter.intro]

text \<open>
  C15. A sync of the policy routes leaves every forwarding rule of the new text in the FORWARD chain,
  added once where it was missing, takes away the rules of every subnet that is no longer routed, and
  touches no other rule; neither a second sync nor the watchdog then changes any rule.
\<close>
theorem policy_rules_converge:
  assumes "iptables_ok S R" and "iptables_accepts S"
  shows "(let h' = after (ReconcilePolicyRoutes S oldText newText) h;
              gone = policyForwardRules (stale_subnets oldText newText);
              want = set (policyForwardRules (policyFromSubnets newText))
     in (\<forall>t c a. let r = \<lparr>wr_table = t, wr_chain = c, wr_args = a\<rparr>;
                    n = count_list (R (world h) t c) a - count_list gone r
          in count_list (R (world h') t c) a = (if r \<in> want then max 1 n else n))
      \<and> (\<forall>t c. (t, c) \<noteq> ([], ''FORWARD'') \<longrightarrow> R (world h') t c = R (world h) t c)
      \<and> R (world (after (ReconcilePolicyRoutes S newText newText) h')) = R (world h')
      \<and> R (world (after (EnsurePolicyRoutes S newText) h')) = R (world h'))"
proof -
  have other: "in_chain t c (policyForwardRules ss) = []" if "(t, c) \<noteq> ([], ''FORWARD'')" for t c ss
    using that by (auto simp: in_chain_def policyForwardRules_def filter_empty_conv)
  show ?thesis
    unfolding Let_def policy_effects[OF assms] forward_rules_def stale_none
    by (simp add: count_put_rules count_take_copies put_rules_idem)
      (simp add: fold_put_rule fold_take_rule other policyForwardRules_def[of "[]"] put_rules_idem)
qed

theorem policy_rules_converge_witness:
  "count_list (sim_rules (world (after (ReconcilePolicyRoutes sim_sys [] ''ip rule add from 10.0.0.0/8 lookup 7'')
      (init_host sim_host))) [] ''FORWARD'') [''-s'', ''10.0.0.0/8'', ''-j'', ''ACCEPT''] = 1"
proof -
  have "policyFromSubnets ''ip rule add from 10.0.0.0/8 lookup 7'' = [''10.0.0.0/8'']"
    "stale_subnets [] ''ip rule add from 10.0.0.0/8 lookup 7'' = []"
    by code_simp+
  with policy_rules_converge[OF sim_iptables_ok sim_iptables_accepts, where h = "init_host sim_host"
      and oldText = "[]" and newText = "''ip rule add from 10.0.0.0/8 lookup 7''"]
  show ?thesis unfolding Let_def by (simp add: policyForwardRules_def sim_host_def)
qed

section \<open>Removing a line\<close>

lemma swap_verb_no_verb: "''add'' \<notin> set fs \<Longrightarrow> ''del'' \<notin> set fs \<Longrightarrow> swap_verb verb fs = fs"
  by (induction fs) auto

text \<open>
  C35. A line that calls \<open>ip\<close> is removed by running it with its first \<open>add\<close>
  or \<open>del\<close> turned into \<open>del\<close>. A line that has one is run as that deletion; a
  line that has neither, \<open>ip route replace ...\<close> for instance, is run as it is, so removing
  it installs it again.
\<close>
theorem line_removal:
  fixes h :: "('w, 'm) host_scheme"
  assumes "Fields line = ''ip'' # fs" and "fs \<noteq> []"
  shows "calls (runPolicyLine S line ''del'') h
      = [Exec ''ip'' (if {''add'', ''del''} \<inter> set fs = {} then fs
           else takeWhile (\<lambda>f. f \<notin> {''add'', ''del''}) fs @ ''del'' # tl (dropWhile (\<lambda>f. f \<notin> {''add'', ''del''}) fs))]
    \<and> ({''add'', ''del''} \<inter> set fs = {} \<longrightarrow>
          runPolicyLine S line ''del'' = (runPolicyLine S line ''add'' :: ('w, 'm, policy_error option) prog))"
proof -
  have swap: "swap_verb v xs = takeWhile (\<lambda>f. f \<notin> {''add'', ''del''}) xs @ v # tl (dropWhile (\<lambda>f. f \<notin> {''add'', ''del''}) xs)"
    if "{''add'', ''del''} \<inter> set xs \<noteq> {}" for v and xs :: "string list"
    using that by (induction xs) auto
  have "length fs > 0" using assms(2) by simp
  then have run: "runPolicyLine S line v = do {
      r \<leftarrow> do_call S (Exec ''ip'' (swap_verb v fs));
      State_Monad.return (map_option (\<lambda>e. IpFailed (''ip '' @ Join (swap_verb v fs) '' '' @ '': '' @ e
        @ '' ('' @ TrimSpace (rcomb r) @ '')'')) (rerr r)) }" for v
    by (simp add: runPolicyLine_def assms(1))
  have "calls (runPolicyLine S line ''del'') h = [Exec ''ip'' (swap_verb ''del'' fs)]"
    unfolding run by (subst calls_bind[where P = "\<lambda>_. True"]) (simp_all add: emits_do_call emits_return)
  moreover have "swap_verb v fs = fs" if "{''add'', ''del''} \<inter> set fs = {}" for v
    using that by (intro swap_verb_no_verb) auto
  ultimately show ?thesis using swap[of fs "''del''"] unfolding run by simp
qed

theorem line_removal_witness:
  "calls (runPolicyLine sim_sys ''ip route replace default dev w table 7'' ''del'') (init_host sim_host)
     = [Exec ''ip'' [''route'', ''replace'', ''default'', ''dev'', ''w'', ''table'', ''7'']]"
proof -
  have "Fields ''ip route replace default dev w table 7''
      = ''ip'' # [''route'', ''replace'', ''default'', ''dev'', ''w'', ''table'', ''7'']"
    by code_simp
  from line_removal[OF this, of sim_sys "init_host sim_host", THEN conjunct1] show ?thesis by simp
qed

end
