(* ===== verification/EngineFacts.thy ===== *)
theory EngineFacts
  imports Engine WgPolicyFacts
begin

text \<open>
  What applying a set of interfaces does to the links of the host: the kernel engine implements the
  abstract step that takes the managed links away that are no longer wanted and adds the wanted ones.
  \<open>netlink_ok S N\<close> is what the documentation of netlink promises of the calls involved, \<open>N w\<close> being
  the link names by index.
\<close>

section \<open>The documented links\<close>

type_synonym links = "int \<Rightarrow> string option"

text \<open>
  The calls that can change the links: programs other than iptables and \<open>ip route\<close> and \<open>ip rule\<close>,
  adding and deleting a link.
\<close>

fun changes_links :: "call \<Rightarrow> bool" where
  "changes_links (Exec name args) =
     (\<not> (name = ''iptables'' \<or> name = ''ip'' \<and> args \<noteq> [] \<and> hd args \<in> {''route'', ''rule''}))"
| "changes_links (LinkAdd _ _) = True"
| "changes_links (LinkDel _) = True"
| "changes_links (ReExec _) = True"
| "changes_links (StartProcess _ _) = True"
| "changes_links (KillProcess _) = True"
| "changes_links _ = False"

definition netlink_ok :: "'w sys \<Rightarrow> ('w \<Rightarrow> links) \<Rightarrow> bool" where
  "netlink_ok S N \<longleftrightarrow>
     (\<forall>w name. rerr (fst (S (LinkByName name) w)) = None \<longleftrightarrow> name \<in> ran (N w))
   \<and> (\<forall>w name. name \<in> ran (N w) \<longrightarrow> N w (rnum (fst (S (LinkByName name) w))) = Some name)
   \<and> (\<forall>w name mtu. ran (N (snd (S (LinkAdd name mtu) w)))
        = (if rerr (fst (S (LinkAdd name mtu) w)) = None then insert name (ran (N w)) else ran (N w)))
   \<and> (\<forall>w i. N (snd (S (LinkDel (FoundLink i)) w))
        = (if rerr (fst (S (LinkDel (FoundLink i)) w)) = None then (N w)(i := None) else N w))
   \<and> (\<forall>w i j. N w i = N w j \<and> N w i \<noteq> None \<longrightarrow> i = j)
   \<and> (\<forall>w cl. \<not> changes_links cl \<longrightarrow> N (snd (S cl w)) = N w)"

text \<open>Every link can be created and deleted.\<close>

definition links_accept :: "'w sys \<Rightarrow> bool" where
  "links_accept S \<longleftrightarrow> (\<forall>w name mtu. rerr (fst (S (LinkAdd name mtu) w)) = None)
     \<and> (\<forall>w i. rerr (fst (S (LinkDel (FoundLink i)) w)) = None)"

text \<open>The lines of a policy are \<open>ip route\<close> and \<open>ip rule\<close> commands, as their documentation asks.\<close>

definition plain_policy :: "string \<Rightarrow> bool" where
  "plain_policy conf \<longleftrightarrow> (\<forall>ln \<in> set (policyLines conf). case Fields ln of
     a # b # _ \<Rightarrow> a = ''ip'' \<longrightarrow> b \<in> {''route'', ''rule''} | _ \<Rightarrow> True)"

lemma netlink_still: "netlink_ok S N \<Longrightarrow> \<not> changes_links cl \<Longrightarrow> leaves N (do_call S cl)"
  by (intro leaves_do_call) (simp add: netlink_ok_def)

section \<open>Everything but the link calls\<close>

lemma still_rules:
  assumes "netlink_ok S N"
  shows "leaves N (runIptables S args)" "leaves N (ensureRule S r)" "leaves N (deleteRule S r)"
  unfolding runIptables_def ensureRule_def deleteRule_def
  by (intro leaves_intros netlink_still[OF assms]; simp)+

lemma still_delete_rules: "netlink_ok S N \<Longrightarrow> leaves N (delete_rules S rs e)"
  by (induction rs arbitrary: e) (auto intro!: leaves_intros still_rules)

lemma still_owner_in: "netlink_ok S N \<Longrightarrow> leaves N (owner_in S ip ls)"
  by (induction ls) (auto intro!: leaves_intros netlink_still)

lemma still_resolveEgress:
  assumes "netlink_ok S N"
  shows "leaves N (resolveEgress S spec)"
  unfolding resolveEgress_def DefaultEgressInterface_def linkForIP_def
  by (intro leaves_intros netlink_still[OF assms] still_owner_in assms; simp)

lemma still_NAT:
  assumes "netlink_ok S N"
  shows "leaves N (SetupNAT S i)" "leaves N (TeardownNAT S i)" "leaves N (ReconcileNAT S old i)"
proof -
  show s: "leaves N (SetupNAT S i)" and t: "leaves N (TeardownNAT S i)" for i
    unfolding SetupNAT_def TeardownNAT_def EnableForwarding_def
    by (intro leaves_intros netlink_still[OF assms] still_resolveEgress still_delete_rules still_rules assms; simp)+
  show "leaves N (ReconcileNAT S old i)"
    unfolding ReconcileNAT_def by (intro leaves_intros s t)
qed

lemma still_policy_line:
  assumes "netlink_ok S N" "case Fields ln of a # b # _ \<Rightarrow> a = ''ip'' \<longrightarrow> b \<in> {''route'', ''rule''} | _ \<Rightarrow> True"
  shows "leaves N (runPolicyLine S ln verb)"
proof (cases "length (Fields ln) < 2 \<or> Fields ln ! 0 \<noteq> ''ip''")
  case False
  then obtain f fs where f: "Fields ln = ''ip'' # f # fs"
    by (cases "Fields ln" rule: remdups_adj.cases) auto
  with assms(2) have "f = ''route'' \<or> f = ''rule''" by simp
  then have "\<not> changes_links (Exec ''ip'' (swap_verb verb (f # fs)))" by auto
  with f show ?thesis
    unfolding runPolicyLine_def Let_def by (intro leaves_intros netlink_still[OF assms(1)]) simp
qed (simp add: runPolicyLine_def Let_def leaves_return)

lemma plain_policyD:
  "plain_policy conf \<Longrightarrow> ln \<in> set (policyLines conf)
   \<Longrightarrow> case Fields ln of a # b # _ \<Rightarrow> a = ''ip'' \<longrightarrow> b \<in> {''route'', ''rule''} | _ \<Rightarrow> True"
  by (simp add: plain_policy_def)

lemma still_policy:
  assumes "netlink_ok S N" "plain_policy old" "plain_policy new"
  shows "leaves N (RemovePolicyRoutes S old)" "leaves N (ReconcilePolicyRoutes S old new)"
proof -
  note line = still_policy_line[OF assms(1)]
  have stale: "set (stale_lines old new) \<subseteq> set (policyLines old)"
    by (auto simp: stale_lines_def)
  show "leaves N (RemovePolicyRoutes S old)"
    unfolding RemovePolicyRoutes_def delete_lines_def delete_each_def
    by (intro leaves_intros line still_rules assms(1) plain_policyD[OF assms(2)])
  show "leaves N (ReconcilePolicyRoutes S old new)"
    unfolding ReconcilePolicyRoutes_def delete_lines_def delete_each_def ApplyPolicyRoutes_def Let_def
      applyPolicyLine_def ensure_each_def EnableForwarding_def
    by (intro leaves_intros line still_rules assms(1) plain_policyD[OF assms(2)] plain_policyD[OF assms(3)]
        netlink_still[OF assms(1)]) (use stale in auto)
qed

section \<open>One interface\<close>

lemma EnsureLink_links:
  assumes "netlink_ok S N" "links_accept S"
  shows "ran (N (world (after (EnsureLink L S name address mtu) h))) = insert name (ran (N (world h)))"
proof -
  have "N (world (after (EnsureLink L S name address mtu) h)) = N (world (after (link_of S name mtu) h))"
    unfolding EnsureLink_def
    by (rule leaves_then) (intro leaves_intros netlink_still[OF assms(1)]; simp)
  moreover have "ran (N (world (after (link_of S name mtu) h))) = insert name (ran (N (world h)))"
    using assms by (auto simp: link_of_def run_do_call netlink_ok_def links_accept_def)
  ultimately show ?thesis by simp
qed

lemma still_sync_peers: "netlink_ok S N \<Longrightarrow> leaves N (sync_peers L S ord iface peers)"
  unfolding sync_peers_def by (intro leaves_intros netlink_still; simp)

lemma wg_Reconcile_links:
  assumes "netlink_ok S N" "links_accept S"
  shows "ran (N (world (after (wg_Reconcile L S ord iface) h))) = insert (if_Name iface) (ran (N (world h)))"
proof -
  have "N (world (after (wg_Reconcile L S ord iface) h))
      = N (world (after (EnsureLink L S (if_Name iface) (if_Address iface) (if_MTU iface)) h))"
    unfolding wg_Reconcile_def
    by (rule leaves_then) (intro leaves_intros netlink_still[OF assms(1)] still_sync_peers assms(1); simp)
  then show ?thesis by (simp add: EnsureLink_links[OF assms])
qed

lemma ran_remove:
  assumes "\<forall>i j. f i = f j \<and> f i \<noteq> None \<longrightarrow> i = j" "f k = Some x"
  shows "ran (f(k := None)) = ran f - {x}"
proof -
  have key: "a = k" if "f a = Some x" for a
    using assms(1)[rule_format, of a k] assms(2) that by simp
  have "a \<noteq> k \<and> f a = Some y \<longleftrightarrow> f a = Some y \<and> y \<noteq> x" for a y
    using assms(2) key[of a] by (cases "a = k") auto
  moreover have "ran (f(k := None)) = {y. \<exists>a. a \<noteq> k \<and> f a = Some y}"
    by (auto simp: ran_def split: if_splits)
  ultimately show ?thesis by (simp add: ran_def set_diff_eq) 
qed

lemma RemoveLink_links:
  assumes "netlink_ok S N" "links_accept S"
  shows "ran (N (world (after (RemoveLink S name) h))) = ran (N (world h)) - {name}"
proof (cases "name \<in> ran (N (world h))")
  case True
  let ?r = "fst (S (LinkByName name) (world h))" and ?w = "snd (S (LinkByName name) (world h))"
  have same: "N ?w = N (world h)" using assms(1) by (simp add: netlink_ok_def)
  have "rerr ?r = None" "N (world h) (rnum ?r) = Some name"
    using assms(1) True by (simp_all add: netlink_ok_def)
  moreover from this have "ran ((N ?w)(rnum ?r := None)) = ran (N (world h)) - {name}"
    unfolding same by (intro ran_remove) (use assms(1) in \<open>auto simp: netlink_ok_def\<close>)
  moreover have "N (snd (S (LinkDel (FoundLink (rnum ?r))) ?w)) = (N ?w)(rnum ?r := None)"
    using assms by (simp add: netlink_ok_def links_accept_def)
  ultimately show ?thesis by (simp add: RemoveLink_def run_do_call)
next
  case False
  then show ?thesis using assms(1) by (simp add: RemoveLink_def run_do_call netlink_ok_def)
qed

section \<open>All interfaces\<close>

lemma kernel_reconcile_links:
  assumes "netlink_ok S N" "links_accept S"
    and "plain_policy (if_PolicyRoutes (managed_interface managed (if_Name iface)))" "plain_policy (if_PolicyRoutes iface)"
  shows "ran (N (world (after (kernel_reconcile L S pord managed iface) h)))
     = insert (if_Name iface) (ran (N (world h)))"
proof -
  have "N (world (after (kernel_reconcile L S pord managed iface) h))
      = N (world (after (wg_Reconcile L S pord iface) h))"
    unfolding kernel_reconcile_def
    by (rule leaves_then) (intro leaves_intros still_NAT still_policy assms)
  then show ?thesis by (simp add: wg_Reconcile_links[OF assms(1,2)])
qed

lemma kernel_remove_links:
  assumes "netlink_ok S N" "links_accept S" "plain_policy (if_PolicyRoutes (managed_interface managed name))"
  shows "ran (N (world (after (kernel_remove S managed name) h))) = ran (N (world h)) - {name}"
proof -
  note drop = still_policy(1)[OF assms(1,3,3)]
  show ?thesis
    unfolding kernel_remove_def
    by (simp del: run_state_bind add: after_bind RemoveLink_links[OF assms(1,2)] leavesD[OF drop] leavesD[OF still_NAT(2)[OF assms(1)]])
qed

text \<open>A loop whose body acts on a view as \<open>F\<close> acts on it as the fold.\<close>

lemma for_each_view:
  assumes "\<And>x h. x \<in> set xs \<Longrightarrow> v (after (f x) h) = F x (v h)"
  shows "v (after (for_each xs f) h) = fold F xs (v h)"
  using assms
  by (induction xs arbitrary: h) (simp_all del: run_state_bind add: after_bind)

lemma wanted_map_of:
  "map_of (wanted_map ifaces) = map_of (rev (map (\<lambda>i. (if_Name i, i)) ifaces))"
proof -
  have "map_of (fold (\<lambda>i. AList.update (if_Name i) i) xs m) = map_of m ++ map_of (rev (map (\<lambda>i. (if_Name i, i)) xs))" for xs m
    by (induction xs arbitrary: m) (simp_all add: update_conv' map_add_upd_left)
  from this[of ifaces "[]"] show ?thesis by (simp add: wanted_map_def)
qed

lemma dom_wanted_map: "dom (map_of (wanted_map ifaces)) = if_Name ` set ifaces"
  unfolding wanted_map_of dom_map_of_conv_image_fst by (simp add: image_image)

lemma fold_insert_image: "fold (\<lambda>x. insert (f x)) xs A = A \<union> f ` set xs"
  by (induction xs arbitrary: A) auto

lemma fold_remove_image: "fold (\<lambda>x B. B - {x}) xs A = A - set xs"
  by (induction xs arbitrary: A) auto

interpretation managed_names: stale_plan set "\<lambda>ifaces. set (map if_Name ifaces)" stale_interfaces
  by unfold_locales (auto simp: stale_interfaces_def)

lemma kernel_Apply_links:
  assumes "netlink_ok S N" "links_accept S" "range_order mord"
    and "\<forall>i \<in> set ifaces \<union> ran (map_of (ke_managed e)). plain_policy (if_PolicyRoutes i)"
  shows "ran (N (world (after (kernel_Apply L S mord pord ifaces e) h)))
    = ran (N (world h)) - (dom (map_of (ke_managed e)) - if_Name ` set ifaces) \<union> if_Name ` set ifaces"
proof -
  let ?m = "ke_managed e"
  have zero: "plain_policy (if_PolicyRoutes zero_interface)"
  proof -
    have "policyLines [] = []" by code_simp
    then show ?thesis by (simp add: plain_policy_def zero_interface_def)
  qed
  have old: "plain_policy (if_PolicyRoutes (managed_interface ?m n))" for n
    using assms(4) zero by (auto simp: managed_interface_def ran_def split: option.splits)
  let ?stale = "stale_interfaces (mord (map_keys ?m)) ifaces"
  let ?h = "after (for_each ifaces (kernel_reconcile L S pord ?m)) h"
  have "ran (N (world ?h)) = ran (N (world h)) \<union> if_Name ` set ifaces"
    unfolding fold_insert_image[symmetric]
    by (rule for_each_view, rule kernel_reconcile_links[OF assms(1,2) old]) (use assms(4) in blast)
  moreover have "ran (N (world (after (for_each ?stale (kernel_remove S ?m)) ?h)))
      = ran (N (world ?h)) - set ?stale"
    unfolding fold_remove_image[symmetric]
    by (rule for_each_view) (rule kernel_remove_links[OF assms(1,2) old])
  moreover have "set ?stale = dom (map_of ?m) - if_Name ` set ifaces"
    using managed_names.set_stale[of "mord (map_keys ?m)" ifaces] range_order_set[OF assms(3)]
    by (simp add: set_map_keys)
  moreover have "after (kernel_Apply L S mord pord ifaces e) h
      = after (for_each ?stale (kernel_remove S ?m)) ?h"
    by (simp add: kernel_Apply_def after_bind del: run_state_bind)
  ultimately show ?thesis by auto
qed

text \<open>
  C6. Applying a set of interfaces implements the abstract step on the links of the host: the managed
  links that are no longer wanted are gone, every wanted one exists, no other link is touched, and the
  engine then manages exactly the wanted interfaces, the last one of a name. This holds whatever else
  fails on the way: bad keys, addresses, NAT settings or policy lines; the host accepts adding and
  deleting links, and policy lines that call \<open>ip\<close> are \<open>ip route\<close> and
  \<open>ip rule\<close> lines.
\<close>
theorem kernel_Apply_refines:
  assumes "netlink_ok S N" and "links_accept S" and "range_order mord"
    and "\<forall>i \<in> set ifaces \<union> ran (map_of (ke_managed e)). plain_policy (if_PolicyRoutes i)"
  shows "(let h' = after (kernel_Apply L S mord pord ifaces e) h;
              e' = snd (result (kernel_Apply L S mord pord ifaces e) h);
              managed = dom (map_of (ke_managed e)); wanted = if_Name ` set ifaces
     in ran (N (world h')) = ran (N (world h)) - (managed - wanted) \<union> wanted
      \<and> dom (map_of (ke_managed e')) = wanted
      \<and> map_of (ke_managed e') = map_of (rev (map (\<lambda>i. (if_Name i, i)) ifaces)))"
proof -
  have "snd (result (kernel_Apply L S mord pord ifaces e) h) = e\<lparr>ke_managed := wanted_map ifaces\<rparr>"
    by (simp add: kernel_Apply_def result_bind del: run_state_bind)
  then show ?thesis
    using kernel_Apply_links[OF assms] dom_wanted_map[of ifaces] unfolding Let_def wanted_map_of[symmetric] by simp
qed

section \<open>A host with the documented links\<close>

text \<open>The links of this host are a list of names; the index of a link is a code of its name.\<close>

fun name_code :: "string \<Rightarrow> int" where
  "name_code [] = 0"
| "name_code (c # s) = int (of_char c) + 1 + 257 * name_code s"

lemma name_code_pos: "0 \<le> name_code s"
  by (induction s) auto

lemma digits_eq:
  "int x + 1 + 257 * n = int y + 1 + 257 * m \<Longrightarrow> x < 256 \<Longrightarrow> y < 256 \<Longrightarrow> int x = int y"
proof -
  assume a: "int x + 1 + 257 * n = int y + 1 + 257 * m" "x < 256" "y < 256"
  then have "\<not> n < m" "\<not> m < n" by linarith+
  with a(1) show ?thesis by simp
qed

lemma name_code_inj: "name_code s = name_code t \<Longrightarrow> s = t"
proof (induction s arbitrary: t)
  case Nil
  show ?case
  proof (cases t)
    case (Cons c u)
    with Nil name_code_pos[of u] show ?thesis by simp
  qed simp
next
  case (Cons c s)
  show ?case
  proof (cases t)
    case Nil
    with Cons.prems name_code_pos[of s] show ?thesis by simp
  next
    case t: (Cons d u)
    from Cons.prems t
    have eq: "int (of_char c) + 1 + 257 * name_code s = int (of_char d) + 1 + 257 * name_code u" by simp
    then have "int (of_char c) = int (of_char d)"
      using digits_eq[OF eq] by simp
    moreover from this eq have "name_code s = name_code u" by simp
    ultimately show ?thesis using t Cons.IH[of u] by simp
  qed
qed

definition name_links :: "string list \<Rightarrow> links" where
  "name_links w i = find (\<lambda>n. name_code n = i) w"

fun name_sys :: "string list sys" where
  "name_sys (LinkByName name) w =
     (if name \<in> set w then ok_reply\<lparr>rnum := name_code name\<rparr> else err_reply ''Link not found'', w)"
| "name_sys (LinkAdd name mtu) w = (ok_reply, name # w)"
| "name_sys (LinkDel (FoundLink i)) w = (ok_reply, filter (\<lambda>n. name_code n \<noteq> i) w)"
| "name_sys c w = (ok_reply, w)"

lemma name_links_Some: "name_links w i = Some n \<longleftrightarrow> n \<in> set w \<and> name_code n = i"
proof
  assume "name_links w i = Some n"
  then show "n \<in> set w \<and> name_code n = i" by (auto simp: name_links_def find_Some_iff)
next
  assume n: "n \<in> set w \<and> name_code n = i"
  then obtain m where "name_links w i = Some m"
    by (cases "name_links w i") (auto simp: name_links_def find_None_iff)
  moreover from this have "name_code m = i" by (auto simp: name_links_def find_Some_iff)
  ultimately show "name_links w i = Some n" using n name_code_inj by simp
qed

lemma ran_name_links: "ran (name_links w) = set w"
  by (auto simp: ran_def name_links_Some)

lemma name_sys_other: "\<not> changes_links cl \<Longrightarrow> snd (name_sys cl w) = w"
  by (cases "(cl, w)" rule: name_sys.cases) simp_all

lemma name_netlink_ok: "netlink_ok name_sys name_links"
proof -
  have "name_links (filter (\<lambda>n. name_code n \<noteq> i) w) = (name_links w)(i := None)" for w i
  proof
    fix j
    have "name_links (filter (\<lambda>n. name_code n \<noteq> i) w) j = Some n \<longleftrightarrow> ((name_links w)(i := None)) j = Some n" for n
      by (auto simp: name_links_Some)
    then show "name_links (filter (\<lambda>n. name_code n \<noteq> i) w) j = ((name_links w)(i := None)) j"
      by (metis not_None_eq)
  qed
  moreover have "\<forall>w i j. name_links w i = name_links w j \<and> name_links w i \<noteq> None \<longrightarrow> i = j"
    using name_links_Some by (metis option.exhaust)
  ultimately show ?thesis
    unfolding netlink_ok_def by (simp add: ran_name_links name_links_Some name_sys_other)
qed

lemma name_links_accept: "links_accept name_sys"
  by (simp add: links_accept_def)

theorem kernel_Apply_refines_witness:
  "(let i = zero_interface\<lparr>if_Name := ''wg0'', if_PolicyRoutes := ''ip route add a dev b''\<rparr>;
        lib = \<lparr>lib_ParseKey = Inl, lib_KeyString = id, lib_ParseAddr = Inr\<rparr>
    in ran (name_links (world (after (kernel_Apply lib name_sys rev rev [i] \<lparr>ke_managed = [(''old'', zero_interface)]\<rparr>)
          (init_host [''eth0'', ''old''])))) = {''eth0'', ''wg0''})"
proof -
  let ?i = "zero_interface\<lparr>if_Name := ''wg0'', if_PolicyRoutes := ''ip route add a dev b''\<rparr>"
  let ?e = "\<lparr>ke_managed = [(''old'', zero_interface)]\<rparr>"
  have "list_all (\<lambda>i. plain_policy (if_PolicyRoutes i)) [?i, zero_interface]" by code_simp
  then have "\<forall>i \<in> set [?i] \<union> ran (map_of (ke_managed ?e)). plain_policy (if_PolicyRoutes i)"
    by simp
  from kernel_Apply_refines[OF name_netlink_ok name_links_accept range_order_id(2) this,
      of "\<lparr>lib_ParseKey = Inl, lib_KeyString = id, lib_ParseAddr = Inr\<rparr>" rev "init_host [''eth0'', ''old'']"]
  show ?thesis unfolding Let_def by (auto simp: ran_name_links)
qed

end
