(* ===== verification/SingboxInstall.thy ===== *)
theory SingboxInstall
  imports GoPaths Interfaces
begin

text \<open>
  \<open>src/singbox/singbox.go\<close>: the agent installs the sing-box binary on demand. This theory holds the
  definitions, one per Go function.

  \<open>runtime.GOOS\<close> and \<open>runtime.GOARCH\<close> are the arguments \<open>goos\<close> and \<open>goarch\<close>. Decompressing and
  unpacking a tarball and decoding the JSON of a release are library functions of the parameter \<open>A\<close>:
  \<open>arc_open\<close> is \<open>gzip.NewReader\<close> and then what the calls of \<open>tr.Next\<close> return, up to \<open>io.EOF\<close>; the
  content of an entry is read with a limit. The mutex makes the calls of \<open>Ensure\<close> sequential. The
  agent only passes the zero value of \<open>Options.Client\<close>, whose requests are calls of the host; log
  lines are left out.
\<close>

datatype tar_step = TarEntry bool string "int \<Rightarrow> string go_result" | TarError string

record archive_lib =
  arc_open :: "string \<Rightarrow> string + tar_step list"
  arc_tag :: "string \<Rightarrow> string go_result"

definition DefaultRepo :: string where "DefaultRepo = ''SagerNet/sing-box''"
definition DefaultTarget :: string where "DefaultTarget = ''/usr/local/bin/sing-box''"
definition maxAssetSize :: int where "maxAssetSize = 209715200"
definition sb_retryAfter :: int where "sb_retryAfter = 10 * 60 * 1000000000"

record install_options =
  opt_Repo :: string
  opt_Target :: string
  opt_APIBase :: string
  opt_DownloadBase :: string

definition Usable :: "'w sys \<Rightarrow> string \<Rightarrow> ('w, 'm, string option) prog" where
  "Usable S path =
     (let p = TrimSpace path; binPath = (if p = [] then ''sing-box'' else p)
      in do {
        r \<leftarrow> do_call S (LookPath binPath);
        if rerr r = nil then State_Monad.return (Some (rout r))
        else if IsAbs binPath then do {
          st \<leftarrow> do_call S (Stat binPath);
          State_Monad.return (if rerr st = nil \<and> \<not> risdir st then Some binPath else None) }
        else State_Monad.return None })"

definition assetName :: "string \<Rightarrow> string \<Rightarrow> string \<Rightarrow> string" where
  "assetName version goos goarch =
     ''sing-box-'' @ TrimPrefix version ''v'' @ ''-'' @ goos @ ''-'' @ goarch @ ''.tar.gz''"

text \<open>The UTF-8 bytes of two words in the error messages.\<close>

definition zh_without :: string where
  "zh_without = [CHR 0xE6, CHR 0xB2, CHR 0xA1, CHR 0xE6, CHR 0x9C, CHR 0x89]"

definition zh_in_archive :: string where
  "zh_in_archive = [CHR 0xE5, CHR 0x8E, CHR 0x8B, CHR 0xE7, CHR 0xBC, CHR 0xA9, CHR 0xE5, CHR 0x8C, CHR 0x85,
     CHR 0xE9, CHR 0x87, CHR 0x8C]"

text \<open>The loop of \<open>extractBinary\<close> over the entries.\<close>

fun find_binary :: "tar_step list \<Rightarrow> string go_result" where
  "find_binary [] = Inl (zh_in_archive @ zh_without @ '' sing-box'')"
| "find_binary (TarError e # steps) = Inl e"
| "find_binary (TarEntry regular name content # steps) =
     (if \<not> regular \<or> Base name \<noteq> ''sing-box'' then find_binary steps else content maxAssetSize)"

definition extractBinary :: "archive_lib \<Rightarrow> string \<Rightarrow> string go_result" where
  "extractBinary A tarball =
     (case arc_open A tarball of Inl e \<Rightarrow> Inl e | Inr steps \<Rightarrow> find_binary steps)"

definition latestVersion ::
  "archive_lib \<Rightarrow> 'w sys \<Rightarrow> string \<Rightarrow> string \<Rightarrow> ('w, 'm, string go_result) prog" where
  "latestVersion A S apiBase repo = do {
     resp \<leftarrow> do_call S (HttpGet (TrimRight apiBase (CHR ''/'') @ ''/repos/'' @ repo @ ''/releases/latest''));
     (case rerr resp of
        Some e \<Rightarrow> State_Monad.return (Inl e)
      | None \<Rightarrow>
          if rnum resp \<noteq> 200 then State_Monad.return (Inl (''HTTP '' @ Itoa (rnum resp)))
          else do {
            b \<leftarrow> do_call S (ReadBody 1048576);
            State_Monad.return
              (case (case rerr b of Some e \<Rightarrow> Inl e | None \<Rightarrow> arc_tag A (rout b)) of
                 Inl e \<Rightarrow> Inl e
               | Inr tag \<Rightarrow> if TrimSpace tag = [] then Inl (''release '' @ zh_without @ '' tag'') else Inr tag) }) }"

text \<open>The version to install, from the environment or the newest release.\<close>

definition wanted_version ::
  "archive_lib \<Rightarrow> 'w sys \<Rightarrow> string \<Rightarrow> string \<Rightarrow> ('w, 'm, install_error + string) prog" where
  "wanted_version A S apiBase repo = do {
     v \<leftarrow> do_call S (Getenv ''SINGBOX_VERSION'');
     if TrimSpace (rout v) \<noteq> [] then State_Monad.return (Inr (TrimSpace (rout v)))
     else do {
       l \<leftarrow> latestVersion A S apiBase repo;
       State_Monad.return (case l of Inl e \<Rightarrow> Inl (VersionQuery e) | Inr t \<Rightarrow> Inr t) } }"

text \<open>The part of \<open>install\<close> that puts the binary in its place.\<close>

definition place_binary :: "'w sys \<Rightarrow> string \<Rightarrow> string \<Rightarrow> ('w, 'm, install_error option) prog" where
  "place_binary S target bin = do {
     d \<leftarrow> (if Dir target \<noteq> [] then do_call S (MkdirAll (Dir target) 493) else State_Monad.return ok_reply);
     (case rerr d of
        Some e \<Rightarrow> State_Monad.return (Some (MakeDirFailed (Dir target) e))
      | None \<Rightarrow> (let tmp = target @ ''.new'' in do {
          w \<leftarrow> do_call S (WriteFile tmp bin 493);
          (case rerr w of
             Some e \<Rightarrow> State_Monad.return (Some (WriteFailed tmp e))
           | None \<Rightarrow> do {
               r \<leftarrow> do_call S (Rename tmp target);
               (case rerr r of
                  Some e \<Rightarrow> do {
                    _ \<leftarrow> do_call S (RemoveFile tmp);
                    State_Monad.return (Some (InstallFailed target e)) }
                | None \<Rightarrow> State_Monad.return None) }) })) }"

definition fetch_binary ::
  "archive_lib \<Rightarrow> 'w sys \<Rightarrow> string \<Rightarrow> string \<Rightarrow> ('w, 'm, install_error + string) prog" where
  "fetch_binary A S url name = do {
     resp \<leftarrow> do_call S (HttpGet url);
     (case rerr resp of
        Some e \<Rightarrow> State_Monad.return (Inl (DownloadFailed url e))
      | None \<Rightarrow>
          if rnum resp \<noteq> 200 then State_Monad.return (Inl (DownloadStatus url (rnum resp)))
          else do {
            blob \<leftarrow> do_call S (ReadBody maxAssetSize);
            State_Monad.return (case rerr blob of
              Some e \<Rightarrow> Inl (ReadAsset url e)
            | None \<Rightarrow>
                (case extractBinary A (rout blob) of
                   Inl e \<Rightarrow> Inl (UnpackFailed name e)
                 | Inr bin \<Rightarrow>
                     if int (length bin) < 1048576 then Inl (BinaryTooSmall name (length bin)) else Inr bin)) }) }"

definition first_nonempty :: "string \<Rightarrow> string \<Rightarrow> string" where
  "first_nonempty a b = (if TrimSpace a = [] then b else TrimSpace a)"

definition sb_install ::
  "archive_lib \<Rightarrow> 'w sys \<Rightarrow> string \<Rightarrow> string \<Rightarrow> string \<Rightarrow> install_options
   \<Rightarrow> ('w, 'm, install_error option) prog" where
  "sb_install A S goos goarch target opts = do {
     repo \<leftarrow> (if TrimSpace (opt_Repo opts) = []
              then do { r \<leftarrow> do_call S (Getenv ''SINGBOX_REPO'');
                        State_Monad.return (first_nonempty (rout r) DefaultRepo) }
              else State_Monad.return (TrimSpace (opt_Repo opts)));
     v \<leftarrow> wanted_version A S (first_nonempty (opt_APIBase opts) ''https://api.github.com'') repo;
     (case v of
        Inl e \<Rightarrow> State_Monad.return (Some e)
      | Inr version \<Rightarrow>
          (let name = assetName version goos goarch;
               url = first_nonempty (opt_DownloadBase opts) ''https://github.com'' @ ''/'' @ repo
                 @ ''/releases/download/'' @ version @ ''/'' @ name
           in do {
             b \<leftarrow> fetch_binary A S url name;
             (case b of
                Inl e \<Rightarrow> State_Monad.return (Some e)
              | Inr bin \<Rightarrow> place_binary S target bin) })) }"

text \<open>\<open>Duration.Round\<close>, halves away from zero.\<close>

definition round_to :: "int \<Rightarrow> int \<Rightarrow> int" where
  "round_to m d =
     (let up = (\<lambda>d. if 2 * (d mod m) < m then d - d mod m else d + m - d mod m)
      in if d < 0 then - up (- d) else up d)"

text \<open>The rest of \<open>Ensure\<close>, once nothing usable was found.\<close>

definition attempt_install ::
  "archive_lib \<Rightarrow> 'w sys \<Rightarrow> string \<Rightarrow> string \<Rightarrow> string \<Rightarrow> install_options
   \<Rightarrow> ('w, 'm, install_error + string) prog" where
  "attempt_install A S goos goarch target opts = do {
     n \<leftarrow> do_call S Now;
     State_Monad.update (\<lambda>h. h\<lparr>sb_lastAttempt := Some (rnum n)\<rparr>);
     e \<leftarrow> sb_install A S goos goarch target opts;
     State_Monad.update (\<lambda>h. h\<lparr>sb_lastErr := e\<rparr>);
     State_Monad.return (case e of Some m \<Rightarrow> Inl m | None \<Rightarrow> Inr target) }"

definition sb_Ensure ::
  "archive_lib \<Rightarrow> 'w sys \<Rightarrow> string \<Rightarrow> string \<Rightarrow> string \<Rightarrow> install_options
   \<Rightarrow> ('w, 'm, install_error + string) prog" where
  "sb_Ensure A S goos goarch binPath opts = do {
     u \<leftarrow> Usable S binPath;
     (case u of
        Some path \<Rightarrow> State_Monad.return (Inr path)
      | None \<Rightarrow> (let target = first_nonempty (opt_Target opts) DefaultTarget in do {
          t \<leftarrow> Usable S target;
          (case t of
             Some path \<Rightarrow> State_Monad.return (Inr path)
           | None \<Rightarrow> do {
               u' \<leftarrow> Usable S binPath;
               (case u' of
                  Some path \<Rightarrow> State_Monad.return (Inr path)
                | None \<Rightarrow> do {
                    h \<leftarrow> State_Monad.get;
                    (case (sb_lastErr h, sb_lastAttempt h) of
                       (Some err, Some a) \<Rightarrow> do {
                         n \<leftarrow> do_call S Now;
                         if rnum n - a < sb_retryAfter then do {
                           n' \<leftarrow> do_call S Now;
                           State_Monad.return
                             (Inl (LastInstallFailed err (round_to 1000000000 (sb_retryAfter - (rnum n' - a))))) }
                         else attempt_install A S goos goarch target opts }
                     | (Some err, None) \<Rightarrow> do {
                         _ \<leftarrow> do_call S Now;
                         attempt_install A S goos goarch target opts }
                     | (None, _) \<Rightarrow> attempt_install A S goos goarch target opts) }) }) })) }"

end
