(* ===== verification/SingboxInstallFacts.thy ===== *)
theory SingboxInstallFacts
  imports SingboxInstall Netfilter
begin

text \<open>
  What the on-demand installation guarantees: which files it touches and with what, and that a
  failure is remembered and retried when its time has come.
\<close>

section \<open>Time moves forward through a program\<close>

definition forward :: "('w \<Rightarrow> int) \<Rightarrow> ('w, 'm, 'a) prog \<Rightarrow> bool" where
  "forward T m \<longleftrightarrow> (\<forall>h. T (world h) \<le> T (world (after m h)))"

lemma forwardD: "forward T m \<Longrightarrow> T (world h) \<le> T (world (after m h))"
  by (simp add: forward_def)

lemma forward_call: "monotone_clock S T \<Longrightarrow> forward T (do_call S c)"
  by (simp add: forward_def run_do_call monotone_clock_def)

lemma forward_return: "forward T (State_Monad.return x)"
  by (simp add: forward_def)

lemma forward_bind: "forward T m \<Longrightarrow> (\<And>x. forward T (f x)) \<Longrightarrow> forward T (State_Monad.bind m f)"
  unfolding forward_def by (simp add: after_bind del: run_state_bind) (meson order_trans)

lemma forward_update: "(\<And>h. world (f h) = world h) \<Longrightarrow> forward T (State_Monad.update f)"
  by (simp add: forward_def State_Monad.update_def)

lemma forward_branches:
  "(b \<Longrightarrow> forward T m) \<Longrightarrow> (\<not> b \<Longrightarrow> forward T n) \<Longrightarrow> forward T (if b then m else n)"
  "(x = None \<Longrightarrow> forward T m) \<Longrightarrow> (\<And>y. x = Some y \<Longrightarrow> forward T (f y))
   \<Longrightarrow> forward T (case x of None \<Rightarrow> m | Some y \<Rightarrow> f y)"
  "(\<And>e. r = Inl e \<Longrightarrow> forward T (k e)) \<Longrightarrow> (\<And>y. r = Inr y \<Longrightarrow> forward T (g y))
   \<Longrightarrow> forward T (case r of Inl e \<Rightarrow> k e | Inr y \<Rightarrow> g y)"
  "forward T (c v) \<Longrightarrow> forward T (Let v c)"
  by (auto split: option.splits sum.splits)

lemmas forward_intros = forward_return forward_bind forward_branches forward_update

lemma forward_install: "monotone_clock S T \<Longrightarrow> forward T (sb_install A S goos goarch target opts)"
  unfolding sb_install_def wanted_version_def latestVersion_def fetch_binary_def place_binary_def
  by (intro forward_intros forward_call)

text \<open>An installation does not touch the memory of the attempts.\<close>

lemma install_keeps_attempt:
  "sb_lastAttempt (after (sb_install A S goos goarch target opts) h) = sb_lastAttempt h"
proof -
  have keep: "keeps (\<lambda>h. sb_lastAttempt h = a) (sb_install A S goos goarch target opts)" for a
    unfolding sb_install_def wanted_version_def latestVersion_def fetch_binary_def place_binary_def Let_def
    by (intro keeps_intros keeps_do_call) simp_all
  show ?thesis by (rule keepsD[OF keep[of "sb_lastAttempt h"], of h]) simp
qed

section \<open>Which files are touched\<close>

definition install_call :: "archive_lib \<Rightarrow> string \<Rightarrow> call \<Rightarrow> bool" where
  "install_call A target cl \<longleftrightarrow>
     (\<exists>p. cl = LookPath p) \<or> (\<exists>p. cl = Stat p) \<or> (\<exists>v. cl = Getenv v) \<or> cl = Now
   \<or> (\<exists>url. cl = HttpGet url) \<or> (\<exists>n. cl = ReadBody n) \<or> cl = MkdirAll (Dir target) 493
   \<or> (\<exists>bin blob. cl = WriteFile (target @ ''.new'') bin 493 \<and> 1048576 \<le> int (length bin)
        \<and> extractBinary A blob = Inr bin)
   \<or> cl = Rename (target @ ''.new'') target \<or> cl = RemoveFile (target @ ''.new'')"

lemma install_call_simps [simp]:
  "install_call A target (LookPath p)" "install_call A target (Stat p)" "install_call A target (Getenv p)"
  "install_call A target Now" "install_call A target (HttpGet p)" "install_call A target (ReadBody n)"
  by (simp_all add: install_call_def)

lemma fetch_binary_result:
  fixes h :: "('w, 'm) host_scheme"
  shows "result (fetch_binary A S url name) h = Inr bin
   \<Longrightarrow> 1048576 \<le> int (length bin) \<and> (\<exists>blob. extractBinary A blob = Inr bin)"
  by (auto simp: fetch_binary_def run_do_call split: option.splits sum.splits if_splits)

text \<open>A rule for a bind whose continuation may use what the first program can return.\<close>

lemma emits_bind_result:
  assumes "emits P m" "\<And>x. (\<exists>h. result m h = x) \<Longrightarrow> emits P (f x)"
  shows "emits P (State_Monad.bind m f)"
  unfolding emits_def
proof
  fix h
  obtain cs where "trace (after m h) = trace h @ cs" "list_all P cs"
    using assms(1) unfolding emits_def by blast
  moreover obtain ds where "trace (after (f (result m h)) (after m h)) = trace (after m h) @ ds" "list_all P ds"
    using assms(2)[of "result m h"] unfolding emits_def by blast
  ultimately show "\<exists>cs. trace (after (State_Monad.bind m f) h) = trace h @ cs \<and> list_all P cs"
    by (intro exI[of _ "cs @ ds"]) (simp add: after_bind del: run_state_bind)
qed

lemma emits_place:
  "1048576 \<le> int (length bin) \<Longrightarrow> extractBinary A blob = Inr bin
   \<Longrightarrow> emits (install_call A target) (place_binary S target bin)"
  unfolding place_binary_def Let_def
  by (intro emits_intros) (auto simp: install_call_def)

lemma emits_fetch_place:
  "emits (install_call A target) (do {
      b \<leftarrow> fetch_binary A S url name;
      (case b of Inl e \<Rightarrow> State_Monad.return (Some e) | Inr bin \<Rightarrow> place_binary S target bin) })"
proof (rule emits_bind_result)
  show "emits (install_call A target) (fetch_binary A S url name)"
    unfolding fetch_binary_def by (intro emits_intros) simp_all
next
  fix b :: "install_error + string"
  assume "\<exists>h. result (fetch_binary A S url name) h = b"
  then show "emits (install_call A target)
      (case b of Inl e \<Rightarrow> State_Monad.return (Some e) | Inr bin \<Rightarrow> place_binary S target bin)"
    by (cases b) (auto intro: emits_return emits_place dest: fetch_binary_result)
qed

lemma emits_install: "emits (install_call A target) (sb_install A S goos goarch target opts)"
  unfolding sb_install_def
proof (intro emits_bind)
  show "emits (install_call A target) (wanted_version A S base repo)" for base repo
    unfolding wanted_version_def latestVersion_def by (intro emits_intros) simp_all
  show "emits (install_call A target) (case v of
        Inl e \<Rightarrow> State_Monad.return (Some e)
      | Inr version \<Rightarrow>
          (let name = assetName version goos goarch;
               url = first_nonempty (opt_DownloadBase opts) ''https://github.com'' @ ''/'' @ repo
                 @ ''/releases/download/'' @ version @ ''/'' @ name
           in do {
             b \<leftarrow> fetch_binary A S url name;
             (case b of
                Inl e \<Rightarrow> State_Monad.return (Some e)
              | Inr bin \<Rightarrow> place_binary S target bin) }))" for v repo
    by (cases v) (simp_all only: sum.case Let_def emits_return emits_fetch_place)
qed (intro emits_intros; simp)

text \<open>
  C36. Whatever is answered, making sing-box available touches no file but the target: a temporary file
  beside it is written, only with a binary that was unpacked from a release and has at least a
  mebibyte, renamed over the target, or removed; nothing is executed.
\<close>
theorem install_is_confined:
  "list_all (install_call A (first_nonempty (opt_Target opts) DefaultTarget))
     (calls (sb_Ensure A S goos goarch binPath opts) h)"
proof -
  have use: "emits (install_call A target) (Usable S p)" for target p
    unfolding Usable_def by (intro emits_intros) simp_all
  have att: "emits (install_call A target) (attempt_install A S goos goarch target opts)" for target
    unfolding attempt_install_def by (intro emits_intros emits_install) simp_all
  show ?thesis
    unfolding sb_Ensure_def by (intro emits_calls emits_intros use att) simp_all
qed

section \<open>Failures are remembered and retried\<close>

text \<open>A host without any sing-box: nothing on the path, no such file.\<close>

definition no_binary :: "'w sys \<Rightarrow> bool" where
  "no_binary S \<longleftrightarrow> (\<forall>w p. rerr (fst (S (LookPath p) w)) \<noteq> None \<and> rerr (fst (S (Stat p) w)) \<noteq> None)"

text \<open>A program that changes nothing in the process but its history, and makes no request.\<close>

definition looks :: "('w, 'm, 'a) prog \<Rightarrow> bool" where
  "looks m \<longleftrightarrow> (\<forall>h. \<exists>w cs. after m h = h\<lparr>world := w, trace := trace h @ cs\<rparr>
     \<and> list_all (\<lambda>c. \<not> is_get c) cs)"

lemma looks_return: "looks (State_Monad.return x)"
  unfolding looks_def
proof
  show "\<exists>w cs. after (State_Monad.return x) h = h\<lparr>world := w, trace := trace h @ cs\<rparr>
      \<and> list_all (\<lambda>c. \<not> is_get c) cs" for h :: "('w, 'm) host_scheme"
    by (rule exI[of _ "world h"], rule exI[of _ "[]"]) simp
qed

lemma looks_call:
  assumes "\<not> is_get c"
  shows "looks (do_call S c)"
  unfolding looks_def
proof
  show "\<exists>w cs. after (do_call S c) h = h\<lparr>world := w, trace := trace h @ cs\<rparr>
      \<and> list_all (\<lambda>c. \<not> is_get c) cs" for h
    by (rule exI[of _ "snd (S c (world h))"], rule exI[of _ "[c]"]) (simp add: run_do_call assms)
qed

lemma looks_bind:
  assumes "looks m" "\<And>x. looks (f x)"
  shows "looks (State_Monad.bind m f)"
  unfolding looks_def
proof
  fix h
  obtain w cs where 1: "after m h = h\<lparr>world := w, trace := trace h @ cs\<rparr>" "list_all (\<lambda>c. \<not> is_get c) cs"
    using assms(1) unfolding looks_def by blast
  obtain w' ds where 2: "after (f (result m h)) (after m h)
      = (after m h)\<lparr>world := w', trace := trace (after m h) @ ds\<rparr>" "list_all (\<lambda>c. \<not> is_get c) ds"
    using assms(2) unfolding looks_def by blast
  show "\<exists>w cs. after (State_Monad.bind m f) h = h\<lparr>world := w, trace := trace h @ cs\<rparr>
      \<and> list_all (\<lambda>c. \<not> is_get c) cs"
    by (rule exI[of _ w'], rule exI[of _ "cs @ ds"]) (simp add: after_bind 1 2[unfolded 1(1)] del: run_state_bind)
qed

lemma looks_Usable: "looks (Usable S p)"
  unfolding Usable_def Let_def by (auto intro!: looks_bind looks_return looks_call)

lemma Usable_none: "no_binary S \<Longrightarrow> result (Usable S p) h = None"
proof -
  assume none: "no_binary S"
  have none': "(rerr (fst (S (LookPath q) w)) = None) = False" "(rerr (fst (S (Stat q) w)) = None) = False" for q w
    using none by (simp_all add: no_binary_def)
  show ?thesis unfolding Usable_def Let_def by (simp add: run_do_call none' del: not_None_eq)
qed

text \<open>The part of \<open>Ensure\<close> that is reached when nothing is found.\<close>

definition gated_install ::
  "archive_lib \<Rightarrow> 'w sys \<Rightarrow> string \<Rightarrow> string \<Rightarrow> string \<Rightarrow> install_options
   \<Rightarrow> install_error \<Rightarrow> int \<Rightarrow> ('w, 'm, install_error + string) prog" where
  "gated_install A S goos goarch target opts err a = do {
     n \<leftarrow> do_call S Now;
     if rnum n - a < sb_retryAfter then do {
       n' \<leftarrow> do_call S Now;
       State_Monad.return (Inl (LastInstallFailed err (round_to 1000000000 (sb_retryAfter - (rnum n' - a))))) }
     else attempt_install A S goos goarch target opts }"

lemma Ensure_gated:
  fixes h :: "('w, 'm) host_scheme"
  assumes "no_binary S" "monotone_clock S T" "sb_lastErr h = Some err" "sb_lastAttempt h = Some a"
  shows "\<exists>w cs. run_state (sb_Ensure A S goos goarch binPath opts) h
      = run_state (gated_install A S goos goarch (first_nonempty (opt_Target opts) DefaultTarget) opts err a)
          (h\<lparr>world := w, trace := trace h @ cs\<rparr>)
    \<and> list_all (\<lambda>c. \<not> is_get c) cs \<and> T (world h) \<le> T w"
proof -
  let ?t = "first_nonempty (opt_Target opts) DefaultTarget"
  have fwd: "forward T (Usable S p)" for p
    unfolding Usable_def Let_def by (auto intro!: forward_intros forward_call[OF assms(2)])
  have step: "\<exists>w cs. run_state (Usable S p) g = (None, g\<lparr>world := w, trace := trace g @ cs\<rparr>)
      \<and> list_all (\<lambda>c. \<not> is_get c) cs \<and> T (world g) \<le> T w" for p and g :: "('w, 'm) host_scheme"
  proof -
    obtain w cs where "after (Usable S p) g = g\<lparr>world := w, trace := trace g @ cs\<rparr>"
        "list_all (\<lambda>c. \<not> is_get c) cs"
      using looks_Usable[of S p, unfolded looks_def, rule_format, of g] by blast
    then show ?thesis
      using forwardD[OF fwd, of g p] Usable_none[OF assms(1), of p g]
      by (intro exI[of _ w] exI[of _ cs]) (simp add: prod_eq_iff)
  qed
  obtain w1 c1 where 1: "run_state (Usable S binPath) h = (None, h\<lparr>world := w1, trace := trace h @ c1\<rparr>)"
      "list_all (\<lambda>c. \<not> is_get c) c1" "T (world h) \<le> T w1"
    using step by blast
  obtain w2 c2 where 2: "run_state (Usable S ?t) (h\<lparr>world := w1, trace := trace h @ c1\<rparr>)
        = (None, h\<lparr>world := w2, trace := trace h @ c1 @ c2\<rparr>)"
      "list_all (\<lambda>c. \<not> is_get c) c2" "T w1 \<le> T w2"
    using step[of ?t "h\<lparr>world := w1, trace := trace h @ c1\<rparr>"] by auto
  obtain w3 c3 where 3: "run_state (Usable S binPath) (h\<lparr>world := w2, trace := trace h @ c1 @ c2\<rparr>)
        = (None, h\<lparr>world := w3, trace := trace h @ c1 @ c2 @ c3\<rparr>)"
      "list_all (\<lambda>c. \<not> is_get c) c3" "T w2 \<le> T w3"
    using step[of binPath "h\<lparr>world := w2, trace := trace h @ c1 @ c2\<rparr>"] by auto
  have "run_state (sb_Ensure A S goos goarch binPath opts) h
      = run_state (gated_install A S goos goarch ?t opts err a) (h\<lparr>world := w3, trace := trace h @ (c1 @ c2 @ c3)\<rparr>)"
    unfolding sb_Ensure_def Let_def
    by (simp add: 1(1) 2(1) 3(1) assms(3,4) State_Monad.get_def gated_install_def)
  moreover have "list_all (\<lambda>c. \<not> is_get c) (c1 @ c2 @ c3)" using 1(2) 2(2) 3(2) by simp
  moreover have "T (world h) \<le> T w3" using 1(3) 2(3) 3(3) by simp
  ultimately show ?thesis by blast
qed

text \<open>
  C22. On a host without sing-box, after a failed installation, a call within ten minutes of the attempt
  makes no request, answers with the remembered error and leaves the attempt time where it is, so
  however many calls come they do not postpone the retry; and the first call at or after the ten
  minutes does attempt again: it stamps the new attempt and remembers its outcome, whatever it is.
\<close>
theorem Ensure_retries_after_cooldown:
  fixes h :: "('w, 'm) host_scheme"
  assumes "no_binary S" and "monotone_clock S T"
    and "sb_lastErr h = Some err" and "sb_lastAttempt h = Some t"
  shows "(let m = sb_Ensure A S goos goarch binPath opts; h' = after m h
     in (T (world h') < t + 10 * 60 * 1000000000 \<longrightarrow>
           (\<exists>left. result m h = Inl (LastInstallFailed err left))
         \<and> sb_lastAttempt h' = Some t \<and> sb_lastErr h' = Some err
         \<and> list_all (\<lambda>c. \<not> is_get c) (calls m h))
      \<and> (t + 10 * 60 * 1000000000 \<le> T (world h) \<longrightarrow>
           (\<exists>t'. sb_lastAttempt h' = Some t' \<and> T (world h) \<le> t' \<and> t' \<le> T (world h'))
         \<and> sb_lastErr h' = (case result m h of Inl e \<Rightarrow> Some e | Inr path \<Rightarrow> None)))"
proof -
  let ?t = "first_nonempty (opt_Target opts) DefaultTarget"
  obtain w cs where run: "run_state (sb_Ensure A S goos goarch binPath opts) h
      = run_state (gated_install A S goos goarch ?t opts err t) (h\<lparr>world := w, trace := trace h @ cs\<rparr>)"
    and cs: "list_all (\<lambda>c. \<not> is_get c) cs" and later: "T (world h) \<le> T w"
    using Ensure_gated[OF assms] by blast
  let ?w1 = "snd (S Now w)" and ?w2 = "snd (S Now (snd (S Now w)))"
  have clock: "rnum (fst (S Now v)) = T v" "T v \<le> T (snd (S c v))" for v c
    using assms(2) by (simp_all add: monotone_clock_def)
  show ?thesis
  proof (cases "T w - t < sb_retryAfter")
    case True
    have "run_state (sb_Ensure A S goos goarch binPath opts) h
        = (Inl (LastInstallFailed err (round_to 1000000000 (sb_retryAfter - (T ?w1 - t)))),
           h\<lparr>world := ?w2, trace := trace h @ cs @ [Now, Now]\<rparr>)"
      unfolding run gated_install_def using True by (simp add: run_do_call clock)
    moreover from this have "calls (sb_Ensure A S goos goarch binPath opts) h = cs @ [Now, Now]"
      by (simp add: calls_def)
    ultimately show ?thesis
      using assms(3,4) cs True later by (simp add: Let_def sb_retryAfter_def)
  next
    case False
    let ?g = "h\<lparr>world := snd (S Now ?w1), trace := ((trace h @ cs) @ [Now]) @ [Now], sb_lastAttempt := Some (T ?w1)\<rparr>"
    obtain e g where inst: "run_state (sb_install A S goos goarch ?t opts) ?g = (e, g)" by fastforce
    have g: "T (world ?g) \<le> T (world g)" using forwardD[OF forward_install[OF assms(2)], of ?g A goos goarch ?t opts] inst by simp
    have la: "sb_lastAttempt g = Some (T ?w1)"
      using install_keeps_attempt[of A S goos goarch ?t opts ?g] inst by simp
    have "run_state (sb_Ensure A S goos goarch binPath opts) h
        = (case e of Some m \<Rightarrow> Inl m | None \<Rightarrow> Inr ?t, g\<lparr>sb_lastErr := e\<rparr>)"
      unfolding run gated_install_def attempt_install_def using False inst
      by (simp add: run_do_call clock State_Monad.update_def State_Monad.get_def State_Monad.set_def)
    moreover have "T w \<le> T ?w1" "T ?w1 \<le> T (world ?g)" using clock(2) by simp_all
    moreover have "t + 10 * 60 * 1000000000 \<le> T w" using False by (simp add: sb_retryAfter_def)
    ultimately show ?thesis
      using la g later by (auto simp: Let_def split: option.splits)
  qed
qed

text \<open>A host with a clock that moves on at every call, and nothing else.\<close>

definition bare_sys :: "int sys" where
  "bare_sys c w = (if c = Now then ok_reply\<lparr>rnum := w\<rparr> else err_reply ''not found'', w + 1)"

theorem Ensure_retries_after_cooldown_witness:
  "(let A = \<lparr>arc_open = (\<lambda>b. Inl ''not in gzip format''), arc_tag = (\<lambda>b. Inl ''unexpected EOF'')\<rparr>;
        opts = \<lparr>opt_Repo = [], opt_Target = [], opt_APIBase = [], opt_DownloadBase = []\<rparr>
    in \<exists>t. sb_lastAttempt (after (sb_Ensure A bare_sys ''linux'' ''amd64'' [] opts)
          (init_host 600000000000\<lparr>sb_lastErr := Some (VersionQuery ''HTTP 404''), sb_lastAttempt := Some 0\<rparr>)) = Some t
       \<and> 600000000000 \<le> t)"
  using Ensure_retries_after_cooldown[of bare_sys id
      "init_host 600000000000\<lparr>sb_lastErr := Some (VersionQuery ''HTTP 404''), sb_lastAttempt := Some 0\<rparr>"
      "VersionQuery ''HTTP 404''" 0
      "\<lparr>arc_open = (\<lambda>b. Inl ''not in gzip format''), arc_tag = (\<lambda>b. Inl ''unexpected EOF'')\<rparr>"
      "''linux''" "''amd64''" "[]" "\<lparr>opt_Repo = [], opt_Target = [], opt_APIBase = [], opt_DownloadBase = []\<rparr>"]
  by (auto simp: Let_def no_binary_def monotone_clock_def bare_sys_def)

end
