(* ===== verification/GoJson.thy ===== *)
theory GoJson
  imports GoStrings "HOL-Library.List_Lexorder" "HOL-Library.Char_ord"
begin

text \<open>
  The part of Go's \<open>encoding/json\<close> that writes: \<open>Marshal\<close> and \<open>MarshalIndent\<close> with the indentation
  the agent uses, over the values it marshals (objects, arrays, strings, integers, booleans).
  Strings are byte strings; as in Go, what is not valid UTF-8 is written as the replacement
  character, so the writer is injective on valid texts only.
\<close>

datatype json = JNull | JBool bool | JInt int | JStr string | JArr "json list" | JObj "(string \<times> json) list"

text \<open>A \<open>map[string]any\<close> is written with its keys in byte order.\<close>

definition json_map :: "(string \<times> json) list \<Rightarrow> json" where
  "json_map kvs = JObj (sort_key fst kvs)"

section \<open>Strings\<close>

definition in_bytes :: "nat \<Rightarrow> nat \<Rightarrow> char \<Rightarrow> bool" where
  "in_bytes lo hi c \<longleftrightarrow> lo \<le> of_char c \<and> of_char c \<le> hi"

text \<open>
  The second byte that may follow a first byte of a longer UTF-8 encoding, and the number of
  further bytes (the table of \<open>unicode/utf8\<close>).
\<close>

definition utf8_second :: "char \<Rightarrow> (nat \<times> nat \<times> nat) option" where
  "utf8_second c =
     (if in_bytes 0xC2 0xDF c then Some (0x80, 0xBF, 0)
      else if in_bytes 0xE0 0xE0 c then Some (0xA0, 0xBF, 1)
      else if in_bytes 0xED 0xED c then Some (0x80, 0x9F, 1)
      else if in_bytes 0xE1 0xEF c then Some (0x80, 0xBF, 1)
      else if in_bytes 0xF0 0xF0 c then Some (0x90, 0xBF, 2)
      else if in_bytes 0xF1 0xF3 c then Some (0x80, 0xBF, 2)
      else if in_bytes 0xF4 0xF4 c then Some (0x80, 0x8F, 2)
      else None)"

text \<open>The length of the encoding at the head of a string, 0 when it is not valid.\<close>

fun rune_len :: "string \<Rightarrow> nat" where
  "rune_len [] = 0"
| "rune_len (c # s) =
     (if in_bytes 0 0x7F c then 1
      else case utf8_second c of
        None \<Rightarrow> 0
      | Some (lo, hi, n) \<Rightarrow>
          (case s of
             [] \<Rightarrow> 0
           | d # t \<Rightarrow>
               if in_bytes lo hi d \<and> n \<le> length t \<and> list_all (in_bytes 0x80 0xBF) (take n t)
               then n + 2 else 0))"

definition hex_lower :: "nat \<Rightarrow> char" where
  "hex_lower n = (if n < 10 then char_of (48 + n) else char_of (87 + n))"

text \<open>How one byte of ASCII is written inside a string (\<open><\<close>, \<open>>\<close> and \<open>&\<close> are escaped for HTML).\<close>

definition json_byte :: "char \<Rightarrow> string" where
  "json_byte c =
     (if c = CHR 0x5C \<or> c = CHR 0x22 then [CHR 0x5C, c]
      else if c = CHR 0x08 then [CHR 0x5C, CHR ''b'']
      else if c = CHR 0x0C then [CHR 0x5C, CHR ''f'']
      else if c = CHR 0x0A then [CHR 0x5C, CHR ''n'']
      else if c = CHR 0x0D then [CHR 0x5C, CHR ''r'']
      else if c = CHR 0x09 then [CHR 0x5C, CHR ''t'']
      else if in_bytes 0 0x1F c \<or> c = CHR ''<'' \<or> c = CHR ''>'' \<or> c = CHR ''&'' then
        [CHR 0x5C, CHR ''u'', CHR ''0'', CHR ''0'', hex_lower (of_char c div 16), hex_lower (of_char c mod 16)]
      else [c])"

definition json_rune :: "string \<Rightarrow> string" where
  "json_rune r =
     (case r of
        [c] \<Rightarrow> json_byte c
      | _ \<Rightarrow>
          if r = [CHR 0xE2, CHR 0x80, CHR 0xA8] then CHR 0x5C # ''u2028''
          else if r = [CHR 0xE2, CHR 0x80, CHR 0xA9] then CHR 0x5C # ''u2029''
          else r)"

function json_chars :: "string \<Rightarrow> string" where
  "json_chars [] = []"
| "json_chars (c # s) =
     (let n = rune_len (c # s)
      in if n = 0 then (CHR 0x5C # ''ufffd'') @ json_chars s
         else json_rune (take n (c # s)) @ json_chars (drop n (c # s)))"
  by pat_completeness auto
termination by (relation "measure length") auto

definition json_quote :: "string \<Rightarrow> string" where
  "json_quote s = CHR 0x22 # json_chars s @ [CHR 0x22]"

section \<open>Values\<close>

definition json_bool :: "bool \<Rightarrow> string" where
  "json_bool b = (if b then ''true'' else ''false'')"

fun Marshal :: "json \<Rightarrow> string" where
  "Marshal JNull = ''null''"
| "Marshal (JBool b) = json_bool b"
| "Marshal (JInt i) = Itoa i"
| "Marshal (JStr s) = json_quote s"
| "Marshal (JArr vs) = CHR ''['' # Join (map Marshal vs) '','' @ '']''"
| "Marshal (JObj kvs) =
     CHR 0x7B # Join (map (\<lambda>(k, v). json_quote k @ '':'' @ Marshal v) kvs) '','' @ [CHR 0x7D]"

text \<open>
  \<open>MarshalIndent(v, "", "  ")\<close>; the number is the depth. An empty array or object has no line break.
\<close>

definition json_line :: "nat \<Rightarrow> string" where
  "json_line d = CHR 0x0A # replicate (2 * d) (CHR 0x20)"

fun marshal_at :: "nat \<Rightarrow> json \<Rightarrow> string" where
  "marshal_at d JNull = ''null''"
| "marshal_at d (JBool b) = json_bool b"
| "marshal_at d (JInt i) = Itoa i"
| "marshal_at d (JStr s) = json_quote s"
| "marshal_at d (JArr vs) =
     (if vs = [] then ''[]''
      else CHR ''['' # json_line (d + 1) @ Join (map (marshal_at (d + 1)) vs) (CHR '','' # json_line (d + 1))
        @ json_line d @ '']'')"
| "marshal_at d (JObj kvs) =
     (if kvs = [] then [CHR 0x7B, CHR 0x7D]
      else CHR 0x7B # json_line (d + 1)
        @ Join (map (\<lambda>(k, v). json_quote k @ '': '' @ marshal_at (d + 1) v) kvs) (CHR '','' # json_line (d + 1))
        @ json_line d @ [CHR 0x7D])"

definition MarshalIndent :: "json \<Rightarrow> string" where
  "MarshalIndent v = marshal_at 0 v"

lemma Marshal_examples:
  "Marshal (JObj [(''a'', JArr [JInt 1, JStr ''<b'']), (''c'', JNull)])
     = [CHR 0x7B, CHR 0x22, CHR ''a'', CHR 0x22] @ '':[1,'' @ [CHR 0x22, CHR 0x5C] @ ''u003cb''
       @ [CHR 0x22] @ ''],'' @ [CHR 0x22, CHR ''c'', CHR 0x22] @ '':null'' @ [CHR 0x7D]"
  "MarshalIndent (JArr [JInt 0, JBool True])
     = ''['' @ [CHR 0x0A] @ ''  0,'' @ [CHR 0x0A] @ ''  true'' @ [CHR 0x0A] @ '']''"
  by code_simp+

end
