(* ===== verification/SingboxEngine.thy ===== *)
theory SingboxEngine
  imports Engine SingboxInstall GoJson
begin

text \<open>
  \<open>src/engine/singbox.go\<close>: the datapath engine that drives a sing-box process from a rendered
  configuration, and \<open>src/engine/engine.go\<close>, which builds one of the two engines.

  As in \<open>Engine\<close>, an engine is a value its operations take and return, and the orders of the ranges
  over Go maps are arguments: \<open>word\<close> for the wanted interfaces, \<open>mord\<close> for the managed ones. A
  started process is known by the handle its start returned. The goroutine that waits for it is the
  operation \<open>process_exited\<close>, which may happen at any time between two other operations. The mutex
  makes these sequential; log lines are left out.
\<close>

record singbox_config =
  sc_BinPath :: string
  sc_ConfigPath :: string
  sc_System :: bool
  sc_LogLevel :: string

record singbox_engine =
  se_cfg :: singbox_config
  se_cmd :: "int option"
  se_running :: bool
  se_lastConfig :: string
  se_managed :: interfaces

datatype singbox_error =
    WriteConfig string
  | NoSingbox string install_error
  | StartSingbox string
  | RenderError string

definition NewSingboxEngine :: "singbox_config \<Rightarrow> singbox_engine" where
  "NewSingboxEngine cfg =
     \<lparr>se_cfg = cfg\<lparr>sc_BinPath := if sc_BinPath cfg = [] then ''sing-box'' else sc_BinPath cfg,
                  sc_ConfigPath := if sc_ConfigPath cfg = [] then ''/etc/exnode/sing-box.json'' else sc_ConfigPath cfg,
                  sc_LogLevel := if sc_LogLevel cfg = [] then ''warn'' else sc_LogLevel cfg\<rparr>,
      se_cmd = None, se_running = False, se_lastConfig = [], se_managed = []\<rparr>"

section \<open>The rendered configuration\<close>

definition splitCIDRs :: "string \<Rightarrow> string list" where
  "splitCIDRs list = filter (\<lambda>s. s \<noteq> []) (map TrimSpace (Split list (CHR '','')))"

definition peer_json :: "wg_peer \<Rightarrow> json" where
  "peer_json p = json_map
     ([(''public_key'', JStr (wp_PublicKey p)), (''allowed_ips'', JArr (map JStr (splitCIDRs (wp_AllowedIPs p))))]
      @ (if wp_PresharedKey p \<noteq> [] then [(''pre_shared_key'', JStr (wp_PresharedKey p))] else [])
      @ (if wp_PersistentKeepalive p > 0
         then [(''persistent_keepalive_interval'', JInt (wp_PersistentKeepalive p))] else []))"

definition endpoint_json :: "bool \<Rightarrow> wg_interface \<Rightarrow> json" where
  "endpoint_json system iface = json_map
     ([(''type'', JStr ''wireguard''),
       (''tag'', JStr (''ep-'' @ if_Name iface)),
       (''system'', JBool system),
       (''name'', JStr (if_Name iface)),
       (''listen_port'', JInt (if_ListenPort iface)),
       (''address'', JArr (map JStr (splitCIDRs (if_Address iface)))),
       (''private_key'', JStr (if_PrivateKey iface)),
       (''peers'', JArr (map peer_json (if_Peers iface)))]
      @ (if if_MTU iface > 0 then [(''mtu'', JInt (if_MTU iface))] else []))"

definition config_json :: "singbox_config \<Rightarrow> wg_interface list \<Rightarrow> json" where
  "config_json cfg ifaces = json_map
     [(''log'', json_map [(''level'', JStr (sc_LogLevel cfg))]),
      (''endpoints'', JArr (map (endpoint_json (sc_System cfg)) ifaces)),
      (''outbounds'', JArr [json_map [(''type'', JStr ''direct''), (''tag'', JStr ''direct'')]]),
      (''route'', json_map [(''final'', JStr ''direct'')])]"

text \<open>Values of these kinds always marshal, so the error of \<open>render\<close> does not occur.\<close>

definition render :: "singbox_engine \<Rightarrow> wg_interface list \<Rightarrow> string go_result" where
  "render e ifaces = Inr (MarshalIndent (config_json (se_cfg e) ifaces))"

section \<open>The process\<close>

definition writeFileAtomic :: "'w sys \<Rightarrow> string \<Rightarrow> string \<Rightarrow> ('w, 'm, go_error) prog" where
  "writeFileAtomic S path data = do {
     d \<leftarrow> (if Dir path \<noteq> [] then do_call S (MkdirAll (Dir path) 493) else State_Monad.return ok_reply);
     (case rerr d of
        Some e \<Rightarrow> State_Monad.return (Some e)
      | None \<Rightarrow> do {
          w \<leftarrow> do_call S (WriteFile (path @ ''.tmp'') data 384);
          (case rerr w of
             Some e \<Rightarrow> State_Monad.return (Some e)
           | None \<Rightarrow> do {
               r \<leftarrow> do_call S (Rename (path @ ''.tmp'') path);
               State_Monad.return (rerr r) }) }) }"

definition stopLocked :: "'w sys \<Rightarrow> singbox_engine \<Rightarrow> ('w, 'm, singbox_engine) prog" where
  "stopLocked S e =
     (case se_cmd e of
        None \<Rightarrow> State_Monad.return e
      | Some p \<Rightarrow> do {
          _ \<leftarrow> do_call S (KillProcess p);
          State_Monad.return (e\<lparr>se_cmd := None, se_running := False\<rparr>) })"

definition resolveBinLocked ::
  "archive_lib \<Rightarrow> 'w sys \<Rightarrow> string \<Rightarrow> string \<Rightarrow> singbox_engine
   \<Rightarrow> ('w, 'm, (singbox_error + string) \<times> singbox_engine) prog" where
  "resolveBinLocked A S goos goarch e = do {
     u \<leftarrow> Usable S (sc_BinPath (se_cfg e));
     (case u of
        Some path \<Rightarrow> State_Monad.return (Inr path, e)
      | None \<Rightarrow> do {
          r \<leftarrow> sb_Ensure A S goos goarch (sc_BinPath (se_cfg e))
                 \<lparr>opt_Repo = [], opt_Target = [], opt_APIBase = [], opt_DownloadBase = []\<rparr>;
          State_Monad.return (case r of
            Inl err \<Rightarrow> (Inl (NoSingbox (sc_BinPath (se_cfg e)) err), e)
          | Inr path \<Rightarrow> (Inr path, e\<lparr>se_cfg := (se_cfg e)\<lparr>sc_BinPath := path\<rparr>\<rparr>)) }) }"

definition restartLocked ::
  "archive_lib \<Rightarrow> 'w sys \<Rightarrow> string \<Rightarrow> string \<Rightarrow> singbox_engine
   \<Rightarrow> ('w, 'm, singbox_error option \<times> singbox_engine) prog" where
  "restartLocked A S goos goarch e = do {
     e \<leftarrow> stopLocked S e;
     (b, e) \<leftarrow> resolveBinLocked A S goos goarch e;
     (case b of
        Inl err \<Rightarrow> State_Monad.return (Some err, e)
      | Inr bin \<Rightarrow> do {
          r \<leftarrow> do_call S (StartProcess bin [''run'', ''-c'', sc_ConfigPath (se_cfg e)]);
          State_Monad.return (case rerr r of
            Some m \<Rightarrow> (Some (StartSingbox m), e)
          | None \<Rightarrow> (None, e\<lparr>se_cmd := Some (rnum r), se_running := True\<rparr>)) }) }"

text \<open>The goroutine of \<open>restartLocked\<close>, once its process \<open>p\<close> has ended.\<close>

definition process_exited :: "int \<Rightarrow> singbox_engine \<Rightarrow> singbox_engine" where
  "process_exited p e = (if se_cmd e = Some p then e\<lparr>se_running := False\<rparr> else e)"

section \<open>The engine\<close>

definition nat_converge :: "'w sys \<Rightarrow> interfaces \<Rightarrow> interfaces \<Rightarrow> string \<Rightarrow> ('w, 'm, unit) prog" where
  "nat_converge S managed want name = do {
     _ \<leftarrow> ReconcileNAT S (managed_interface managed (if_Name (managed_interface want name))) (managed_interface want name);
     ReconcilePolicyRoutes S
       (if_PolicyRoutes (managed_interface managed (if_Name (managed_interface want name))))
       (if_PolicyRoutes (managed_interface want name)) }"

definition nat_remove :: "'w sys \<Rightarrow> interfaces \<Rightarrow> string \<Rightarrow> ('w, 'm, unit) prog" where
  "nat_remove S managed name = do {
     RemovePolicyRoutes S (if_PolicyRoutes (managed_interface managed name));
     _ \<leftarrow> TeardownNAT S (managed_interface managed name);
     State_Monad.return () }"

definition applyNATLocked ::
  "'w sys \<Rightarrow> (string list \<Rightarrow> string list) \<Rightarrow> (string list \<Rightarrow> string list)
   \<Rightarrow> interfaces \<Rightarrow> interfaces \<Rightarrow> ('w, 'm, unit) prog" where
  "applyNATLocked S word mord managed want = do {
     for_each (word (map_keys want)) (nat_converge S managed want);
     for_each (filter (\<lambda>n. n \<notin> set (map_keys want)) (mord (map_keys managed))) (nat_remove S managed) }"

definition singbox_Apply ::
  "archive_lib \<Rightarrow> 'w sys \<Rightarrow> string \<Rightarrow> string \<Rightarrow> (string list \<Rightarrow> string list) \<Rightarrow> (string list \<Rightarrow> string list)
   \<Rightarrow> wg_interface list \<Rightarrow> singbox_engine \<Rightarrow> ('w, 'm, singbox_error option \<times> singbox_engine) prog" where
  "singbox_Apply A S goos goarch word mord ifaces e =
     (case render e ifaces of
        Inl err \<Rightarrow> State_Monad.return (Some (RenderError err), e)
      | Inr rendered \<Rightarrow>
          if rendered = se_lastConfig e \<and> se_running e then State_Monad.return (None, e)
          else do {
            w \<leftarrow> writeFileAtomic S (sc_ConfigPath (se_cfg e)) rendered;
            (case w of
               Some err \<Rightarrow> State_Monad.return (Some (WriteConfig err), e)
             | None \<Rightarrow> do {
                 (r, e) \<leftarrow> restartLocked A S goos goarch e;
                 (case r of
                    Some err \<Rightarrow> State_Monad.return (Some err, e)
                  | None \<Rightarrow> do {
                      (if sc_System (se_cfg e)
                       then applyNATLocked S word mord (se_managed e) (wanted_map ifaces)
                       else State_Monad.return ());
                      State_Monad.return
                        (None, e\<lparr>se_lastConfig := rendered, se_managed := wanted_map ifaces\<rparr>) }) }) })"

definition singbox_Stats :: "singbox_engine \<Rightarrow> ('w, 'm, peer_stat list go_result) prog" where
  "singbox_Stats e = State_Monad.return (Inr [])"

definition singbox_Close ::
  "'w sys \<Rightarrow> (string list \<Rightarrow> string list) \<Rightarrow> singbox_engine \<Rightarrow> ('w, 'm, go_error \<times> singbox_engine) prog" where
  "singbox_Close S mord e = do {
     (if sc_System (se_cfg e)
      then for_each (mord (map_keys (se_managed e)))
             (\<lambda>name. do { _ \<leftarrow> TeardownNAT S (managed_interface (se_managed e) name); State_Monad.return () })
      else State_Monad.return ());
     e \<leftarrow> stopLocked S e;
     State_Monad.return (nil, e) }"

section \<open>The two engines\<close>

datatype engine = Kernel kernel_engine | Singbox singbox_engine

definition Build :: "string \<Rightarrow> singbox_config \<Rightarrow> engine" where
  "Build engineType sb =
     (if engineType = ''singbox'' then Singbox (NewSingboxEngine sb) else Kernel NewKernelEngine)"

end
