(* ===== verification/SingboxProcess.thy ===== *)
theory SingboxProcess
  imports SingboxEngine
begin

text \<open>
  The sing-box process over the life of an engine: whatever is applied, however processes end and
  whatever calls fail in between, at most one process of the engine is alive and the engine holds its
  handle, so that it can always be stopped.

  \<open>processes_ok S P\<close> is what \<open>os/exec\<close> documents, \<open>P w\<close> being the handles of the started processes
  that are alive: a successful start adds its handle, \<open>Kill\<close> and \<open>Wait\<close> end the process, and no other
  call starts one. Processes may end at any call.
\<close>

definition starts_process :: "call \<Rightarrow> bool" where
  "starts_process c = (case c of StartProcess exe args \<Rightarrow> True | _ \<Rightarrow> False)"

definition processes_ok :: "'w sys \<Rightarrow> ('w \<Rightarrow> int set) \<Rightarrow> bool" where
  "processes_ok S P \<longleftrightarrow>
     (\<forall>w exe args. P (snd (S (StartProcess exe args) w))
        \<subseteq> (case rerr (fst (S (StartProcess exe args) w)) of
             None \<Rightarrow> insert (rnum (fst (S (StartProcess exe args) w))) (P w) | Some _ \<Rightarrow> P w))
   \<and> (\<forall>w p. P (snd (S (KillProcess p) w)) \<subseteq> P w - {p})
   \<and> (\<forall>w c. \<not> starts_process c \<longrightarrow> P (snd (S c w)) \<subseteq> P w)"

section \<open>Programs that start no process\<close>

text \<open>
  \<open>calm S J\<close>: every call but the start of a process keeps \<open>J\<close>, a condition on the world and the
  history; then all the parts of the engine but the start itself keep it.
\<close>

definition calm :: "'w sys \<Rightarrow> ('w \<Rightarrow> call list \<Rightarrow> bool) \<Rightarrow> bool" where
  "calm S J \<longleftrightarrow> (\<forall>c w t. \<not> starts_process c \<longrightarrow> J w t \<longrightarrow> J (snd (S c w)) (t @ [c]))"

abbreviation keeps_calm :: "('w \<Rightarrow> call list \<Rightarrow> bool) \<Rightarrow> ('w, 'm, 'a) prog \<Rightarrow> bool" where
  "keeps_calm J m \<equiv> keeps (\<lambda>h. J (world h) (trace h)) m"

lemma calm_call: "calm S J \<Longrightarrow> \<not> starts_process c \<Longrightarrow> keeps_calm J (do_call S c)"
  by (rule keeps_do_call) (simp add: calm_def)

lemma calm_update:
  "(\<And>h. world (f h) = world h \<and> trace (f h) = trace h) \<Longrightarrow> keeps_calm J (State_Monad.update f)"
  by (simp add: keeps_def State_Monad.update_def)

lemma calm_get: "keeps_calm J State_Monad.get"
  by (simp add: keeps_def)

lemma calm_installer:
  assumes "calm S J"
  shows "keeps_calm J (Usable S b)"
    "keeps_calm J (sb_Ensure A S goos goarch b opts)"
proof -
  note call = calm_call[OF assms]
  show use: "keeps_calm J (Usable S b)" for b
    unfolding Usable_def by (intro keeps_intros call) (simp_all add: starts_process_def)
  show "keeps_calm J (sb_Ensure A S goos goarch b opts)"
    unfolding sb_Ensure_def attempt_install_def sb_install_def wanted_version_def latestVersion_def
      fetch_binary_def place_binary_def
    by (intro keeps_intros call use calm_update calm_get) (simp_all add: starts_process_def)
qed

lemma calm_write: 
  "calm S J \<Longrightarrow> keeps_calm J (writeFileAtomic S path data)"
  unfolding writeFileAtomic_def
  by (intro keeps_intros calm_call) (simp_all add: starts_process_def)

lemma calm_resolve:
  "calm S J \<Longrightarrow> keeps_calm J (resolveBinLocked A S goos goarch e)"
  unfolding resolveBinLocked_def by (intro keeps_intros calm_installer)

section \<open>Forwarding and policy routes\<close>

lemma calm_rules:
  assumes "calm S J"
  shows "keeps_calm J (runIptables S args)"
    "keeps_calm J (ensureRule S r)" "keeps_calm J (deleteRule S r)"
  unfolding runIptables_def ensureRule_def deleteRule_def
  by (intro keeps_intros calm_call[OF assms]; simp add: starts_process_def)+

lemma calm_delete_rules: "calm S J \<Longrightarrow> keeps_calm J (delete_rules S rs e)"
  by (induction rs arbitrary: e) (auto intro!: keeps_intros calm_rules)

lemma calm_owner_in: "calm S J \<Longrightarrow> keeps_calm J (owner_in S ip ls)"
  by (induction ls) (auto intro!: keeps_intros calm_call simp: starts_process_def)

lemma calm_resolveEgress:
  assumes "calm S J"
  shows "keeps_calm J (resolveEgress S spec)"
  unfolding resolveEgress_def DefaultEgressInterface_def linkForIP_def
  by (intro keeps_intros calm_call[OF assms] calm_owner_in assms; simp add: starts_process_def)

lemma calm_NAT:
  assumes "calm S J"
  shows "keeps_calm J (SetupNAT S i)" "keeps_calm J (TeardownNAT S i)"
    "keeps_calm J (ReconcileNAT S old i)"
proof -
  show s: "keeps_calm J (SetupNAT S i)"
    and t: "keeps_calm J (TeardownNAT S i)" for i
    unfolding SetupNAT_def TeardownNAT_def EnableForwarding_def
    by (intro keeps_intros calm_call[OF assms] calm_resolveEgress calm_delete_rules calm_rules assms;
        simp add: starts_process_def)+
  show "keeps_calm J (ReconcileNAT S old i)"
    unfolding ReconcileNAT_def by (intro keeps_intros s t)
qed

lemma calm_policy:
  assumes "calm S J"
  shows "keeps_calm J (RemovePolicyRoutes S old)"
    "keeps_calm J (ReconcilePolicyRoutes S old new)"
proof -
  have line: "keeps_calm J (runPolicyLine S ln verb)" for ln verb
    unfolding runPolicyLine_def
    by (intro keeps_intros calm_call[OF assms]) (simp add: starts_process_def)
  note parts = keeps_intros line calm_rules[OF assms] calm_call[OF assms]
  show "keeps_calm J (RemovePolicyRoutes S old)"
    unfolding RemovePolicyRoutes_def delete_lines_def delete_each_def by (intro parts)
  show "keeps_calm J (ReconcilePolicyRoutes S old new)"
    unfolding ReconcilePolicyRoutes_def delete_lines_def delete_each_def ApplyPolicyRoutes_def
      applyPolicyLine_def ensure_each_def EnableForwarding_def
    by (intro parts) (simp add: starts_process_def)
qed

lemma calm_applyNAT:
  "calm S J \<Longrightarrow> keeps_calm J (applyNATLocked S word mord managed want)"
  unfolding applyNATLocked_def nat_converge_def nat_remove_def
  by (intro keeps_intros calm_NAT calm_policy)

section \<open>The engine holds its process\<close>

lemma calm_processes: "processes_ok S P \<Longrightarrow> calm S (\<lambda>w t. P w \<subseteq> X)"
  unfolding calm_def processes_ok_def by blast

abbreviation starts_none :: "('w \<Rightarrow> int set) \<Rightarrow> ('w, 'm, 'a) prog \<Rightarrow> bool" where
  "starts_none P m \<equiv> \<forall>X. keeps (\<lambda>h. P (world h) \<subseteq> X) m"

lemma starts_noneD: "starts_none P m \<Longrightarrow> P (world (after m h)) \<subseteq> P (world h)"
  using keepsD[of "\<lambda>k. P (world k) \<subseteq> P (world h)" m h] by simp

text \<open>What is alive is the process the engine holds, and then the engine knows it is running.\<close>

definition held :: "('w \<Rightarrow> int set) \<Rightarrow> singbox_engine \<Rightarrow> 'w \<Rightarrow> bool" where
  "held P e w \<longleftrightarrow> P w \<subseteq> (if se_running e then set_option (se_cmd e) else {})"

lemma held_none: "P w = {} \<Longrightarrow> held P e w"
  by (simp add: held_def)

lemma held_stop:
  assumes "processes_ok S P" "held P e (world h)"
  shows "P (world (after (stopLocked S e) h)) = {}"
proof (cases "se_cmd e")
  case None
  with assms(2) show ?thesis by (simp add: stopLocked_def held_def split: if_splits)
next
  case (Some p)
  have "P (snd (S (KillProcess p) (world h))) \<subseteq> P (world h) - {p}" using assms(1) by (simp add: processes_ok_def)
  with Some assms(2) show ?thesis
    by (auto simp: stopLocked_def held_def run_do_call split: if_splits)
qed

lemma held_start:
  assumes "processes_ok S P" "P w = {}"
  shows "P (snd (S (StartProcess exe args) w))
    \<subseteq> (case rerr (fst (S (StartProcess exe args) w)) of
         None \<Rightarrow> {rnum (fst (S (StartProcess exe args) w))} | Some _ \<Rightarrow> {})"
proof -
  have "P (snd (S (StartProcess exe args) w))
      \<subseteq> (case rerr (fst (S (StartProcess exe args) w)) of
           None \<Rightarrow> insert (rnum (fst (S (StartProcess exe args) w))) (P w) | Some _ \<Rightarrow> P w)"
    using assms(1) by (simp add: processes_ok_def)
  then show ?thesis unfolding assms(2) by (simp split: option.splits)
qed

lemma held_restart:
  assumes "processes_ok S P" "held P e (world h)"
  shows "held P (snd (result (restartLocked A S goos goarch e) h)) (world (after (restartLocked A S goos goarch e) h))"
proof -
  obtain e1 h1 where 1: "run_state (stopLocked S e) h = (e1, h1)" by fastforce
  then have "P (world h1) = {}" using held_stop[OF assms] by (metis snd_conv)
  obtain b e2 h2 where 2: "run_state (resolveBinLocked A S goos goarch e1) h1 = ((b, e2), h2)"
    by (metis surj_pair)
  have "P (world (after (resolveBinLocked A S goos goarch e1) h1)) \<subseteq> P (world h1)"
    by (rule starts_noneD) (simp add: calm_resolve[OF calm_processes[OF assms(1)]])
  with 2 \<open>P (world h1) = {}\<close> have empty: "P (world h2) = {}" by simp
  show ?thesis
  proof (cases b)
    case (Inl err)
    then show ?thesis using 1 2 empty by (simp add: restartLocked_def held_none)
  next
    case (Inr bin)
    let ?c = "StartProcess bin [''run'', ''-c'', sc_ConfigPath (se_cfg e2)]"
    have "P (snd (S ?c (world h2))) \<subseteq> (case rerr (fst (S ?c (world h2))) of
        None \<Rightarrow> {rnum (fst (S ?c (world h2)))} | Some _ \<Rightarrow> {})"
      by (rule held_start[OF assms(1) empty])
    then show ?thesis
      using 1 2 Inr by (auto simp: restartLocked_def run_do_call held_def split: option.splits)
  qed
qed

lemma held_shrinks: "starts_none P m \<Longrightarrow> held P e (world h) \<Longrightarrow> held P e (world (after m h))"
  unfolding held_def by (rule subset_trans[OF starts_noneD])

lemma held_cong: "se_cmd e = se_cmd e' \<Longrightarrow> se_running e = se_running e' \<Longrightarrow> held P e w = held P e' w"
  by (simp add: held_def)

lemma held_Apply:
  assumes "processes_ok S P" "held P e (world h)"
  shows "held P (snd (result (singbox_Apply A S goos goarch word mord ifaces e) h))
    (world (after (singbox_Apply A S goos goarch word mord ifaces e) h))"
proof -
  obtain r where r: "render e ifaces = Inr r" by (simp add: render_def)
  show ?thesis
  proof (cases "r = se_lastConfig e \<and> se_running e")
    case True
    with r assms(2) show ?thesis by (simp add: singbox_Apply_def)
  next
    case False
    obtain w h1 where 1: "run_state (writeFileAtomic S (sc_ConfigPath (se_cfg e)) r) h = (w, h1)" by fastforce
    have "held P e (world (after (writeFileAtomic S (sc_ConfigPath (se_cfg e)) r) h))"
      by (rule held_shrinks) (simp_all add: calm_write[OF calm_processes[OF assms(1)]] assms(2))
    with 1 have held1: "held P e (world h1)" by simp
    obtain err e2 h2 where 2: "run_state (restartLocked A S goos goarch e) h1 = ((err, e2), h2)" by (metis surj_pair)
    have held2: "held P e2 (world h2)" using held_restart[OF assms(1) held1, of A goos goarch] 2 by simp
    have held3: "held P e2 (world (after (applyNATLocked S word mord (se_managed e2) (wanted_map ifaces)) h2))"
      by (rule held_shrinks) (simp_all add: calm_applyNAT[OF calm_processes[OF assms(1)]] held2)
    have same: "held P (e2\<lparr>se_lastConfig := r, se_managed := wanted_map ifaces\<rparr>) v = held P e2 v" for v
      by (rule held_cong) simp_all
    show ?thesis
    proof (cases w)
      case None
      show ?thesis
      proof (cases err)
        case err: None
        show ?thesis
          unfolding singbox_Apply_def r using False 1 2 None err held2 held3
          by (cases "sc_System (se_cfg e2)") (auto simp: same split: prod.splits)
      qed (use False 1 2 None held2 r in \<open>auto simp: singbox_Apply_def\<close>)
    qed (use False 1 held1 r in \<open>auto simp: singbox_Apply_def\<close>)
  qed
qed

lemma held_Close:
  assumes "processes_ok S P" "held P e (world h)"
  shows "P (world (after (singbox_Close S mord e) h)) = {}"
proof -
  let ?m = "if sc_System (se_cfg e)
      then for_each (mord (map_keys (se_managed e)))
             (\<lambda>name. do { _ \<leftarrow> TeardownNAT S (managed_interface (se_managed e) name); State_Monad.return () })
      else State_Monad.return ()"
  have none: "starts_none P ?m"
    by (intro allI keeps_intros calm_NAT[OF calm_processes[OF assms(1)]])
  have "held P e (world (after ?m h))"
    by (rule held_shrinks[OF none assms(2)])
  from held_stop[OF assms(1) this] show ?thesis
    unfolding singbox_Close_def by (simp add: after_bind del: run_state_bind)
qed

section \<open>The life of an engine\<close>

text \<open>
  The steps of an engine and its host, in any order: the controller applies a configuration or
  closes the engine, the goroutine learns that a process has ended, and everything else on the host,
  which starts no process of the engine.
\<close>

inductive sb_step ::
  "archive_lib \<Rightarrow> 'w sys \<Rightarrow> ('w \<Rightarrow> int set) \<Rightarrow> singbox_engine \<times> 'w host \<Rightarrow> singbox_engine \<times> 'w host \<Rightarrow> bool"
  for A S P where
  step_Apply: "run_state (singbox_Apply A S goos goarch word mord ifaces e) h = ((r, e'), h')
     \<Longrightarrow> sb_step A S P (e, h) (e', h')"
| step_Close: "run_state (singbox_Close S mord e) h = ((r, e'), h') \<Longrightarrow> sb_step A S P (e, h) (e', h')"
| step_Exited: "p \<notin> P (world h) \<Longrightarrow> sb_step A S P (e, h) (process_exited p e, h)"
| step_Other: "P (world h') \<subseteq> P (world h) \<Longrightarrow> sb_step A S P (e, h) (e, h')"

lemma held_step:
  assumes "processes_ok S P"
  shows "sb_step A S P x y \<Longrightarrow> held P (fst x) (world (snd x)) \<Longrightarrow> held P (fst y) (world (snd y))"
proof (induction rule: sb_step.induct)
  case (step_Apply goos goarch word mord ifaces e h r e' h')
  then show ?case using held_Apply[OF assms, of e h A goos goarch word mord ifaces] by simp
next
  case (step_Close mord e h r e' h')
  then show ?case using held_Close[OF assms, of e h mord] by (simp add: held_none)
next
  case (step_Exited p h e)
  then show ?case by (auto simp: held_def process_exited_def split: if_splits)
next
  case (step_Other h' h e)
  then show ?case by (auto simp: held_def)
qed

text \<open>
  However an engine is used, whatever fails and whenever its processes end: of the processes it
  ever started at most one is alive, the engine holds its handle and knows that it is running, and
  closing the engine leaves none alive.
\<close>
theorem at_most_one_singbox:
  assumes "processes_ok S P" and "P (world h0) = {}"
    and "(sb_step A S P)\<^sup>*\<^sup>* (NewSingboxEngine cfg, h0) (e, h)"
  shows "(P (world h) = {} \<or> (\<exists>p. P (world h) = {p} \<and> se_cmd e = Some p \<and> se_running e))
    \<and> P (world (after (singbox_Close S mord e) h)) = {}"
proof -
  have "held P (fst y) (world (snd y))" if "(sb_step A S P)\<^sup>*\<^sup>* x y" "held P (fst x) (world (snd x))" for x y
    using that by (induction rule: rtranclp_induct) (auto intro: held_step[OF assms(1)])
  from this[OF assms(3)] have held: "held P e (world h)" using assms(2) by (simp add: held_none)
  then have "P (world h) = {} \<or> (\<exists>p. P (world h) = {p} \<and> se_cmd e = Some p \<and> se_running e)"
    by (cases "se_cmd e") (auto simp: held_def split: if_splits)
  then show ?thesis using held_Close[OF assms(1) held] by blast
qed

text \<open>A host that keeps the living processes, where every call succeeds.\<close>

fun proc_sys :: "int list sys" where
  "proc_sys (StartProcess exe args) w = (ok_reply\<lparr>rnum := 7\<rparr>, 7 # w)"
| "proc_sys (KillProcess p) w = (ok_reply, filter (\<lambda>q. q \<noteq> p) w)"
| "proc_sys c w = (ok_reply, w)"

lemma proc_sys_ok: "processes_ok proc_sys set"
proof -
  have "set (snd (proc_sys c w)) \<subseteq> set w" if "\<not> starts_process c" for c w
    using that by (cases "(c, w)" rule: proc_sys.cases) (simp_all add: starts_process_def)
  then show ?thesis unfolding processes_ok_def by auto
qed

theorem at_most_one_singbox_witness:
  "(let lib = \<lparr>arc_open = (\<lambda>b. Inl ''EOF''), arc_tag = (\<lambda>b. Inl ''EOF'')\<rparr>;
        cfg = \<lparr>sc_BinPath = [], sc_ConfigPath = ''a/b'', sc_System = False, sc_LogLevel = []\<rparr>;
        out = run_state (singbox_Apply lib proc_sys ''linux'' ''amd64'' rev rev [] (NewSingboxEngine cfg)) (init_host [])
    in world (snd out) = [7] \<and> se_cmd (snd (fst out)) = Some 7
     \<and> set (world (after (singbox_Close proc_sys rev (snd (fst out))) (snd out))) = {})"
proof -
  let ?lib = "\<lparr>arc_open = (\<lambda>b. Inl ''EOF''), arc_tag = (\<lambda>b. Inl ''EOF'')\<rparr>"
  let ?cfg = "\<lparr>sc_BinPath = [], sc_ConfigPath = ''a/b'', sc_System = False, sc_LogLevel = []\<rparr>"
  let ?out = "run_state (singbox_Apply ?lib proc_sys ''linux'' ''amd64'' rev rev [] (NewSingboxEngine ?cfg)) (init_host [])"
  have "sb_step ?lib proc_sys set (NewSingboxEngine ?cfg, init_host []) (snd (fst ?out), snd ?out)"
    by (rule step_Apply[of _ _ "''linux''" "''amd64''" rev rev "[]" _ _ "fst (fst ?out)"]) simp
  from at_most_one_singbox[OF proc_sys_ok _ r_into_rtranclp[of "sb_step ?lib proc_sys set", OF this]]
  have "set (world (after (singbox_Close proc_sys rev (snd (fst ?out))) (snd ?out))) = {}" by simp
  moreover have "world (snd ?out) = [7] \<and> se_cmd (snd (fst ?out)) = Some 7" by code_simp
  ultimately show ?thesis unfolding Let_def by blast
qed

end
