(* ===== verification/GoJsonFacts.thy ===== *)
theory GoJsonFacts
  imports GoJson
begin

text \<open>
  The writer of JSON is injective on values whose strings are valid UTF-8: two values have the same
  text only when they are the same. Every part of a text is shown to be readable from the left, with
  anything after it that cannot continue it.
\<close>

section \<open>Runes\<close>

function valid_text :: "string \<Rightarrow> bool" where
  "valid_text [] = True"
| "valid_text (c # s) =
     (if rune_len (c # s) = 0 then False else valid_text (drop (rune_len (c # s)) (c # s)))"
  by pat_completeness auto
termination by (relation "measure length") (simp_all del: rune_len.simps)

declare valid_text.simps(2) [simp del]

lemma valid_text_ascii: "in_bytes 0 0x7F c \<Longrightarrow> valid_text (c # s) = valid_text s"
  by (simp add: valid_text.simps(2))

lemma rune_len_le: "rune_len s \<le> length s"
  by (cases s) (auto split: option.splits list.splits)

text \<open>A rune is the encoding of one code point.\<close>

definition is_rune :: "string \<Rightarrow> bool" where
  "is_rune r \<longleftrightarrow> r \<noteq> [] \<and> rune_len r = length r"

lemma is_rune_ascii: "is_rune (c # r) \<Longrightarrow> in_bytes 0 0x7F c \<Longrightarrow> r = []"
  by (simp add: is_rune_def)

lemma is_rune_long:
  "is_rune (c # r) \<Longrightarrow> \<not> in_bytes 0 0x7F c
   \<Longrightarrow> \<exists>lo hi n d t. utf8_second c = Some (lo, hi, n) \<and> r = d # t \<and> in_bytes lo hi d \<and> length t = n
        \<and> list_all (in_bytes 0x80 0xBF) t"
  by (auto simp: is_rune_def split: option.splits list.splits prod.splits if_splits)

lemma rune_len_append: "is_rune r \<Longrightarrow> rune_len (r @ x) = length r"
proof (cases r)
  case (Cons c s)
  assume r: "is_rune r"
  show ?thesis
  proof (cases "in_bytes 0 0x7F c")
    case True
    then show ?thesis using r Cons is_rune_ascii by simp
  next
    case False
    with r Cons show ?thesis using is_rune_long[of c s] by auto
  qed
qed (simp add: is_rune_def)

lemma rune_len_head:
  assumes "rune_len s \<noteq> 0"
  shows "is_rune (take (rune_len s) s)"
proof (cases s)
  case (Cons c t)
  then show ?thesis using assms
    by (auto simp: is_rune_def split: option.splits list.splits prod.splits if_splits)
qed (use assms in simp)

section \<open>Reading one rune back\<close>

definition hex_of :: "char \<Rightarrow> nat" where
  "hex_of c = (if of_char c < (58 :: nat) then of_char c - 48 else of_char c - 87)"

definition short_escape :: "char \<Rightarrow> string" where
  "short_escape c =
     (if c = CHR ''b'' then [CHR 0x08] else if c = CHR ''f'' then [CHR 0x0C] else if c = CHR ''n'' then [CHR 0x0A]
      else if c = CHR ''r'' then [CHR 0x0D] else if c = CHR ''t'' then [CHR 0x09] else [c])"

definition read_rune :: "string \<Rightarrow> string \<times> nat" where
  "read_rune s =
     (if s \<noteq> [] \<and> hd s = CHR 0x5C then
        (if s ! 1 = CHR ''u'' then
           (if s ! 2 = CHR ''2'' then [CHR 0xE2, CHR 0x80, char_of (0xA0 + hex_of (s ! 5))]
            else [char_of (16 * hex_of (s ! 4) + hex_of (s ! 5))], 6)
         else (short_escape (s ! 1), 2))
      else (take (rune_len s) s, rune_len s))"

definition byte_form :: "char \<Rightarrow> bool" where
  "byte_form c =
     (let s = json_byte c
      in s = [c] \<and> c \<noteq> CHR 0x5C \<and> c \<noteq> CHR 0x22
       \<or> length s = 2 \<and> hd s = CHR 0x5C \<and> s ! 1 \<noteq> CHR ''u'' \<and> short_escape (s ! 1) = [c]
       \<or> length s = 6 \<and> hd s = CHR 0x5C \<and> s ! 1 = CHR ''u'' \<and> s ! 2 \<noteq> CHR ''2''
         \<and> char_of (16 * hex_of (s ! 4) + hex_of (s ! 5)) = c)"

lemma byte_forms:
  assumes "in_bytes 0 0x7F c"
  shows "byte_form c"
proof -
  have "list_all byte_form (map char_of [0..<128::nat])" by code_simp
  moreover have "c \<in> set (map char_of [0..<128::nat])"
  proof -
    have "of_char c \<in> {0..<128::nat}" using assms by (simp add: in_bytes_def)
    then have "char_of (of_char c :: nat) \<in> char_of ` {0..<128::nat}" by (rule imageI)
    then show ?thesis by simp
  qed
  ultimately show ?thesis unfolding list_all_iff by (rule bspec)
qed

lemma read_byte:
  assumes "in_bytes 0 0x7F c"
  shows "read_rune (json_byte c @ x) = ([c], length (json_byte c)) \<and> hd (json_byte c) \<noteq> CHR 0x22 \<and> json_byte c \<noteq> []"
proof -
  have five: "s = [s ! 0, s ! 1, s ! 2, s ! 3, s ! 4, s ! 5]" if "length s = 6" for s :: string
    using that by (auto simp: list_eq_iff_nth_eq less_Suc_eq numeral_eq_Suc)
  let ?s = "json_byte c"
  consider "?s = [c]" "c \<noteq> CHR 0x5C" "c \<noteq> CHR 0x22"
    | "length ?s = 2" "hd ?s = CHR 0x5C" "?s ! 1 \<noteq> CHR ''u''" "short_escape (?s ! 1) = [c]"
    | "length ?s = 6" "hd ?s = CHR 0x5C" "?s ! 1 = CHR ''u''" "?s ! 2 \<noteq> CHR ''2''"
      "char_of (16 * hex_of (?s ! 4) + hex_of (?s ! 5)) = c"
    using byte_forms[OF assms] unfolding byte_form_def Let_def by blast
  then show ?thesis
  proof cases
    case 1
    then show ?thesis using assms by (simp add: read_rune_def)
  next
    case 2
    then obtain a b where "?s = [a, b]" by (auto simp: length_Suc_conv numeral_eq_Suc)
    with 2 show ?thesis by (simp add: read_rune_def)
  next
    case 3
    have "hd ?s = ?s ! 0" using five[OF 3(1)] by (metis list.sel(1))
    with 3 show ?thesis
      by (subst five[OF 3(1)]) (auto simp: read_rune_def nth_append)
  qed
qed

lemma read_json_rune:
  assumes "is_rune r"
  shows "read_rune (json_rune r @ x) = (r, length (json_rune r)) \<and> hd (json_rune r) \<noteq> CHR 0x22 \<and> json_rune r \<noteq> []"
proof (cases r)
  case (Cons c s)
  show ?thesis
  proof (cases "in_bytes 0 0x7F c")
    case True
    with assms Cons is_rune_ascii have "r = [c]" by simp
    then show ?thesis using read_byte[OF True] by (simp add: json_rune_def)
  next
    case False
    then obtain d t where s: "s = d # t" using is_rune_long assms Cons by blast
    have c: "c \<noteq> CHR 0x5C" "c \<noteq> CHR 0x22" using False by (auto simp: in_bytes_def)
    have whole: "read_rune (r @ x) = (r, length r)"
      using rune_len_append[OF assms, of x] c Cons by (simp add: read_rune_def)
    show ?thesis
    proof (cases "r \<in> {[CHR 0xE2, CHR 0x80, CHR 0xA8], [CHR 0xE2, CHR 0x80, CHR 0xA9]}")
      case True
      moreover have "char_of (168 :: nat) = CHR 0xA8" "char_of (169 :: nat) = CHR 0xA9" by code_simp+
      ultimately show ?thesis by (auto simp: json_rune_def read_rune_def hex_of_def)
    next
      case no: False
      then have "json_rune r = r" using Cons s by (simp add: json_rune_def)
      then show ?thesis using whole c Cons by simp
    qed
  qed
qed (use assms in \<open>simp add: is_rune_def\<close>)

lemma json_rune_inject:
  assumes "is_rune r" "is_rune r'" "json_rune r @ x = json_rune r' @ y"
  shows "r = r' \<and> x = y"
proof -
  have "(r, length (json_rune r)) = (r', length (json_rune r'))"
    using read_json_rune[OF assms(1), of x] read_json_rune[OF assms(2), of y] assms(3) by simp
  with assms(3) show ?thesis by simp
qed

section \<open>Strings\<close>

lemma json_chars_rune:
  "rune_len s \<noteq> 0 \<Longrightarrow> json_chars s = json_rune (take (rune_len s) s) @ json_chars (drop (rune_len s) s)"
  by (cases s) (simp_all add: Let_def del: rune_len.simps(2))

lemma valid_text_rune:
  "s \<noteq> [] \<Longrightarrow> valid_text s \<longleftrightarrow> rune_len s \<noteq> 0 \<and> valid_text (drop (rune_len s) s)"
  by (cases s) (simp_all add: valid_text.simps(2) del: rune_len.simps(2))

lemma json_chars_inject:
  "valid_text s \<Longrightarrow> valid_text t \<Longrightarrow> json_chars s @ CHR 0x22 # u = json_chars t @ CHR 0x22 # v \<Longrightarrow> s = t \<and> u = v"
proof (induction "length s" arbitrary: s t rule: less_induct)
  case less
  have start: "hd (json_chars t @ CHR 0x22 # v) \<noteq> CHR 0x22" if "t \<noteq> []" "valid_text t" for t v
  proof -
    from that have n: "rune_len t \<noteq> 0" by (simp add: valid_text_rune)
    from read_json_rune[OF rune_len_head[OF n]] show ?thesis
      unfolding json_chars_rune[OF n] by (simp add: hd_append)
  qed
  show ?case
  proof (cases "s = []")
    case True
    then have "hd (json_chars t @ CHR 0x22 # v) = CHR 0x22"
      using less.prems(3) by (metis append_Nil json_chars.simps(1) list.sel(1))
    with start[of t v] less.prems True show ?thesis by (cases "t = []") auto
  next
    case False
    with less.prems start[of s u] have "t \<noteq> []" by auto
    with False less.prems have n: "rune_len s \<noteq> 0" "valid_text (drop (rune_len s) s)"
      and m: "rune_len t \<noteq> 0" "valid_text (drop (rune_len t) t)" by (simp_all add: valid_text_rune)
    have "json_rune (take (rune_len s) s) @ json_chars (drop (rune_len s) s) @ CHR 0x22 # u
        = json_rune (take (rune_len t) t) @ json_chars (drop (rune_len t) t) @ CHR 0x22 # v"
      using less.prems(3) json_chars_rune[OF n(1)] json_chars_rune[OF m(1)] by simp
    from json_rune_inject[OF rune_len_head[OF n(1)] rune_len_head[OF m(1)] this]
    have heads: "take (rune_len s) s = take (rune_len t) t"
      and tails: "json_chars (drop (rune_len s) s) @ CHR 0x22 # u = json_chars (drop (rune_len t) t) @ CHR 0x22 # v"
      by simp_all
    have "length (drop (rune_len s) s) < length s" using n(1) False by simp
    from less.hyps[OF this n(2) m(2) tails] heads show ?thesis by (metis append_take_drop_id)
  qed
qed

lemma json_quote_inject:
  "valid_text s \<Longrightarrow> valid_text t \<Longrightarrow> json_quote s @ u = json_quote t @ v \<Longrightarrow> s = t \<and> u = v"
  using json_chars_inject[of s t u v] by (simp add: json_quote_def)

section \<open>Numbers\<close>

text \<open>What may follow a number: nothing that continues it.\<close>

definition stops :: "string \<Rightarrow> bool" where
  "stops s \<longleftrightarrow> (case s of [] \<Rightarrow> True | c # _ \<Rightarrow> \<not> in_bytes 48 57 c)"

lemma number_bytes: "list_all (in_bytes 48 57) (nat_str n)"
proof (induction n rule: nat_str.induct)
  case (1 n)
  have digit: "in_bytes 48 57 (digit_char d)" if "d < 10" for d
    using that by (simp add: in_bytes_def digit_of_char)
  show ?case using 1 digit by (subst nat_str.simps) auto
qed

lemma digits_inject:
  assumes "list_all (in_bytes 48 57) s" "list_all (in_bytes 48 57) t" "stops u" "stops v" "s @ u = t @ v"
  shows "s = t \<and> u = v"
proof -
  have "takeWhile (in_bytes 48 57) (s @ u) = s" if "list_all (in_bytes 48 57) s" "stops u" for s u
    using that by (cases u) (auto simp: stops_def list_all_iff takeWhile_append)
  with assms show ?thesis by (metis append_same_eq same_append_eq)
qed

lemma Itoa_inject:
  assumes "stops u" "stops v" "Itoa i @ u = Itoa j @ v"
  shows "i = j \<and> u = v"
proof -
  have minus: "CHR ''-'' # x \<noteq> nat_str n @ y" for x y n
  proof
    assume eq: "CHR ''-'' # x = nat_str n @ y"
    have "nat_str n = CHR ''-'' # tl (nat_str n)"
      using eq by (cases "nat_str n") auto
    with number_bytes[of n] have "in_bytes 48 57 (CHR ''-'')" by (metis list.pred_inject(2))
    then show False by (simp add: in_bytes_def)
  qed
  note digits = digits_inject[OF number_bytes number_bytes assms(1,2)]
  show ?thesis
  proof (cases "i < 0")
    case i: True
    show ?thesis
    proof (cases "j < 0")
      case True
      with i assms(3) have "nat_str (nat (- i)) @ u = nat_str (nat (- j)) @ v" by (simp add: Itoa_def)
      from digits[OF this] i True show ?thesis by (auto simp: nat_str_inject)
    next
      case False
      with i assms(3) minus[of "nat_str (nat (- i)) @ u"] show ?thesis by (simp add: Itoa_def)
    qed
  next
    case i: False
    show ?thesis
    proof (cases "j < 0")
      case True
      then show ?thesis using i assms(3) minus[of "nat_str (nat (- j)) @ v" "nat i" u] by (simp add: Itoa_def)
    next
      case False
      with i assms(3) have "nat_str (nat i) @ u = nat_str (nat j) @ v" by (simp add: Itoa_def)
      from digits[OF this] i False show ?thesis by (auto simp: nat_str_inject)
    qed
  qed
qed

section \<open>Values\<close>

fun valid_json :: "json \<Rightarrow> bool" where
  "valid_json (JStr s) = valid_text s"
| "valid_json (JArr vs) = (\<forall>v \<in> set vs. valid_json v)"
| "valid_json (JObj kvs) = (\<forall>kv \<in> set kvs. valid_text (fst kv) \<and> valid_json (snd kv))"
| "valid_json _ = True"

fun kind_of :: "json \<Rightarrow> nat" where
  "kind_of JNull = 0" | "kind_of (JBool b) = (if b then 1 else 2)" | "kind_of (JInt i) = 3"
| "kind_of (JStr s) = 4" | "kind_of (JArr vs) = 5" | "kind_of (JObj kvs) = 6"

definition kind_of_byte :: "char \<Rightarrow> nat" where
  "kind_of_byte c =
     (if c = CHR ''n'' then 0 else if c = CHR ''t'' then 1 else if c = CHR ''f'' then 2
      else if c = CHR 0x22 then 4 else if c = CHR ''['' then 5 else if c = CHR 0x7B then 6 else 3)"

lemma Itoa_head: "Itoa i \<noteq> [] \<and> kind_of_byte (hd (Itoa i)) = 3"
proof (cases "i < 0")
  case False
  have digit: "kind_of_byte c = 3" if "in_bytes 48 57 c" for c
    using that by (auto simp: kind_of_byte_def in_bytes_def)
  have "in_bytes 48 57 (hd (nat_str (nat i)))"
    using number_bytes[of "nat i"] nat_str_neq_Nil[of "nat i"] by (cases "nat_str (nat i)") simp_all
  with False digit show ?thesis by (simp add: Itoa_def)
qed (simp add: Itoa_def kind_of_byte_def)

lemma marshal_kind: "marshal_at d v \<noteq> [] \<and> kind_of_byte (hd (marshal_at d v)) = kind_of v"
  using Itoa_head by (cases v) (auto simp: kind_of_byte_def json_bool_def json_quote_def)

lemma marshal_same_kind: "marshal_at d v @ u = marshal_at d' v' @ u' \<Longrightarrow> kind_of v = kind_of v'"
  using marshal_kind[of d v] marshal_kind[of d' v'] by (metis hd_append2)

lemma items_inject:
  assumes "\<And>x y u u'. x \<in> set xs \<Longrightarrow> y \<in> set ys \<Longrightarrow> stops u \<Longrightarrow> stops u' \<Longrightarrow> f x @ u = f y @ u'
      \<Longrightarrow> x = y \<and> u = u'"
    and "xs \<noteq> []" "ys \<noteq> []"
    and "Join (map f xs) (CHR '','' # s) @ CHR 0x0A # u = Join (map f ys) (CHR '','' # s) @ CHR 0x0A # u'"
  shows "xs = ys \<and> u = u'"
  using assms
proof (induction xs arbitrary: ys)
  case (Cons x xs)
  obtain y zs where ys: "ys = y # zs" using Cons.prems(3) by (cases ys) auto
  have stop: "stops (CHR '','' # w)" "stops (CHR 0x0A # w)" for w by (simp_all add: stops_def in_bytes_def)
  let ?rest = "\<lambda>xs u. if xs = [] then CHR 0x0A # u else CHR '','' # s @ Join (map f xs) (CHR '','' # s) @ CHR 0x0A # u"
  have split: "Join (map f (a # as)) (CHR '','' # s) @ CHR 0x0A # w = f a @ ?rest as w" for a as w
    by (simp add: Join_Cons)
  have "f x @ ?rest xs u = f y @ ?rest zs u'"
    using Cons.prems(4) unfolding ys split .
  moreover have "stops (?rest xs u)" "stops (?rest zs u')" using stop by simp_all
  ultimately have 1: "x = y" "?rest xs u = ?rest zs u'"
    using Cons.prems(1)[of x y "?rest xs u" "?rest zs u'"] ys by simp_all
  show ?case
  proof (cases "xs = [] \<or> zs = []")
    case True
    with 1 ys show ?thesis by (auto split: if_splits)
  next
    case False
    with 1(2) have "Join (map f xs) (CHR '','' # s) @ CHR 0x0A # u = Join (map f zs) (CHR '','' # s) @ CHR 0x0A # u'"
      by simp
    then have "xs = zs \<and> u = u'"
      using False ys by (intro Cons.IH Cons.prems(1)) simp_all
    with 1 ys show ?thesis by simp
  qed
qed simp

lemma member_inject:
  assumes "\<And>w v u u'. w = snd kv \<Longrightarrow> v = snd kv' \<Longrightarrow> stops u \<Longrightarrow> stops u' \<Longrightarrow> marshal_at d w @ u = marshal_at d v @ u'
      \<Longrightarrow> w = v \<and> u = u'"
    and "valid_text (fst kv)" "valid_text (fst kv')" "stops u" "stops u'"
    and "(\<lambda>(k, v). json_quote k @ '': '' @ marshal_at d v) kv @ u = (\<lambda>(k, v). json_quote k @ '': '' @ marshal_at d v) kv' @ u'"
  shows "kv = kv' \<and> u = u'"
proof -
  have "json_quote (fst kv) @ '': '' @ marshal_at d (snd kv) @ u = json_quote (fst kv') @ '': '' @ marshal_at d (snd kv') @ u'"
    using assms(6) by (simp add: case_prod_unfold)
  from json_quote_inject[OF assms(2,3) this] assms(1)[OF refl refl assms(4,5)]
  show ?thesis by (simp add: prod_eq_iff)
qed

lemma marshal_inject:
  "valid_json v \<Longrightarrow> valid_json w \<Longrightarrow> stops u \<Longrightarrow> stops u' \<Longrightarrow> marshal_at d v @ u = marshal_at d w @ u'
   \<Longrightarrow> v = w \<and> u = u'"
proof (induction v arbitrary: d w u u')
  case JNull
  with marshal_same_kind[OF JNull.prems(5)] show ?case by (cases w) (auto split: if_splits)
next
  case (JBool b)
  with marshal_same_kind[OF JBool.prems(5)] show ?case
    by (cases w) (auto simp: json_bool_def split: if_splits)
next
  case (JInt i)
  with marshal_same_kind[OF JInt.prems(5)] show ?case
    by (cases w) (auto dest: Itoa_inject split: if_splits)
next
  case (JStr s)
  with marshal_same_kind[OF JStr.prems(5)] show ?case
    by (cases w) (auto dest: json_quote_inject split: if_splits)
next
  case (JArr vs)
  then obtain ws where w: "w = JArr ws"
    using marshal_same_kind[OF JArr.prems(5)] by (cases w) (auto split: if_splits)
  show ?case
  proof (cases "vs = [] \<or> ws = []")
    case True
    with JArr.prems(5) w show ?thesis by (auto simp: json_line_def split: if_splits)
  next
    case False
    have "Join (map (marshal_at (d + 1)) vs) (CHR '','' # json_line (d + 1)) @ CHR 0x0A # replicate (2 * d) (CHR 0x20) @ '']'' @ u
        = Join (map (marshal_at (d + 1)) ws) (CHR '','' # json_line (d + 1)) @ CHR 0x0A # replicate (2 * d) (CHR 0x20) @ '']'' @ u'"
      using JArr.prems(5) False w by (simp add: json_line_def[of d])
    moreover have "x = y \<and> z = z'" if "x \<in> set vs" "y \<in> set ws" "stops z" "stops z'"
        "marshal_at (d + 1) x @ z = marshal_at (d + 1) y @ z'" for x y z z'
      using JArr.IH[OF that(1) _ _ that(3,4,5)] JArr.prems(1,2) w that(1,2) by simp
    ultimately have "vs = ws \<and> replicate (2 * d) (CHR 0x20) @ '']'' @ u = replicate (2 * d) (CHR 0x20) @ '']'' @ u'"
      using False by (intro items_inject[where f = "marshal_at (d + 1)" and s = "json_line (d + 1)"]) auto
    with w show ?thesis by simp
  qed
next
  case (JObj kvs)
  then obtain kws where w: "w = JObj kws"
    using marshal_same_kind[OF JObj.prems(5)] by (cases w) (auto split: if_splits)
  let ?f = "\<lambda>(k, v). json_quote k @ '': '' @ marshal_at (d + 1) v"
  show ?case
  proof (cases "kvs = [] \<or> kws = []")
    case True
    with JObj.prems(5) w show ?thesis by (auto simp: json_line_def split: if_splits)
  next
    case False
    have "Join (map ?f kvs) (CHR '','' # json_line (d + 1)) @ CHR 0x0A # replicate (2 * d) (CHR 0x20) @ CHR 0x7D # u
        = Join (map ?f kws) (CHR '','' # json_line (d + 1)) @ CHR 0x0A # replicate (2 * d) (CHR 0x20) @ CHR 0x7D # u'"
      using JObj.prems(5) False w by (simp add: json_line_def[of d])
    moreover have "x = y \<and> z = z'"
      if "x \<in> set kvs" "y \<in> set kws" "stops z" "stops z'" "?f x @ z = ?f y @ z'" for x y z z'
    proof (rule member_inject[OF _ _ _ that(3,4,5)])
      show "valid_text (fst x)" "valid_text (fst y)" using that(1,2) JObj.prems(1,2) w by auto
      show "a = b \<and> c = c'" if "a = snd x" "b = snd y" "stops c" "stops c'"
          "marshal_at (d + 1) a @ c = marshal_at (d + 1) b @ c'" for a b c c'
      proof -
        have "(fst x, a) \<in> set kvs" "valid_json a" "valid_json b"
          using \<open>x \<in> set kvs\<close> \<open>y \<in> set kws\<close> JObj.prems(1,2) w that(1,2) by auto
        from JObj.IH[OF this(1) _ this(2,3) that(3,4,5)] show ?thesis by simp
      qed
    qed
    ultimately have "kvs = kws \<and> replicate (2 * d) (CHR 0x20) @ CHR 0x7D # u = replicate (2 * d) (CHR 0x20) @ CHR 0x7D # u'"
      using False by (intro items_inject[where f = ?f and s = "json_line (d + 1)"]) auto
    with w show ?thesis by simp
  qed
qed

theorem MarshalIndent_inject:
  "valid_json v \<Longrightarrow> valid_json w \<Longrightarrow> MarshalIndent v = MarshalIndent w \<longleftrightarrow> v = w"
  using marshal_inject[of v w "[]" "[]" 0] by (auto simp: MarshalIndent_def stops_def)

end
