(* ===== verification/SingboxRender.thy ===== *)
theory SingboxRender
  imports SingboxProcess GoJsonFacts
begin

text \<open>
  When the sing-box engine acts: comparing the rendered texts is comparing what they say of the
  interfaces, so an interface is reconfigured when, and only when, one of the rendered settings
  changed.
\<close>

text \<open>What the rendered configuration says of a peer and of an interface.\<close>

definition peer_view :: "wg_peer \<Rightarrow> string \<times> string list \<times> string \<times> int" where
  "peer_view p = (wp_PublicKey p, splitCIDRs (wp_AllowedIPs p), wp_PresharedKey p, max 0 (wp_PersistentKeepalive p))"

definition interface_view ::
  "wg_interface \<Rightarrow> string \<times> string \<times> int \<times> string list \<times> int \<times> (string \<times> string list \<times> string \<times> int) list" where
  "interface_view i = (if_Name i, if_PrivateKey i, if_ListenPort i, splitCIDRs (if_Address i), max 0 (if_MTU i),
     map peer_view (if_Peers i))"

text \<open>The texts of an interface are valid UTF-8, as every text decoded from JSON is.\<close>

definition valid_peer :: "wg_peer \<Rightarrow> bool" where
  "valid_peer p \<longleftrightarrow> valid_text (wp_PublicKey p) \<and> valid_text (wp_PresharedKey p)
     \<and> (\<forall>s \<in> set (splitCIDRs (wp_AllowedIPs p)). valid_text s)"

definition valid_interface :: "wg_interface \<Rightarrow> bool" where
  "valid_interface i \<longleftrightarrow> valid_text (if_Name i) \<and> valid_text (if_PrivateKey i)
     \<and> (\<forall>s \<in> set (splitCIDRs (if_Address i)). valid_text s) \<and> (\<forall>p \<in> set (if_Peers i). valid_peer p)"

section \<open>The rendering is injective\<close>

lemma peer_json_sorted:
  "peer_json p = JObj
     ((''allowed_ips'', JArr (map JStr (splitCIDRs (wp_AllowedIPs p))))
      # (if wp_PersistentKeepalive p > 0
         then [(''persistent_keepalive_interval'', JInt (wp_PersistentKeepalive p))] else [])
      @ (if wp_PresharedKey p \<noteq> [] then [(''pre_shared_key'', JStr (wp_PresharedKey p))] else [])
      @ [(''public_key'', JStr (wp_PublicKey p))])"
  by (simp add: peer_json_def json_map_def)

lemma endpoint_json_sorted:
  "endpoint_json system i = JObj
     ((''address'', JArr (map JStr (splitCIDRs (if_Address i))))
      # (''listen_port'', JInt (if_ListenPort i))
      # (if if_MTU i > 0 then [(''mtu'', JInt (if_MTU i))] else [])
      @ [(''name'', JStr (if_Name i)),
         (''peers'', JArr (map peer_json (if_Peers i))),
         (''private_key'', JStr (if_PrivateKey i)),
         (''system'', JBool system),
         (''tag'', JStr (''ep-'' @ if_Name i)),
         (''type'', JStr ''wireguard'')])"
  by (simp add: endpoint_json_def json_map_def)

lemma map_JStr_inject: "map JStr xs = map JStr ys \<longleftrightarrow> xs = ys"
  by (rule inj_map_eq_map) (simp add: inj_def)

lemma peer_json_inject: "peer_json p = peer_json q \<longleftrightarrow> peer_view p = peer_view q"
  by (auto simp: peer_json_sorted peer_view_def map_JStr_inject)

lemma map_view_inject:
  assumes "\<And>x y. f x = f y \<longleftrightarrow> g x = g y"
  shows "map f xs = map f ys \<longleftrightarrow> map g xs = map g ys"
  using assms by (auto simp: list_eq_iff_nth_eq)

lemma endpoint_json_inject: "endpoint_json s i = endpoint_json s j \<longleftrightarrow> interface_view i = interface_view j"
  using map_view_inject[of peer_json peer_view, OF peer_json_inject]
  by (cases "if_MTU i > 0"; cases "if_MTU j > 0")
    (simp_all add: endpoint_json_sorted interface_view_def map_JStr_inject, auto)

lemma config_json_inject:
  "config_json cfg is = config_json cfg js \<longleftrightarrow> map interface_view is = map interface_view js"
  using map_view_inject[of "endpoint_json (sc_System cfg)" interface_view, OF endpoint_json_inject]
  by (simp add: config_json_def json_map_def)

lemma config_json_valid:
  assumes "valid_text (sc_LogLevel cfg)" "list_all valid_interface is"
  shows "valid_json (config_json cfg is)"
proof -
  have ascii: "valid_text s" if "list_all (in_bytes 0 0x7F) s" for s
    using that by (induction s) (simp_all add: valid_text_ascii)
  have keys: "list_all (\<lambda>s. valid_text s)
      [''allowed_ips'', ''persistent_keepalive_interval'', ''pre_shared_key'', ''public_key'', ''address'',
       ''listen_port'', ''mtu'', ''name'', ''peers'', ''private_key'', ''system'', ''tag'', ''type'', ''wireguard'',
       ''log'', ''level'', ''endpoints'', ''outbounds'', ''direct'', ''route'', ''final'']"
    by code_simp
  have peer: "valid_json (peer_json p)" if "valid_peer p" for p
    using that keys by (auto simp: peer_json_sorted valid_peer_def)
  have tag: "valid_text (''ep-'' @ s) = valid_text s" for s
    by (simp add: valid_text_ascii in_bytes_def)
  have "valid_json (endpoint_json b i)" if "valid_interface i" for b i
    using that keys peer tag by (auto simp: endpoint_json_sorted valid_interface_def)
  then show ?thesis
    using assms keys by (auto simp: config_json_def json_map_def list_all_iff)
qed

section \<open>When the engine acts\<close>

lemma calm_longer: "calm S (\<lambda>w t. n < length t)"
  by (simp add: calm_def)

lemma write_calls: "length (trace h) < length (trace (after (writeFileAtomic S path data) h))"
  by (simp add: writeFileAtomic_def run_do_call split: option.splits)

lemma longer_restart: "keeps (\<lambda>h. n < length (trace h)) (restartLocked A S goos goarch e)"
proof -
  note calm = calm_longer[of S n]
  have "keeps (\<lambda>h. n < length (trace h)) (do_call S c)" for c
    by (rule keeps_do_call) simp
  then show ?thesis
    unfolding restartLocked_def stopLocked_def
    by (intro keeps_intros calm_resolve[OF calm])
qed

lemma changed_calls:
  assumes "render e ifaces = Inr r" "r \<noteq> se_lastConfig e \<or> \<not> se_running e"
  shows "calls (singbox_Apply A S goos goarch word mord ifaces e) h \<noteq> []"
proof -
  let ?rest = "\<lambda>w. case w of
      Some err \<Rightarrow> State_Monad.return (Some (WriteConfig err), e)
    | None \<Rightarrow> do {
        (r', e) \<leftarrow> restartLocked A S goos goarch e;
        (case r' of
           Some err \<Rightarrow> State_Monad.return (Some err, e)
         | None \<Rightarrow> do {
             (if sc_System (se_cfg e)
              then applyNATLocked S word mord (se_managed e) (wanted_map ifaces)
              else State_Monad.return ());
             State_Monad.return (None, e\<lparr>se_lastConfig := r, se_managed := wanted_map ifaces\<rparr>) }) }"
  have body: "singbox_Apply A S goos goarch word mord ifaces e
      = State_Monad.bind (writeFileAtomic S (sc_ConfigPath (se_cfg e)) r) ?rest"
    using assms by (auto simp: singbox_Apply_def)
  have "keeps (\<lambda>k. length (trace h) < length (trace k)) (?rest w)" for w
    by (intro keeps_intros longer_restart calm_applyNAT[OF calm_longer])
  from keepsD[OF this write_calls]
  have "length (trace h) < length (trace (after (singbox_Apply A S goos goarch word mord ifaces e) h))"
    unfolding body by (simp add: after_bind del: run_state_bind)
  then show ?thesis by (simp add: calls_def)
qed

text \<open>
  C16. On a running engine that has applied one set of interfaces, applying another does something
  exactly when the sets differ in a name, a private key, a port, an MTU, the entries of an address list
  or a peer. Otherwise nothing is called and the engine is as it was: a change of the masquerading, the
  egress, the NAT subnets or the policy routes alone is not acted upon.
\<close>
theorem singbox_acts_iff_rendering_changed:
  assumes "render e old = Inr (se_lastConfig e)" and "se_running e"
    and "valid_text (sc_LogLevel (se_cfg e))" and "list_all valid_interface (old @ new)"
  shows "(calls (singbox_Apply A S goos goarch word mord new e) h = []
       \<longleftrightarrow> map interface_view new = map interface_view old)
    \<and> (map interface_view new = map interface_view old
       \<longrightarrow> run_state (singbox_Apply A S goos goarch word mord new e) h = ((None, e), h))"
proof -
  have "valid_json (config_json (se_cfg e) old)" "valid_json (config_json (se_cfg e) new)"
    using config_json_valid[OF assms(3)] assms(4) by simp_all
  then have same: "render e new = Inr (se_lastConfig e) \<longleftrightarrow> map interface_view new = map interface_view old"
    using assms(1) config_json_inject[of "se_cfg e" new old]
      MarshalIndent_inject[of "config_json (se_cfg e) new" "config_json (se_cfg e) old"]
    by (simp add: render_def)
  obtain r where r: "render e new = Inr r" by (simp add: render_def)
  show ?thesis
  proof (cases "map interface_view new = map interface_view old")
    case True
    with same have "run_state (singbox_Apply A S goos goarch word mord new e) h = ((None, e), h)"
      using assms(2) by (simp add: singbox_Apply_def)
    with True show ?thesis by (simp add: calls_def)
  next
    case False
    with same r have "r \<noteq> se_lastConfig e" by simp
    with False changed_calls[OF r] show ?thesis by blast
  qed
qed

theorem singbox_acts_iff_rendering_changed_witness:
  "(let lib = \<lparr>arc_open = (\<lambda>b. Inl ''EOF''), arc_tag = (\<lambda>b. Inl ''EOF'')\<rparr>;
        cfg = \<lparr>sc_BinPath = [], sc_ConfigPath = [], sc_System = True, sc_LogLevel = ''warn''\<rparr>;
        i = zero_interface\<lparr>if_Name := ''wg0'', if_Address := ''10.0.0.1/24''\<rparr>;
        e = (NewSingboxEngine cfg)\<lparr>se_running := True, se_lastConfig := MarshalIndent (config_json cfg [i])\<rparr>
    in calls (singbox_Apply lib proc_sys ''linux'' ''amd64'' rev rev [i\<lparr>if_Masquerade := True\<rparr>] e) (init_host []) = []
     \<and> calls (singbox_Apply lib proc_sys ''linux'' ''amd64'' rev rev [i\<lparr>if_ListenPort := 51820\<rparr>] e) (init_host []) \<noteq> [])"
proof -
  let ?cfg = "\<lparr>sc_BinPath = [], sc_ConfigPath = [], sc_System = True, sc_LogLevel = ''warn''\<rparr>"
  let ?i = "zero_interface\<lparr>if_Name := ''wg0'', if_Address := ''10.0.0.1/24''\<rparr>"
  let ?e = "(NewSingboxEngine ?cfg)\<lparr>se_running := True, se_lastConfig := MarshalIndent (config_json ?cfg [?i])\<rparr>"
  have "config_json (se_cfg ?e) [?i] = config_json ?cfg [?i]"
    by (simp add: config_json_def NewSingboxEngine_def)
  then have r: "render ?e [?i] = Inr (se_lastConfig ?e)" by (simp add: render_def)
  have log: "valid_text (sc_LogLevel (se_cfg ?e))" by code_simp
  have valid: "list_all valid_interface ([?i] @ [?i\<lparr>if_Masquerade := True\<rparr>])"
      "list_all valid_interface ([?i] @ [?i\<lparr>if_ListenPort := 51820\<rparr>])" by code_simp+
  have views: "map interface_view [?i\<lparr>if_Masquerade := True\<rparr>] = map interface_view [?i]"
      "map interface_view [?i\<lparr>if_ListenPort := 51820\<rparr>] \<noteq> map interface_view [?i]"
    by (simp_all add: interface_view_def zero_interface_def)
  note acts = singbox_acts_iff_rendering_changed[OF r _ log]
  have running: "se_running ?e" by simp
  show ?thesis
    unfolding Let_def using acts[OF running valid(1)] acts[OF running valid(2)] views by blast
qed

end
