(* ===== verification/Base64.thy ===== *)
theory Base64
  imports GoStrings
begin

text \<open>
  Go's \<open>base64.StdEncoding\<close>, as the configuration file uses it: the encoding with padding, and the
  decoding, which skips line breaks, asks for the padding and ignores spare bits. An error of the
  decoding is \<open>None\<close>: its message, the offset of the first bad byte, is left out.
\<close>

definition sextet_char :: "nat \<Rightarrow> char" where
  "sextet_char n =
     (if n < 26 then char_of (65 + n) else if n < 52 then char_of (71 + n)
      else if n < 62 then char_of (n - 4) else if n = 62 then CHR ''+'' else CHR ''/'')"

definition sextet_val :: "char \<Rightarrow> nat option" where
  "sextet_val c =
     (let n = of_char c
      in if 65 \<le> n \<and> n \<le> 90 then Some (n - 65) else if 97 \<le> n \<and> n \<le> 122 then Some (n - 71)
         else if 48 \<le> n \<and> n \<le> 57 then Some (n + 4)
         else if c = CHR ''+'' then Some 62 else if c = CHR ''/'' then Some 63 else None)"

abbreviation byte :: "char \<Rightarrow> nat" where "byte c \<equiv> of_char c"

fun EncodeToString :: "string \<Rightarrow> string" where
  "EncodeToString [] = []"
| "EncodeToString [a] =
     [sextet_char (byte a div 4), sextet_char (byte a mod 4 * 16), CHR ''='', CHR ''='']"
| "EncodeToString [a, b] =
     [sextet_char (byte a div 4), sextet_char (byte a mod 4 * 16 + byte b div 16), sextet_char (byte b mod 16 * 4), CHR ''='']"
| "EncodeToString (a # b # c # s) =
     sextet_char (byte a div 4) # sextet_char (byte a mod 4 * 16 + byte b div 16)
     # sextet_char (byte b mod 16 * 4 + byte c div 64) # sextet_char (byte c mod 64) # EncodeToString s"

text \<open>The quantums of a text without line breaks.\<close>

fun decode_quantums :: "string \<Rightarrow> string option" where
  "decode_quantums [] = Some []"
| "decode_quantums (a # b # c # d # s) =
     (if d = CHR ''='' \<and> s = [] then
        (if c = CHR ''='' then
           (case (sextet_val a, sextet_val b) of
              (Some x, Some y) \<Rightarrow> Some [char_of (x * 4 + y div 16)] | _ \<Rightarrow> None)
         else
           (case (sextet_val a, sextet_val b, sextet_val c) of
              (Some x, Some y, Some z) \<Rightarrow> Some [char_of (x * 4 + y div 16), char_of (y mod 16 * 16 + z div 4)]
            | _ \<Rightarrow> None))
      else
        (case (sextet_val a, sextet_val b, sextet_val c, sextet_val d, decode_quantums s) of
           (Some x, Some y, Some z, Some w, Some t) \<Rightarrow>
             Some (char_of (x * 4 + y div 16) # char_of (y mod 16 * 16 + z div 4) # char_of (z mod 4 * 64 + w) # t)
         | _ \<Rightarrow> None))"
| "decode_quantums _ = None"

definition DecodeString :: "string \<Rightarrow> string option" where
  "DecodeString s = decode_quantums (filter (\<lambda>c. c \<noteq> CHR 0x0A \<and> c \<noteq> CHR 0x0D) s)"

lemma Base64_examples:
  "EncodeToString ''exnode'' = ''ZXhub2Rl''" "EncodeToString ''M'' = ''TQ==''" "EncodeToString ''Ma'' = ''TWE=''"
  "DecodeString ''TQ=='' = Some ''M''" "DecodeString ''TWE'' = None"
  by code_simp+

section \<open>Round trip\<close>

lemma byte_lt: "byte c < 256"
  by simp

lemma plain_graph: "33 \<le> byte c \<Longrightarrow> byte c \<le> 126 \<Longrightarrow> plain c"
  by (auto simp: plain_def space_runes_def)

lemma sextet_byte:
  "n < 64 \<Longrightarrow> byte (sextet_char n) =
     (if n < 26 then 65 + n else if n < 52 then 71 + n else if n < 62 then n - 4 else if n = 62 then 43 else 47)"
  by (simp add: sextet_char_def)

lemma sextets:
  assumes "n < 64"
  shows "sextet_val (sextet_char n) = Some n" "sextet_char n \<noteq> CHR ''=''" "plain (sextet_char n)"
    "sextet_char n \<noteq> CHR 0x0A" "sextet_char n \<noteq> CHR 0x0D"
proof -
  note b = sextet_byte[OF assms]
  have not: "sextet_char n \<noteq> c" if "byte (sextet_char n) \<noteq> byte c" for c using that by auto
  show "sextet_val (sextet_char n) = Some n"
  proof (cases "n < 62")
    case True
    then show ?thesis unfolding sextet_val_def Let_def b by auto
  next
    case False
    with assms have "n = 62 \<or> n = 63" by auto
    then show ?thesis by (auto simp: sextet_char_def sextet_val_def)
  qed
  show "sextet_char n \<noteq> CHR ''=''" "sextet_char n \<noteq> CHR 0x0A" "sextet_char n \<noteq> CHR 0x0D"
    by (rule not; unfold b; use assms in auto)+
  show "plain (sextet_char n)"
    by (rule plain_graph; unfold b; use assms in auto)
qed

lemma digits:
  fixes q r b :: nat
  assumes "r < b"
  shows "(q * b + r) div b = q" "(q * b + r) mod b = r"
  using assms by simp_all

lemma byte_parts:
  fixes x y z :: nat
  assumes "x < 256" "y < 256" "z < 256"
  shows "x div 4 < 64" "x mod 4 * 16 < 64" "x mod 4 * 16 + y div 16 < 64" "y mod 16 * 4 < 64"
    "y mod 16 * 4 + z div 64 < 64" "z mod 64 < 64"
    "x div 4 * 4 + (x mod 4 * 16) div 16 = x"
    "x div 4 * 4 + (x mod 4 * 16 + y div 16) div 16 = x"
    "(x mod 4 * 16 + y div 16) mod 16 * 16 + (y mod 16 * 4) div 4 = y"
    "(x mod 4 * 16 + y div 16) mod 16 * 16 + (y mod 16 * 4 + z div 64) div 4 = y"
    "(y mod 16 * 4 + z div 64) mod 4 * 64 + z mod 64 = z"
    "y div 16 mod 16 * 16 + y mod 16 = y"
proof -
  have d: "x div 4 < 64" "y div 16 < 16" "z div 64 < 4" "x mod 4 < 4" "y mod 16 < 16" "z mod 64 < 64"
    using assms by (simp_all add: less_mult_imp_div_less)
  show "x div 4 < 64" "x mod 4 * 16 < 64" "x mod 4 * 16 + y div 16 < 64" "y mod 16 * 4 < 64"
    "y mod 16 * 4 + z div 64 < 64" "z mod 64 < 64"
    using d by linarith+
  show "x div 4 * 4 + (x mod 4 * 16) div 16 = x"
    "x div 4 * 4 + (x mod 4 * 16 + y div 16) div 16 = x"
    "(x mod 4 * 16 + y div 16) mod 16 * 16 + (y mod 16 * 4) div 4 = y"
    "(x mod 4 * 16 + y div 16) mod 16 * 16 + (y mod 16 * 4 + z div 64) div 4 = y"
    "(y mod 16 * 4 + z div 64) mod 4 * 64 + z mod 64 = z"
    using digits[OF d(2), of "x mod 4"] digits[OF d(3), of "y mod 16"] by simp_all
  show "y div 16 mod 16 * 16 + y mod 16 = y" using d(2) by simp
qed

lemma decode_encode: "decode_quantums (EncodeToString s) = Some s"
proof (induction s rule: EncodeToString.induct)
  case (2 a)
  then show ?case using byte_parts[of "byte a" 0 0] by (simp add: sextets)
next
  case (3 a b)
  then show ?case using byte_parts[of "byte a" "byte b" 0] by (simp add: sextets)
next
  case (4 a b c s)
  then show ?case using byte_parts[of "byte a" "byte b" "byte c"] by (simp add: sextets)
qed simp

lemma encode_plain: "list_all (\<lambda>c. plain c \<and> c \<noteq> CHR 0x0A \<and> c \<noteq> CHR 0x0D) (EncodeToString s)"
proof (induction s rule: EncodeToString.induct)
  case (2 a)
  then show ?case using byte_parts[of "byte a" 0 0] plain_graph[of "CHR ''=''"] by (simp add: sextets)
next
  case (3 a b)
  then show ?case using byte_parts[of "byte a" "byte b" 0] plain_graph[of "CHR ''=''"] by (simp add: sextets)
next
  case (4 a b c s)
  then show ?case using byte_parts[of "byte a" "byte b" "byte c"] by (simp add: sextets)
qed simp

theorem base64_roundtrip: "DecodeString (EncodeToString s) = Some s"
proof -
  have "filter (\<lambda>c. c \<noteq> CHR 0x0A \<and> c \<noteq> CHR 0x0D) (EncodeToString s) = EncodeToString s"
    using encode_plain[of s] by (simp add: filter_id_conv list_all_iff)
  then show ?thesis by (simp add: DecodeString_def decode_encode)
qed

end
