(* ===== verification/Conf.thy ===== *)
theory Conf
  imports Base64 Host
begin

text \<open>
  \<open>src/conf/conf.go\<close> and \<open>src/conf/crypto.go\<close>: the configuration file and its encryption. This theory
  holds the definitions, one per Go type and function.

  The cryptographic primitives (\<open>scrypt\<close>, AES, GCM) are the parameter \<open>C\<close>, the YAML decoder is the
  parameter \<open>Y\<close>; random bytes, files and the environment are calls of the host. An error is a
  constructor per \<open>fmt.Errorf\<close> or \<open>errors.New\<close>. A \<open>uint\<close> is a 64-bit word.
\<close>

type_synonym uint = "64 word"

definition uint_str :: "uint \<Rightarrow> string" where
  "uint_str n = nat_str (unat n)"

section \<open>Encryption\<close>

record crypto_lib =
  cl_scrypt :: "string \<Rightarrow> string \<Rightarrow> int \<Rightarrow> int \<Rightarrow> int \<Rightarrow> int \<Rightarrow> string go_result"
  cl_NewCipher :: "string \<Rightarrow> go_error"
  cl_NewGCM :: "string \<Rightarrow> go_error"
  cl_NonceSize :: nat
  cl_Seal :: "string \<Rightarrow> string \<Rightarrow> string \<Rightarrow> string"
  cl_Open :: "string \<Rightarrow> string \<Rightarrow> string \<Rightarrow> string go_result"

datatype crypt_error =
    EmptyPassphrase
  | ReadSalt string
  | DeriveKey string
  | NewCipherFailed string
  | NewGCMFailed string
  | ReadNonce string
  | NoPassphrase
  | DecodeFailed
  | TooShort
  | DecryptFailed

definition encMagic :: string where "encMagic = ''EXNODE-ENC1:''"

definition scryptN :: int where "scryptN = 32768"
definition scryptR :: int where "scryptR = 8"
definition scryptP :: int where "scryptP = 1"
definition scryptKeyLen :: int where "scryptKeyLen = 32"
definition saltLen :: nat where "saltLen = 16"

definition IsEncrypted :: "string \<Rightarrow> bool" where
  "IsEncrypted data = HasPrefix (TrimSpace data) encMagic"

text \<open>The AEAD of a key is known by the key.\<close>

definition newGCM :: "crypto_lib \<Rightarrow> string \<Rightarrow> crypt_error + string" where
  "newGCM C key =
     (case cl_NewCipher C key of
        Some e \<Rightarrow> Inl (NewCipherFailed e)
      | None \<Rightarrow> (case cl_NewGCM C key of Some e \<Rightarrow> Inl (NewGCMFailed e) | None \<Rightarrow> Inr key))"

text \<open>The key of a passphrase and a salt, and its AEAD.\<close>

definition derive :: "crypto_lib \<Rightarrow> string \<Rightarrow> string \<Rightarrow> crypt_error + string" where
  "derive C passphrase salt =
     (case cl_scrypt C passphrase salt scryptN scryptR scryptP scryptKeyLen of
        Inl e \<Rightarrow> Inl (DeriveKey e)
      | Inr key \<Rightarrow> newGCM C key)"

definition Encrypt ::
  "crypto_lib \<Rightarrow> 'w sys \<Rightarrow> string \<Rightarrow> string \<Rightarrow> ('w, 'm, crypt_error + string) prog" where
  "Encrypt C S plaintext passphrase =
     (if passphrase = [] then State_Monad.return (Inl EmptyPassphrase)
      else do {
        s \<leftarrow> do_call S (RandRead saltLen);
        (case rerr s of
           Some e \<Rightarrow> State_Monad.return (Inl (ReadSalt e))
         | None \<Rightarrow>
             (case derive C passphrase (rout s) of
                Inl e \<Rightarrow> State_Monad.return (Inl e)
              | Inr gcm \<Rightarrow> do {
                  n \<leftarrow> do_call S (RandRead (cl_NonceSize C));
                  State_Monad.return (case rerr n of
                    Some e \<Rightarrow> Inl (ReadNonce e)
                  | None \<Rightarrow>
                      Inr (encMagic @ EncodeToString (rout s @ rout n @ cl_Seal C gcm (rout n) plaintext))) })) })"

definition Decrypt :: "crypto_lib \<Rightarrow> string \<Rightarrow> string \<Rightarrow> crypt_error + string" where
  "Decrypt C data passphrase =
     (if passphrase = [] then Inl NoPassphrase
      else
        (case DecodeString (TrimPrefix (TrimSpace data) encMagic) of
           None \<Rightarrow> Inl DecodeFailed
         | Some blob \<Rightarrow>
             if length blob < saltLen + 12 then Inl TooShort
             else
               (let salt = take saltLen blob; rest = drop saltLen blob
                in case derive C passphrase salt of
                     Inl e \<Rightarrow> Inl e
                   | Inr g \<Rightarrow>
                       (let ns = cl_NonceSize C
                        in if length rest < ns then Inl TooShort
                           else (case cl_Open C g (take ns rest) (drop ns rest) of
                                   Inl e \<Rightarrow> Inl DecryptFailed
                                 | Inr plaintext \<Rightarrow> Inr plaintext)))))"

section \<open>The configuration\<close>

record log_config =
  lc_Level :: string

record singbox_options =
  so_BinPath :: string
  so_ConfigPath :: string
  so_System :: bool
  so_LogLevel :: string

record engine_config =
  ec_Type :: string
  ec_Singbox :: singbox_options

record panel_config =
  pn_ApiHost :: string
  pn_NodeID :: uint
  pn_SecretKey :: string
  pn_Timeout :: int
  pn_HeartbeatSeconds :: int
  pn_StatusSeconds :: int

record config =
  cf_Log :: log_config
  cf_Engine :: engine_config
  cf_Nodes :: "panel_config list"

definition EngineType :: "config \<Rightarrow> string" where
  "EngineType c = (if ec_Type (cf_Engine c) = [] then ''kernel'' else ec_Type (cf_Engine c))"

text \<open>\<open>time.Duration(n) * time.Second\<close>, a product of 64-bit integers.\<close>

definition of_seconds :: "int \<Rightarrow> int" where
  "of_seconds n = sint (word_of_int n * word_of_int 1000000000 :: 64 word)"

definition HeartbeatInterval :: "panel_config \<Rightarrow> int" where
  "HeartbeatInterval p = (if pn_HeartbeatSeconds p \<le> 0 then of_seconds 15 else of_seconds (pn_HeartbeatSeconds p))"

definition StatusInterval :: "panel_config \<Rightarrow> int" where
  "StatusInterval p = (if pn_StatusSeconds p \<le> 0 then of_seconds 20 else of_seconds (pn_StatusSeconds p))"

definition HTTPTimeout :: "panel_config \<Rightarrow> int" where
  "HTTPTimeout p = (if pn_Timeout p \<le> 0 then of_seconds 30 else of_seconds (pn_Timeout p))"

section \<open>Loading\<close>

datatype conf_error =
    ReadConfig string string
  | CryptError crypt_error
  | ParseConfig string
  | NoPanels
  | MissingField nat

definition complete :: "panel_config \<Rightarrow> bool" where
  "complete n \<longleftrightarrow> pn_ApiHost n \<noteq> [] \<and> pn_NodeID n \<noteq> 0 \<and> pn_SecretKey n \<noteq> []"

text \<open>The validation of the decoded panels: the index of the first that misses a field.\<close>

fun first_incomplete :: "nat \<Rightarrow> panel_config list \<Rightarrow> nat option" where
  "first_incomplete i [] = None"
| "first_incomplete i (n # ns) = (if \<not> complete n then Some i else first_incomplete (Suc i) ns)"

definition parse_config :: "(string \<Rightarrow> config go_result) \<Rightarrow> string \<Rightarrow> conf_error + config" where
  "parse_config Y data =
     (case Y data of
        Inl e \<Rightarrow> Inl (ParseConfig e)
      | Inr c \<Rightarrow>
          if cf_Nodes c = [] then Inl NoPanels
          else (case first_incomplete 0 (cf_Nodes c) of Some i \<Rightarrow> Inl (MissingField i) | None \<Rightarrow> Inr c))"

text \<open>\<open>LoadWithKey\<close>, once the bytes are read.\<close>

definition config_of ::
  "crypto_lib \<Rightarrow> (string \<Rightarrow> config go_result) \<Rightarrow> string \<Rightarrow> string \<Rightarrow> conf_error + config" where
  "config_of C Y passphrase data =
     (if IsEncrypted data then
        (case Decrypt C data passphrase of
           Inl e \<Rightarrow> Inl (CryptError e)
         | Inr yaml \<Rightarrow> parse_config Y yaml)
      else parse_config Y data)"

definition LoadWithKey ::
  "crypto_lib \<Rightarrow> (string \<Rightarrow> config go_result) \<Rightarrow> 'w sys \<Rightarrow> string \<Rightarrow> string
   \<Rightarrow> ('w, 'm, conf_error + config) prog" where
  "LoadWithKey C Y S path passphrase = do {
     env \<leftarrow> do_call S (Getenv ''EXNODE_CONFIG'');
     if rout env \<noteq> [] then State_Monad.return (config_of C Y passphrase (rout env))
     else do {
       r \<leftarrow> do_call S (ReadFile path);
       State_Monad.return (case rerr r of
         Some e \<Rightarrow> Inl (ReadConfig path e)
       | None \<Rightarrow> config_of C Y passphrase (rout r)) } }"

definition Load ::
  "crypto_lib \<Rightarrow> (string \<Rightarrow> config go_result) \<Rightarrow> 'w sys \<Rightarrow> string \<Rightarrow> ('w, 'm, conf_error + config) prog" where
  "Load C Y S path = do {
     k \<leftarrow> do_call S (Getenv ''EXNODE_KEY'');
     LoadWithKey C Y S path (rout k) }"

end
