(* ===== verification/Commands.thy ===== *)
theory Commands
  imports Conf
begin

text \<open>
  The commands of \<open>src/main.go\<close> that rewrite or print the configuration file. The permission bits of a
  file are the number in the reply to \<open>os.Stat\<close>.
\<close>

datatype command_error =
    NoPassphraseGiven
  | FileError string
  | AlreadyEncrypted string
  | InvalidConfig conf_error
  | EncryptionFailed crypt_error

definition decryptConfigFile ::
  "crypto_lib \<Rightarrow> 'w sys \<Rightarrow> string \<Rightarrow> string \<Rightarrow> ('w, 'm, command_error + string) prog" where
  "decryptConfigFile C S path passphrase = do {
     r \<leftarrow> do_call S (ReadFile path);
     State_Monad.return (case rerr r of
       Some e \<Rightarrow> Inl (FileError e)
     | None \<Rightarrow>
         if \<not> IsEncrypted (rout r) then Inr (rout r)
         else (case Decrypt C (rout r) passphrase of Inl e \<Rightarrow> Inl (EncryptionFailed e) | Inr yaml \<Rightarrow> Inr yaml)) }"

definition encryptConfigFile ::
  "crypto_lib \<Rightarrow> (string \<Rightarrow> config go_result) \<Rightarrow> 'w sys \<Rightarrow> string \<Rightarrow> string
   \<Rightarrow> ('w, 'm, command_error option) prog" where
  "encryptConfigFile C Y S path passphrase =
     (if passphrase = [] then State_Monad.return (Some NoPassphraseGiven)
      else do {
        r \<leftarrow> do_call S (ReadFile path);
        (case rerr r of
           Some e \<Rightarrow> State_Monad.return (Some (FileError e))
         | None \<Rightarrow>
             if IsEncrypted (rout r) then State_Monad.return (Some (AlreadyEncrypted path))
             else do {
               l \<leftarrow> LoadWithKey C Y S path [];
               (case l of
                  Inl e \<Rightarrow> State_Monad.return (Some (InvalidConfig e))
                | Inr c \<Rightarrow> do {
                    b \<leftarrow> Encrypt C S (rout r) passphrase;
                    (case b of
                       Inl e \<Rightarrow> State_Monad.return (Some (EncryptionFailed e))
                     | Inr blob \<Rightarrow> do {
                         info \<leftarrow> do_call S (Stat path);
                         w \<leftarrow> do_call S (WriteFile path blob (if rerr info = nil then nat (rnum info) else 384));
                         State_Monad.return (map_option FileError (rerr w)) }) }) }) })"

end
