(* ===== verification/ConfFacts.thy ===== *)
theory ConfFacts
  imports Commands
begin

text \<open>
  What the encryption of the configuration promises: a file that was encrypted loads as before under
  its passphrase, and the command that encrypts it in place writes nothing else.

  \<open>aead_ok C\<close> is what the documentation of \<open>cipher.AEAD\<close> and \<open>cipher.NewGCM\<close> promises, \<open>random_ok S\<close>
  what \<open>io.ReadFull\<close> does.
\<close>

definition aead_ok :: "crypto_lib \<Rightarrow> bool" where
  "aead_ok C \<longleftrightarrow> cl_NonceSize C = 12
     \<and> (\<forall>key nonce plaintext. length nonce = 12 \<longrightarrow> cl_Open C key nonce (cl_Seal C key nonce plaintext) = Inr plaintext)"

definition random_ok :: "'w sys \<Rightarrow> bool" where
  "random_ok S \<longleftrightarrow> (\<forall>w n. rerr (fst (S (RandRead n) w)) = None \<longrightarrow> length (rout (fst (S (RandRead n) w))) = n)"

section \<open>Blobs\<close>

lemma encMagic_plain: "list_all plain encMagic"
  unfolding encMagic_def by (simp add: plain_graph)

lemma blob_trimmed: "TrimSpace (encMagic @ EncodeToString s) = encMagic @ EncodeToString s"
  by (rule TrimSpace_plain) (use encMagic_plain encode_plain[of s] in \<open>auto simp: list_all_iff\<close>)

lemma blob_body: "TrimPrefix (TrimSpace (encMagic @ EncodeToString s)) encMagic = EncodeToString s"
  by (simp add: blob_trimmed TrimPrefix_def)

lemma blob_encrypted: "IsEncrypted (encMagic @ EncodeToString s)"
  by (simp add: IsEncrypted_def blob_trimmed HasPrefix_def)

lemma Encrypt_Inr:
  assumes "result (Encrypt C S yaml key) h = Inr blob" "random_ok S" "aead_ok C"
  shows "key \<noteq> [] \<and> (\<exists>salt nonce gcm. length salt = saltLen \<and> length nonce = 12 \<and> derive C key salt = Inr gcm
     \<and> blob = encMagic @ EncodeToString (salt @ nonce @ cl_Seal C gcm nonce yaml))"
proof -
  have key: "key \<noteq> []" using assms(1) by (auto simp: Encrypt_def)
  let ?s = "fst (S (RandRead saltLen) (world h))" and ?w = "snd (S (RandRead saltLen) (world h))"
  let ?n = "fst (S (RandRead (cl_NonceSize C)) ?w)"
  from assms(1) key obtain gcm where ok: "rerr ?s = None" "derive C key (rout ?s) = Inr gcm" "rerr ?n = None"
    and blob: "blob = encMagic @ EncodeToString (rout ?s @ rout ?n @ cl_Seal C gcm (rout ?n) yaml)"
    by (auto simp: Encrypt_def run_do_call split: option.splits sum.splits)
  moreover have "length (rout ?s) = saltLen" "length (rout ?n) = 12"
    using assms(2,3) ok by (simp_all add: random_ok_def aead_ok_def)
  ultimately show ?thesis using key by blast
qed

lemma Decrypt_blob:
  assumes "aead_ok C" "key \<noteq> []" "length salt = saltLen" "length nonce = 12" "derive C key salt = Inr gcm"
  shows "Decrypt C (encMagic @ EncodeToString (salt @ nonce @ cl_Seal C gcm nonce yaml)) key = Inr yaml"
proof -
  let ?blob = "salt @ nonce @ cl_Seal C gcm nonce yaml"
  have "take saltLen ?blob = salt" "drop saltLen ?blob = nonce @ cl_Seal C gcm nonce yaml"
    "\<not> length ?blob < saltLen + 12"
    using assms(3,4) by simp_all
  then show ?thesis
    using assms by (simp add: Decrypt_def blob_body base64_roundtrip aead_ok_def Let_def)
qed

lemma encrypted_blob:
  assumes "aead_ok C" "random_ok S" "result (Encrypt C S yaml key) h = Inr blob"
  shows "IsEncrypted blob \<and> Decrypt C blob key = Inr yaml"
proof -
  from Encrypt_Inr[OF assms(3,2,1)] obtain salt nonce gcm where "key \<noteq> []" "length salt = saltLen"
      "length nonce = 12" "derive C key salt = Inr gcm"
    and blob: "blob = encMagic @ EncodeToString (salt @ nonce @ cl_Seal C gcm nonce yaml)" by blast
  then show ?thesis using Decrypt_blob[OF assms(1)] blob_encrypted by simp
qed

section \<open>Encryption in place\<close>

text \<open>
  \<open>files_ok S F\<close>: the documented effect of the calls on the files, \<open>F w\<close> being their contents by
  path, as far as the configuration is concerned. The environment does not hold a configuration.
\<close>

definition files_ok :: "'w sys \<Rightarrow> ('w \<Rightarrow> string \<Rightarrow> string option) \<Rightarrow> bool" where
  "files_ok S F \<longleftrightarrow>
     (\<forall>w p. case F w p of None \<Rightarrow> rerr (fst (S (ReadFile p) w)) \<noteq> None
        | Some d \<Rightarrow> rerr (fst (S (ReadFile p) w)) = None \<and> rout (fst (S (ReadFile p) w)) = d)
   \<and> (\<forall>w p d m. rerr (fst (S (WriteFile p d m) w)) = None \<longrightarrow> F (snd (S (WriteFile p d m) w)) = (F w)(p \<mapsto> d))
   \<and> (\<forall>w p n v. F (snd (S (ReadFile p) w)) = F w \<and> F (snd (S (RandRead n) w)) = F w
        \<and> F (snd (S (Stat p) w)) = F w \<and> F (snd (S (Getenv v) w)) = F w)"

definition no_config_in_env :: "'w sys \<Rightarrow> bool" where
  "no_config_in_env S \<longleftrightarrow> (\<forall>w. rout (fst (S (Getenv ''EXNODE_CONFIG'') w)) = [])"

lemma files_still:
  assumes "files_ok S F"
  shows "leaves F (do_call S (ReadFile p))" "leaves F (do_call S (RandRead n))" "leaves F (do_call S (Stat p))"
    "leaves F (do_call S (Getenv v))"
  using assms by (auto intro!: leaves_do_call simp: files_ok_def)

lemma Encrypt_still: "files_ok S F \<Longrightarrow> leaves F (Encrypt C S yaml key)"
  unfolding Encrypt_def by (intro leaves_intros files_still)

lemma LoadWithKey_still: "files_ok S F \<Longrightarrow> leaves F (LoadWithKey C Y S path key)"
  unfolding LoadWithKey_def by (intro leaves_intros files_still)

lemma read_Some:
  assumes "files_ok S F"
  shows "rerr (fst (S (ReadFile p) w)) = None \<longleftrightarrow> F w p \<noteq> None"
    "F w p = Some d \<Longrightarrow> rout (fst (S (ReadFile p) w)) = d"
proof -
  have *: "case F w p of None \<Rightarrow> rerr (fst (S (ReadFile p) w)) \<noteq> None
      | Some d \<Rightarrow> rerr (fst (S (ReadFile p) w)) = None \<and> rout (fst (S (ReadFile p) w)) = d"
    using assms by (simp add: files_ok_def)
  then show "rerr (fst (S (ReadFile p) w)) = None \<longleftrightarrow> F w p \<noteq> None" by (cases "F w p") simp_all
  from * show "F w p = Some d \<Longrightarrow> rout (fst (S (ReadFile p) w)) = d" by simp
qed

lemma LoadWithKey_file:
  assumes "files_ok S F" "no_config_in_env S" "F (world h) path = Some d"
  shows "result (LoadWithKey C Y S path key) h = config_of C Y key d"
proof -
  let ?w = "snd (S (Getenv ''EXNODE_CONFIG'') (world h))"
  have "F ?w path = Some d" using assms(1,3) by (simp add: files_ok_def)
  then have "rerr (fst (S (ReadFile path) ?w)) = None" "rout (fst (S (ReadFile path) ?w)) = d"
    by (simp_all add: read_Some[OF assms(1)])
  moreover have "rout (fst (S (Getenv ''EXNODE_CONFIG'') (world h))) = []"
    using assms(2) by (simp add: no_config_in_env_def)
  ultimately show ?thesis by (simp add: LoadWithKey_def run_do_call)
qed

text \<open>What a successful run of the command did.\<close>

lemma encryptConfigFile_None:
  fixes h :: "('w, 'm) host_scheme"
  assumes "files_ok S F" "result (encryptConfigFile C Y S path key) h = None"
  obtains yaml c blob and g :: "('w, 'm) host_scheme" where "F (world h) path = Some yaml" "\<not> IsEncrypted yaml"
    "result (LoadWithKey C Y S path []) (after (do_call S (ReadFile path)) h) = Inr c"
    "result (Encrypt C S yaml key) g = Inr blob" "F (world (after (encryptConfigFile C Y S path key) h)) = (F (world h))(path \<mapsto> blob)"
proof -
  let ?h1 = "after (do_call S (ReadFile path)) h" and ?r = "result (do_call S (ReadFile path)) h"
  let ?h2 = "after (LoadWithKey C Y S path []) ?h1"
  have key: "key \<noteq> []" using assms(2) by (auto simp: encryptConfigFile_def)
  have read: "rerr ?r = None" "\<not> IsEncrypted (rout ?r)"
    using assms(2) key by (auto simp: encryptConfigFile_def run_do_call split: option.splits if_splits)
  obtain c where c: "result (LoadWithKey C Y S path []) ?h1 = Inr c"
    using assms(2) key read by (auto simp: encryptConfigFile_def result_bind simp del: run_state_bind split: sum.splits)
  obtain blob where b: "result (Encrypt C S (rout ?r) key) ?h2 = Inr blob"
    using assms(2) key read c by (auto simp: encryptConfigFile_def result_bind simp del: run_state_bind split: sum.splits)
  let ?h3 = "after (Encrypt C S (rout ?r) key) ?h2"
  let ?h4 = "after (do_call S (Stat path)) ?h3" and ?i = "result (do_call S (Stat path)) ?h3"
  let ?wr = "do_call S (WriteFile path blob (if rerr ?i = nil then nat (rnum ?i) else 384))"
  have w: "rerr (result ?wr ?h4) = None" "after (encryptConfigFile C Y S path key) h = after ?wr ?h4"
    using assms(2) key read c b
    by (simp_all add: encryptConfigFile_def result_bind after_bind del: run_state_bind)
  have still: "F (world ?h4) = F (world h)"
    by (simp only: leavesD[OF files_still(3)[OF assms(1)]] leavesD[OF Encrypt_still[OF assms(1)]]
        leavesD[OF LoadWithKey_still[OF assms(1)]] leavesD[OF files_still(1)[OF assms(1)]])
  have "F (world (after ?wr ?h4)) = (F (world ?h4))(path \<mapsto> blob)"
    using assms(1) w(1) unfolding files_ok_def by (simp add: run_do_call)
  with still w(2) have F: "F (world (after (encryptConfigFile C Y S path key) h)) = (F (world h))(path \<mapsto> blob)"
    by simp
  have "F (world h) path = Some (rout ?r)"
    using read(1) read_Some[OF assms(1), where p = path and w = "world h"] by (auto simp: run_do_call)
  from that[OF this read(2) c b F] show ?thesis .
qed

text \<open>
  C20. Encrypting the configuration in place keeps it, without \<open>EXNODE_CONFIG\<close> in the
  environment: when the command succeeds, the file is an encrypted blob, no other file has changed, the
  agent started on it with the passphrase loads exactly the configuration it loaded from the plain
  file, and decrypting it prints the plain file.
\<close>
theorem encrypt_in_place_keeps_config:
  fixes h :: "('w, 'm) host_scheme"
  assumes "aead_ok C" and "random_ok S" and "files_ok S F" and "no_config_in_env S"
    and "result (encryptConfigFile C Y S path key) h = None"
  shows "\<exists>yaml c blob. F (world h) path = Some yaml \<and> result (LoadWithKey C Y S path k) h = Inr c
    \<and> (let h' = after (encryptConfigFile C Y S path key) h
       in F (world h') = (F (world h))(path \<mapsto> blob) \<and> IsEncrypted blob
        \<and> result (LoadWithKey C Y S path key) h' = Inr c
        \<and> result (decryptConfigFile C S path key) h' = Inr yaml)"
proof -
  obtain yaml c blob and g :: "('w, 'm) host_scheme" where y: "F (world h) path = Some yaml" "\<not> IsEncrypted yaml"
    "result (LoadWithKey C Y S path []) (after (do_call S (ReadFile path)) h) = Inr c"
    "result (Encrypt C S yaml key) g = Inr blob"
    and F: "F (world (after (encryptConfigFile C Y S path key) h)) = (F (world h))(path \<mapsto> blob)"
    by (rule encryptConfigFile_None[OF assms(3,5)])
  have blob: "IsEncrypted blob" "Decrypt C blob key = Inr yaml"
    using encrypted_blob[OF assms(1,2) y(4)] by simp_all
  let ?h = "after (encryptConfigFile C Y S path key) h"
  have "F (world (after (do_call S (ReadFile path)) h)) path = Some yaml"
    by (simp only: leavesD[OF files_still(1)[OF assms(3)]] y(1))
  from LoadWithKey_file[OF assms(3,4) this] y(2,3) have c: "parse_config Y yaml = Inr c"
    by (simp add: config_of_def)
  have now: "F (world ?h) path = Some blob" using F by simp
  have "result (LoadWithKey C Y S path k) h = Inr c"
    using LoadWithKey_file[OF assms(3,4) y(1)] y(2) c by (simp add: config_of_def)
  moreover have "result (LoadWithKey C Y S path key) ?h = Inr c"
    using LoadWithKey_file[OF assms(3,4) now] blob c by (simp add: config_of_def)
  moreover have "result (decryptConfigFile C S path key) ?h = Inr yaml"
    using read_Some[OF assms(3), where p = path and w = "world ?h"] now blob
    by (simp add: decryptConfigFile_def run_do_call)
  ultimately show ?thesis using y(1) F blob(1) unfolding Let_def by blast
qed

text \<open>A host with files, where random bytes are all the same, and a cipher that hides nothing.\<close>

fun file_sys :: "(string \<Rightarrow> string option) sys" where
  "file_sys (ReadFile p) w =
     (case w p of None \<Rightarrow> err_reply ''no such file'' | Some d \<Rightarrow> ok_reply\<lparr>rout := d\<rparr>, w)"
| "file_sys (WriteFile p d m) w = (ok_reply, w(p \<mapsto> d))"
| "file_sys (RandRead n) w = (ok_reply\<lparr>rout := replicate n (CHR ''r'')\<rparr>, w)"
| "file_sys c w = (ok_reply, w)"

definition clear_crypto :: crypto_lib where
  "clear_crypto = \<lparr>cl_scrypt = (\<lambda>pass salt n r p len. Inr pass), cl_NewCipher = (\<lambda>key. None),
     cl_NewGCM = (\<lambda>key. None), cl_NonceSize = 12, cl_Seal = (\<lambda>key nonce m. m @ key),
     cl_Open = (\<lambda>key nonce m. Inr (take (length m - length key) m))\<rparr>"

definition one_panel :: config where
  "one_panel = \<lparr>cf_Log = \<lparr>lc_Level = []\<rparr>, cf_Engine = \<lparr>ec_Type = [], ec_Singbox =
       \<lparr>so_BinPath = [], so_ConfigPath = [], so_System = False, so_LogLevel = []\<rparr>\<rparr>,
     cf_Nodes = [\<lparr>pn_ApiHost = ''https://p'', pn_NodeID = 7, pn_SecretKey = ''s'', pn_Timeout = 0,
       pn_HeartbeatSeconds = 0, pn_StatusSeconds = 0\<rparr>]\<rparr>"

theorem encrypt_in_place_keeps_config_witness:
  "(let Y = (\<lambda>d. if d = ''Nodes'' then Inr one_panel else Inl ''bad yaml'');
        h = init_host [''c.yml'' \<mapsto> ''Nodes'']; m = encryptConfigFile clear_crypto Y file_sys ''c.yml'' ''key''
    in \<exists>c. result (LoadWithKey clear_crypto Y file_sys ''c.yml'' ''key'') (after m h) = Inr c)"
proof -
  let ?Y = "\<lambda>d. if d = ''Nodes'' then Inr one_panel else Inl ''bad yaml''"
  let ?h = "init_host [''c.yml'' \<mapsto> ''Nodes'']"
  have "aead_ok clear_crypto" "random_ok file_sys" "files_ok file_sys (\<lambda>w. w)" "no_config_in_env file_sys"
    by (auto simp: aead_ok_def random_ok_def files_ok_def no_config_in_env_def clear_crypto_def split: option.splits)
  moreover have "result (encryptConfigFile clear_crypto ?Y file_sys ''c.yml'' ''key'') ?h = None"
    by code_simp
  ultimately show ?thesis
    using encrypt_in_place_keeps_config[of clear_crypto file_sys "\<lambda>w. w" ?Y "''c.yml''" "''key''" ?h]
    unfolding Let_def by blast
qed

end
