(* ===== verification/Panel.thy ===== *)
theory Panel
  imports Conf GoJson WgEngine
begin

text \<open>
  \<open>src/panel/client.go\<close>: the client of the panel's API. This theory holds the definitions, one per Go
  type and function.

  Reading JSON and parsing a URL are the parameter \<open>J\<close>: \<open>jl_envelope\<close> gives the raw \<open>data\<close> of a
  response, the other decoders its value, \<open>jl_Hostname\<close> the host name of a URL that parses.
  \<open>jl_Time\<close> is the text of a time. The reply to a request has the error of the transport, the status
  and the body as far as it could be read (an error while reading is not looked at). A field that
  has \<open>omitempty\<close> is left out when it has the zero value.
\<close>

section \<open>The wire types\<close>

record heartbeat_request =
  hr_AgentVersion :: string
  hr_OS :: string
  hr_Arch :: string
  hr_UpgradeError :: string
  hr_PrimaryInterface :: string
  hr_BinaryPath :: string
  hr_PID :: int
  hr_StartedAt :: int

record upgrade_directive =
  ud_Version :: string
  ud_URL :: string

record heartbeat_response =
  hb_ConfigRevision :: uint
  hb_Upgrade :: "upgrade_directive option"
  hb_Restart :: bool
  hb_Warn :: string

record vxlan =
  vx_Kind :: string
  vx_Name :: string
  vx_VNI :: int
  vx_Port :: int
  vx_LocalIP :: string
  vx_Key :: int
  vx_MTU :: int
  vx_Dev :: string
  vx_Local :: string
  vx_Remote :: string
  vx_Routes :: "string list"

record panel_peer =
  pp_PublicKey :: string
  pp_PresharedKey :: string
  pp_AllowedIPs :: string
  pp_PersistentKeepalive :: int

record panel_interface =
  pi_Name :: string
  pi_PrivateKey :: string
  pi_ListenPort :: int
  pi_Address :: string
  pi_MTU :: int
  pi_Masquerade :: bool
  pi_EgressInterface :: string
  pi_NATSubnets :: string
  pi_PolicyRoutes :: string
  pi_ExtraRoutes :: "string list"
  pi_ExtraRules :: "string list"
  pi_ExtraNAT :: "string list"
  pi_Peers :: "panel_peer list"
  pi_Tunnels :: "vxlan list"
  pi_VXLAN :: "vxlan option"

record sync_response =
  sr_ConfigRevision :: uint
  sr_Engine :: string
  sr_Interfaces :: "panel_interface list"

record status_peer =
  sp_PublicKey :: string
  sp_LastHandshake :: "int option"
  sp_RxBytes :: int
  sp_TxBytes :: int
  sp_Endpoint :: string

record status_request =
  sq_Peers :: "status_peer list"

record json_lib =
  jl_Hostname :: "string \<Rightarrow> string option"
  jl_NewRequest :: "string \<Rightarrow> string \<Rightarrow> go_error"
  jl_Time :: "int \<Rightarrow> string go_result"
  jl_envelope :: "string \<Rightarrow> string go_result"
  jl_heartbeat :: "string \<Rightarrow> heartbeat_response go_result"
  jl_sync :: "string \<Rightarrow> sync_response go_result"

text \<open>The zero values, which a response without data leaves.\<close>

definition zero_heartbeat :: heartbeat_response where
  "zero_heartbeat = \<lparr>hb_ConfigRevision = 0, hb_Upgrade = None, hb_Restart = False, hb_Warn = []\<rparr>"

definition zero_sync :: sync_response where
  "zero_sync = \<lparr>sr_ConfigRevision = 0, sr_Engine = [], sr_Interfaces = []\<rparr>"

definition heartbeat_json :: "heartbeat_request \<Rightarrow> json" where
  "heartbeat_json r = JObj
     ([(''agent_version'', JStr (hr_AgentVersion r)), (''os'', JStr (hr_OS r)), (''arch'', JStr (hr_Arch r))]
      @ (if hr_UpgradeError r \<noteq> [] then [(''upgrade_error'', JStr (hr_UpgradeError r))] else [])
      @ (if hr_PrimaryInterface r \<noteq> [] then [(''primary_interface'', JStr (hr_PrimaryInterface r))] else [])
      @ (if hr_BinaryPath r \<noteq> [] then [(''binary_path'', JStr (hr_BinaryPath r))] else [])
      @ (if hr_PID r \<noteq> 0 then [(''pid'', JInt (hr_PID r))] else [])
      @ (if hr_StartedAt r \<noteq> 0 then [(''started_at'', JInt (hr_StartedAt r))] else []))"

text \<open>A peer whose handshake time cannot be written makes the whole request fail.\<close>

definition status_peer_json :: "json_lib \<Rightarrow> status_peer \<Rightarrow> json go_result" where
  "status_peer_json J p =
     (case (case sp_LastHandshake p of None \<Rightarrow> Inr JNull | Some t \<Rightarrow> map_sum id JStr (jl_Time J t)) of
        Inl e \<Rightarrow> Inl e
      | Inr hs \<Rightarrow> Inr (JObj
          [(''public_key'', JStr (sp_PublicKey p)), (''last_handshake'', hs), (''rx_bytes'', JInt (sp_RxBytes p)),
           (''tx_bytes'', JInt (sp_TxBytes p)), (''endpoint'', JStr (sp_Endpoint p))]))"

fun status_peers_json :: "json_lib \<Rightarrow> status_peer list \<Rightarrow> json list go_result" where
  "status_peers_json J [] = Inr []"
| "status_peers_json J (p # ps) =
     (case status_peer_json J p of
        Inl e \<Rightarrow> Inl e
      | Inr j \<Rightarrow> (case status_peers_json J ps of Inl e \<Rightarrow> Inl e | Inr js \<Rightarrow> Inr (j # js)))"

definition status_json :: "json_lib \<Rightarrow> status_request \<Rightarrow> json go_result" where
  "status_json J r =
     (case status_peers_json J (sq_Peers r) of Inl e \<Rightarrow> Inl e | Inr js \<Rightarrow> Inr (JObj [(''peers'', JArr js)]))"

section \<open>The client\<close>

record client =
  cli_apiHost :: string
  cli_nodeID :: uint
  cli_secret :: string
  cli_timeout :: int

definition New :: "string \<Rightarrow> uint \<Rightarrow> string \<Rightarrow> int \<Rightarrow> client" where
  "New apiHost nodeID secret timeout =
     \<lparr>cli_apiHost = TrimRight apiHost (CHR ''/''), cli_nodeID = nodeID, cli_secret = secret, cli_timeout = timeout\<rparr>"

definition ApiHost :: "client \<Rightarrow> string" where "ApiHost c = cli_apiHost c"

definition NodeID :: "client \<Rightarrow> uint" where "NodeID c = cli_nodeID c"

definition Label :: "client \<Rightarrow> string" where "Label c = ''node '' @ uint_str (cli_nodeID c)"

definition panelHost :: "json_lib \<Rightarrow> client \<Rightarrow> string" where
  "panelHost J c = (case jl_Hostname J (cli_apiHost c) of Some host \<Rightarrow> host | None \<Rightarrow> [])"

text \<open>\<open>strings.ReplaceAll\<close> for a nonempty \<open>old\<close>, from the left and without overlaps.\<close>

function ReplaceAll :: "string \<Rightarrow> string \<Rightarrow> string \<Rightarrow> string" where
  "ReplaceAll [] old new = []"
| "ReplaceAll (c # s) old new =
     (if old \<noteq> [] \<and> prefix old (c # s) then new @ ReplaceAll (drop (length old) (c # s)) old new
      else c # ReplaceAll s old new)"
  by pat_completeness auto
termination by (relation "measure (\<lambda>(s, old, new). length s)") auto

definition redacted :: string where "redacted = ''[panel]''"

definition sanitize :: "json_lib \<Rightarrow> client \<Rightarrow> string \<Rightarrow> string" where
  "sanitize J c s =
     (let s1 = (if cli_apiHost c \<noteq> [] then ReplaceAll s (cli_apiHost c) redacted else s);
          h = panelHost J c
      in if h \<noteq> [] then ReplaceAll s1 h redacted else s1)"

definition request_headers :: "client \<Rightarrow> bool \<Rightarrow> (string \<times> string) list" where
  "request_headers c body =
     [(''X-Node-ID'', uint_str (cli_nodeID c)), (''Authorization'', ''Bearer '' @ cli_secret c)]
     @ (if body then [(''Content-Type'', ''application/json'')] else [])"

text \<open>
  The body of \<open>do\<close> without the deferred redaction. \<open>body\<close> is the marshalled request, when there is
  one; \<open>out\<close> is the zero value and the decoder of the data, when the caller wants it.
\<close>

definition decode_reply :: "json_lib \<Rightarrow> ('a \<times> (string \<Rightarrow> 'a go_result)) option \<Rightarrow> string \<Rightarrow> 'a option go_result" where
  "decode_reply J out raw =
     (case out of
        None \<Rightarrow> Inr None
      | Some (zero, dec) \<Rightarrow>
          (case jl_envelope J raw of
             Inl e \<Rightarrow> Inl (''decode envelope: '' @ e)
           | Inr data \<Rightarrow>
               if data = [] \<or> data = ''null'' then Inr (Some zero)
               else (case dec data of Inl e \<Rightarrow> Inl (''decode data: '' @ e) | Inr x \<Rightarrow> Inr (Some x))))"

definition do_request ::
  "json_lib \<Rightarrow> 'w sys \<Rightarrow> client \<Rightarrow> string \<Rightarrow> string \<Rightarrow> json go_result option
   \<Rightarrow> ('a \<times> (string \<Rightarrow> 'a go_result)) option \<Rightarrow> ('w, 'm, 'a option go_result) prog" where
  "do_request J S c meth path body out =
     (case body of
        Some (Inl e) \<Rightarrow> State_Monad.return (Inl (''marshal request: '' @ e))
      | _ \<Rightarrow>
          (case jl_NewRequest J meth (cli_apiHost c @ path) of
             Some e \<Rightarrow> State_Monad.return (Inl (''build request: '' @ e))
           | None \<Rightarrow> do {
               r \<leftarrow> do_call S (HttpPanel meth (cli_apiHost c @ path) (request_headers c (body \<noteq> None))
                        (case body of Some (Inr j) \<Rightarrow> Some (Marshal j) | _ \<Rightarrow> None));
               State_Monad.return (case rerr r of
                 Some e \<Rightarrow> Inl (meth @ '' '' @ path @ '': '' @ e)
               | None \<Rightarrow>
                   if rnum r < 200 \<or> rnum r \<ge> 300
                   then Inl (meth @ '' '' @ path @ '': status '' @ Itoa (rnum r) @ '': '' @ TrimSpace (rout r))
                   else decode_reply J out (rout r)) }))"

definition client_do ::
  "json_lib \<Rightarrow> 'w sys \<Rightarrow> client \<Rightarrow> string \<Rightarrow> string \<Rightarrow> json go_result option
   \<Rightarrow> ('a \<times> (string \<Rightarrow> 'a go_result)) option \<Rightarrow> ('w, 'm, 'a option go_result) prog" where
  "client_do J S c meth path body out = do {
     r \<leftarrow> do_request J S c meth path body out;
     State_Monad.return (case r of Inl e \<Rightarrow> Inl (sanitize J c e) | Inr x \<Rightarrow> Inr x) }"

definition Heartbeat ::
  "json_lib \<Rightarrow> 'w sys \<Rightarrow> client \<Rightarrow> heartbeat_request \<Rightarrow> ('w, 'm, heartbeat_response go_result) prog" where
  "Heartbeat J S c req = do {
     r \<leftarrow> client_do J S c ''POST'' ''/api/v1/node/heartbeat'' (Some (Inr (heartbeat_json req)))
            (Some (zero_heartbeat, jl_heartbeat J));
     State_Monad.return (case r of
       Inl e \<Rightarrow> Inl e | Inr None \<Rightarrow> Inr zero_heartbeat | Inr (Some x) \<Rightarrow> Inr x) }"

definition Sync :: "json_lib \<Rightarrow> 'w sys \<Rightarrow> client \<Rightarrow> ('w, 'm, sync_response go_result) prog" where
  "Sync J S c = do {
     r \<leftarrow> client_do J S c ''GET'' ''/api/v1/node/sync'' None (Some (zero_sync, jl_sync J));
     State_Monad.return (case r of
       Inl e \<Rightarrow> Inl e | Inr None \<Rightarrow> Inr zero_sync | Inr (Some x) \<Rightarrow> Inr x) }"

definition ReportStatus ::
  "json_lib \<Rightarrow> 'w sys \<Rightarrow> client \<Rightarrow> status_request \<Rightarrow> ('w, 'm, go_error) prog" where
  "ReportStatus J S c req = do {
     r \<leftarrow> client_do J S c ''POST'' ''/api/v1/node/status'' (Some (status_json J req))
            (None :: (unit \<times> (string \<Rightarrow> unit go_result)) option);
     State_Monad.return (case r of Inl e \<Rightarrow> Some e | Inr _ \<Rightarrow> None) }"

end
