(* ===== verification/PanelFacts.thy ===== *)
theory PanelFacts
  imports Panel
begin

text \<open>
  What the errors of the client reveal: the host name of the panel is redacted from every error before
  a caller, and so the log, sees it.
\<close>

section \<open>Replacing\<close>

declare ReplaceAll.simps(2) [simp del]

text \<open>A text without brackets that the output begins with is one the input begins with.\<close>

lemma prefix_ReplaceAll:
  assumes "CHR ''['' \<notin> set p" "prefix p (ReplaceAll s old redacted)"
  shows "prefix p s"
  using assms
proof (induction s old "redacted" arbitrary: p rule: ReplaceAll.induct)
  case (2 c s old)
  show ?case
  proof (cases "old \<noteq> [] \<and> prefix old (c # s)")
    case True
    with "2.prems" show ?thesis
      by (cases p) (simp_all add: ReplaceAll.simps(2) redacted_def)
  next
    case False
    with "2.prems" "2.hyps"(2)[OF False] show ?thesis
      by (cases p) (auto simp: ReplaceAll.simps(2))
  qed
qed simp

lemma prefix_before:
  "c \<notin> set p \<Longrightarrow> prefix p (a @ c # r) \<Longrightarrow> prefix p a"
  by (induction a arbitrary: p) (auto simp: prefix_Cons)

text \<open>
  Once replaced, a text does not occur any more, unless it occurs in the replacement or could reach
  into it.
\<close>

lemma ReplaceAll_removes:
  assumes "old \<noteq> []" "CHR ''['' \<notin> set old" "CHR '']'' \<notin> set old" "\<not> Contains ''panel'' old"
  shows "\<not> Contains (ReplaceAll s old redacted) old"
  using assms
proof (induction s old "redacted" rule: ReplaceAll.induct)
  case (1 old)
  then show ?case by (cases old) (simp_all add: Contains_iff)
next
  case (2 c s old)
  show ?case
  proof (cases "old \<noteq> [] \<and> prefix old (c # s)")
    case True
    let ?r = "ReplaceAll (drop (length old) (c # s)) old redacted"
    have none: "\<not> Contains ?r old" using "2.hyps"(1)[OF True] "2.prems" by simp
    have tail: "\<not> prefix old (a @ CHR '']'' # ?r)" if suf: "suffix a ''panel''" for a
    proof
      assume "prefix old (a @ CHR '']'' # ?r)"
      then have "prefix old a" using "2.prems"(3) by (rule prefix_before[rotated])
      then obtain y where "a = old @ y" by (rule prefixE)
      moreover obtain x where "''panel'' = x @ a" using suf by (rule suffixE)
      ultimately have "''panel'' = x @ old @ y" by simp
      with "2.prems"(4) show False unfolding Contains_iff by blast
    qed
    have "\<not> prefix old (CHR ''['' # x)" for x using "2.prems"(1,2) by (cases old) auto
    then show ?thesis
      using none tail[of "''panel''"] tail[of "''anel''"] tail[of "''nel''"] tail[of "''el''"] tail[of "''l''"] tail[of "[]"] True
      by (simp add: ReplaceAll.simps(2) redacted_def suffix_def)
  next
    case False
    have none: "\<not> Contains (ReplaceAll s old redacted) old" using "2.hyps"(2)[OF False] "2.prems" by simp
    moreover have "\<not> prefix old (c # ReplaceAll s old redacted)"
    proof
      assume "prefix old (c # ReplaceAll s old redacted)"
      then have "prefix old (ReplaceAll (c # s) old redacted)" using False by (auto simp: ReplaceAll.simps(2))
      from prefix_ReplaceAll[OF "2.prems"(2) this] show False using False "2.prems"(1) by simp
    qed
    ultimately show ?thesis using False by (auto simp: ReplaceAll.simps(2))
  qed
qed

section \<open>Errors\<close>

lemma client_do_error:
  "result (client_do J S c meth path body out) h = Inl e \<Longrightarrow> \<exists>m. e = sanitize J c m"
  by (auto simp: client_do_def result_bind simp del: run_state_bind split: sum.splits)

lemma sanitize_hides:
  assumes "panelHost J c = host" "host \<noteq> []" "CHR ''['' \<notin> set host" "CHR '']'' \<notin> set host"
    "\<not> Contains ''panel'' host"
  shows "\<not> Contains (sanitize J c m) host"
  using ReplaceAll_removes[OF assms(2-5)] assms(1,2) by (simp add: sanitize_def Let_def)

text \<open>
  C21. The host name of the panel does not occur in an error that the client returns, whatever the
  transport, the panel or a decoder said, provided the name has no bracket and does not occur in the
  word it is replaced by.
\<close>
theorem panel_errors_hide_the_host:
  assumes "panelHost J c = host" and "host \<noteq> []" and "CHR ''['' \<notin> set host" and "CHR '']'' \<notin> set host"
    and "\<not> Contains ''panel'' host"
  shows "(\<forall>e. result (Heartbeat J S c req) h = Inl e \<longrightarrow> \<not> Contains e host)
    \<and> (\<forall>e. result (Sync J S c) h = Inl e \<longrightarrow> \<not> Contains e host)
    \<and> (\<forall>e. result (ReportStatus J S c sreq) h = Some e \<longrightarrow> \<not> Contains e host)"
proof -
  note hides = sanitize_hides[OF assms] client_do_error
  show ?thesis
    unfolding Heartbeat_def Sync_def ReportStatus_def
    by (auto simp: result_bind simp del: run_state_bind split: sum.splits option.splits dest!: client_do_error
        dest: sanitize_hides[OF assms, THEN notE])
qed

text \<open>A host whose panel cannot be reached, with an error that names it, and a library for it.\<close>

definition refused_sys :: "unit sys" where
  "refused_sys c w =
     (err_reply ''Get https://p.example/api/v1/node/sync: dial tcp: lookup p.example: no such host'', w)"

definition host_lib :: "string \<Rightarrow> json_lib" where
  "host_lib host = \<lparr>jl_Hostname = (\<lambda>u. Some host), jl_NewRequest = (\<lambda>m u. None), jl_Time = (\<lambda>t. Inr []),
     jl_envelope = (\<lambda>b. Inr []), jl_heartbeat = (\<lambda>b. Inl b), jl_sync = (\<lambda>b. Inl b)\<rparr>"

theorem panel_errors_hide_the_host_witness:
  "\<exists>e. result (Sync (host_lib ''p.example'') refused_sys (New ''https://p.example/'' 7 ''s'' 30)) (init_host ()) = Inl e
     \<and> \<not> Contains e ''p.example''"
proof -
  let ?J = "host_lib ''p.example''" and ?c = "New ''https://p.example/'' 7 ''s'' 30"
  have "panelHost ?J ?c = ''p.example''" by (simp add: panelHost_def host_lib_def)
  moreover obtain e where "result (Sync ?J refused_sys ?c) (init_host ()) = Inl e"
    by (simp add: Sync_def client_do_def do_request_def run_do_call refused_sys_def host_lib_def)
  ultimately show ?thesis
    using panel_errors_hide_the_host[of ?J ?c "''p.example''" refused_sys _ "init_host ()"] by auto
qed

text \<open>The proviso is needed: a host that is called \<open>panel\<close> is replaced by itself.\<close>

lemma host_in_the_replacement_leaks:
  "Contains (sanitize (host_lib ''panel'') (New ''http://panel'' 7 ''s'' 30) ''lookup panel: no such host'') ''panel''"
  by code_simp

text \<open>
  The success flag of a response is not looked at: any reply with a status of success and an envelope
  without data is the zero value, a desired state without interfaces.
\<close>

lemma reply_without_data:
  assumes "jl_NewRequest J ''GET'' (cli_apiHost c @ ''/api/v1/node/sync'') = None"
    and "fst (S (HttpPanel ''GET'' (cli_apiHost c @ ''/api/v1/node/sync'') (request_headers c False) None) (world h)) = r"
    and "rerr r = None" "200 \<le> rnum r" "rnum r < 300" "jl_envelope J (rout r) = Inr []"
  shows "result (Sync J S c) h = Inr zero_sync"
  using assms by (simp add: Sync_def client_do_def do_request_def run_do_call decode_reply_def)

end
