(* ===== verification/Controller.thy ===== *)
theory Controller
  imports Panel SingboxEngine SelfUpdate Overlay
begin

text \<open>
  \<open>src/node/controller.go\<close>: the control loops of the agent for one panel. This theory holds the
  definitions, one per Go type and function.

  A controller is a value its operations take and return; one goroutine runs its ticks one after the
  other, so its mutex is left out, as are log lines. The parameter \<open>E\<close> collects the libraries the
  parts rely on, \<open>runtime.GOOS\<close> and \<open>runtime.GOARCH\<close>, and the orders of the ranges over Go maps.
  An operation that replaces the process image ends with the outcome \<open>Replaced\<close>, and nothing after it
  runs.
\<close>

record libs =
  en_wg :: wg_lib
  en_archive :: archive_lib
  en_json :: json_lib
  en_goos :: string
  en_goarch :: string
  en_links_order :: "string list \<Rightarrow> string list"
  en_managed_order :: "string list \<Rightarrow> string list"
  en_wanted_order :: "string list \<Rightarrow> string list"
  en_peers_order :: "string list \<Rightarrow> string list"

section \<open>The engine behind its interface\<close>

datatype apply_error = KernelFailed string | SingboxFailed singbox_error

definition engine_Apply ::
  "libs \<Rightarrow> 'w sys \<Rightarrow> wg_interface list \<Rightarrow> engine \<Rightarrow> ('w, 'm, apply_error option \<times> engine) prog" where
  "engine_Apply E S ifaces e =
     (case e of
        Kernel k \<Rightarrow> do {
          (r, k) \<leftarrow> kernel_Apply (en_wg E) S (en_managed_order E) (en_peers_order E) ifaces k;
          State_Monad.return (map_option KernelFailed r, Kernel k) }
      | Singbox b \<Rightarrow> do {
          (r, b) \<leftarrow> singbox_Apply (en_archive E) S (en_goos E) (en_goarch E) (en_wanted_order E)
                     (en_managed_order E) ifaces b;
          State_Monad.return (map_option SingboxFailed r, Singbox b) })"

definition engine_Stats :: "libs \<Rightarrow> 'w sys \<Rightarrow> engine \<Rightarrow> ('w, 'm, peer_stat list go_result) prog" where
  "engine_Stats E S e =
     (case e of Kernel k \<Rightarrow> kernel_Stats (en_wg E) S (en_managed_order E) k | Singbox b \<Rightarrow> singbox_Stats b)"

definition engine_Close :: "libs \<Rightarrow> 'w sys \<Rightarrow> engine \<Rightarrow> ('w, 'm, go_error) prog" where
  "engine_Close E S e =
     (case e of
        Kernel k \<Rightarrow> kernel_Close k
      | Singbox b \<Rightarrow> do { (r, b) \<leftarrow> singbox_Close S (en_managed_order E) b; State_Monad.return r })"

section \<open>The controller\<close>

record controller =
  ct_client :: client
  ct_singbox :: singbox_config
  ct_hbEvery :: int
  ct_statEvery :: int
  ct_version :: string
  ct_osName :: string
  ct_binaryPath :: string
  ct_pid :: int
  ct_startedAt :: int
  ct_primaryIf :: string
  ct_engine :: "engine option"
  ct_engineType :: string
  ct_revKnown :: bool
  ct_revision :: uint
  ct_desired :: "wg_interface list"
  ct_vxlan :: "ov_config list"
  ct_extras :: "string \<Rightarrow> extras option"

definition policyWatchdogEvery :: int where "policyWatchdogEvery = 30 * 1000000000"

definition zero_extras :: extras where
  "zero_extras = \<lparr>ex_Routes = [], ex_Rules = [], ex_NAT = []\<rparr>"

definition selfPath :: "'w sys \<Rightarrow> ('w, 'm, string) prog" where
  "selfPath S = do {
     r \<leftarrow> do_call S Executable;
     State_Monad.return (if rerr r \<noteq> nil then [] else rout r) }"

definition primaryInterface :: "'w sys \<Rightarrow> ('w, 'm, string) prog" where
  "primaryInterface S = do {
     r \<leftarrow> do_call S (Exec ''ip'' [''-4'', ''route'', ''show'', ''default'']);
     if rerr r = nil \<and> RouteDev (rout r) \<noteq> [] then State_Monad.return (RouteDev (rout r))
     else do {
       r \<leftarrow> do_call S (Exec ''ip'' [''-4'', ''route'', ''get'', ''1.1.1.1'']);
       State_Monad.return (if rerr r = nil then RouteDev (rout r) else []) } }"

definition NewController ::
  "'w sys \<Rightarrow> panel_config \<Rightarrow> singbox_config \<Rightarrow> string \<Rightarrow> string \<Rightarrow> ('w, 'm, controller) prog" where
  "NewController S p singbox version osName = do {
     primary \<leftarrow> primaryInterface S;
     path \<leftarrow> selfPath S;
     pid \<leftarrow> do_call S Getpid;
     now \<leftarrow> do_call S Now;
     State_Monad.return
       \<lparr>ct_client = New (pn_ApiHost p) (pn_NodeID p) (pn_SecretKey p) (HTTPTimeout p), ct_singbox = singbox,
        ct_hbEvery = HeartbeatInterval p, ct_statEvery = StatusInterval p, ct_version = version,
        ct_osName = osName, ct_binaryPath = path, ct_pid = rnum pid, ct_startedAt = rnum now div 1000000000,
        ct_primaryIf = primary, ct_engine = None, ct_engineType = [], ct_revKnown = False, ct_revision = 0,
        ct_desired = [], ct_vxlan = [], ct_extras = Map.empty\<rparr> }"

definition controller_Close :: "libs \<Rightarrow> 'w sys \<Rightarrow> controller \<Rightarrow> ('w, 'm, controller) prog" where
  "controller_Close E S c =
     (case ct_engine c of
        None \<Rightarrow> State_Monad.return c
      | Some e \<Rightarrow> do {
          _ \<leftarrow> engine_Close E S e;
          State_Monad.return (c\<lparr>ct_engine := None\<rparr>) })"

section \<open>What the panel asks for\<close>

definition toEngineInterface :: "panel_interface \<Rightarrow> wg_interface" where
  "toEngineInterface i =
     \<lparr>if_Name = pi_Name i, if_PrivateKey = pi_PrivateKey i, if_ListenPort = pi_ListenPort i,
      if_Address = pi_Address i, if_MTU = pi_MTU i, if_Masquerade = pi_Masquerade i,
      if_EgressInterface = pi_EgressInterface i, if_NATSubnets = pi_NATSubnets i,
      if_PolicyRoutes = pi_PolicyRoutes i,
      if_Extras = \<lparr>ex_Routes = pi_ExtraRoutes i, ex_Rules = pi_ExtraRules i, ex_NAT = pi_ExtraNAT i\<rparr>,
      if_Peers = map (\<lambda>p. \<lparr>wp_PublicKey = pp_PublicKey p, wp_PresharedKey = pp_PresharedKey p,
        wp_AllowedIPs = pp_AllowedIPs p, wp_PersistentKeepalive = pp_PersistentKeepalive p\<rparr>) (pi_Peers i)\<rparr>"

definition overlay_config :: "int \<Rightarrow> vxlan \<Rightarrow> ov_config" where
  "overlay_config mtu t =
     \<lparr>cfg_Kind = vx_Kind t, cfg_Name = vx_Name t, cfg_VNI = vx_VNI t, cfg_Port = vx_Port t, cfg_Key = vx_Key t,
      cfg_LocalIP = vx_LocalIP t, cfg_Dev = vx_Dev t, cfg_Local = vx_Local t, cfg_Remote = vx_Remote t,
      cfg_MTU = vx_MTU t, cfg_TunnelMTU = mtu, cfg_Routes = vx_Routes t\<rparr>"

definition tunnels_of :: "panel_interface \<Rightarrow> vxlan list" where
  "tunnels_of i =
     (case pi_VXLAN i of
        Some v \<Rightarrow> if pi_Tunnels i = [] then [v] else pi_Tunnels i
      | None \<Rightarrow> pi_Tunnels i)"

definition overlayConfigs :: "panel_interface list \<Rightarrow> ov_config list" where
  "overlayConfigs ifaces =
     concat (map (\<lambda>i. map (overlay_config (pi_MTU i)) (filter (\<lambda>t. vx_Name t \<noteq> []) (tunnels_of i))) ifaces)"

definition overlayNames :: "ov_config list \<Rightarrow> string" where
  "overlayNames cfgs = (if cfgs = [] then ''-'' else Join (map cfg_Name cfgs) '','')"

section \<open>Converging\<close>

definition ensureEngine :: "libs \<Rightarrow> 'w sys \<Rightarrow> string \<Rightarrow> controller \<Rightarrow> ('w, 'm, controller) prog" where
  "ensureEngine E S engineType c =
     (let ty = (if engineType = [] then ''kernel'' else engineType)
      in if ct_engine c \<noteq> None \<and> ty = ct_engineType c then State_Monad.return c
         else do {
           (case ct_engine c of
              None \<Rightarrow> State_Monad.return ()
            | Some e \<Rightarrow> do {
                (r, e) \<leftarrow> engine_Apply E S [] e;
                _ \<leftarrow> engine_Close E S e;
                State_Monad.return () });
           State_Monad.return (c\<lparr>ct_engine := Some (Build ty (ct_singbox c)), ct_engineType := ty\<rparr>) })"

definition ensureNAT :: "'w sys \<Rightarrow> wg_interface list \<Rightarrow> ('w, 'm, unit) prog" where
  "ensureNAT S ifaces = for_each ifaces (\<lambda>i.
     if \<not> NATEnabled i then State_Monad.return ()
     else do { _ \<leftarrow> SetupNAT S i; State_Monad.return () })"

fun ensureExtras ::
  "'w sys \<Rightarrow> wg_interface list \<Rightarrow> (string \<Rightarrow> extras option) \<Rightarrow> ('w, 'm, string \<Rightarrow> extras option) prog" where
  "ensureExtras S [] m = State_Monad.return m"
| "ensureExtras S (i # is) m =
     (let prev = (case m (if_Name i) of None \<Rightarrow> zero_extras | Some x \<Rightarrow> x)
      in if IsZero prev \<and> IsZero (if_Extras i) then ensureExtras S is m
         else do {
           extras_Reconcile S prev (if_Extras i);
           ensureExtras S is (m(if_Name i \<mapsto> if_Extras i)) })"

text \<open>What \<open>sync\<close> does with a response.\<close>

definition converge :: "libs \<Rightarrow> 'w sys \<Rightarrow> sync_response \<Rightarrow> controller \<Rightarrow> ('w, 'm, controller) prog" where
  "converge E S resp c =
     (let desired = map toEngineInterface (sr_Interfaces resp);
          prevVXLAN = ct_vxlan c;
          nextVXLAN = overlayConfigs (sr_Interfaces resp)
      in do {
        c \<leftarrow> ensureEngine E S (sr_Engine resp) c;
        (r, e) \<leftarrow> engine_Apply E S desired (the (ct_engine c));
        overlay_Reconcile S (en_links_order E) prevVXLAN nextVXLAN;
        ensureNAT S desired;
        m \<leftarrow> ensureExtras S desired (ct_extras c);
        (let c = c\<lparr>ct_engine := Some e, ct_vxlan := nextVXLAN, ct_extras := m\<rparr>
         in case r of
              Some err \<Rightarrow> State_Monad.return c
            | None \<Rightarrow> do {
                overlay_Reconcile S (en_links_order E) prevVXLAN nextVXLAN;
                State_Monad.return
                  (c\<lparr>ct_revision := sr_ConfigRevision resp, ct_revKnown := True, ct_desired := desired\<rparr>) }) })"

definition controller_sync :: "libs \<Rightarrow> 'w sys \<Rightarrow> controller \<Rightarrow> ('w, 'm, controller) prog" where
  "controller_sync E S c = do {
     r \<leftarrow> Sync (en_json E) S (ct_client c);
     (case r of Inl err \<Rightarrow> State_Monad.return c | Inr resp \<Rightarrow> converge E S resp c) }"

section \<open>The ticks\<close>

definition heartbeat_of :: "libs \<Rightarrow> controller \<Rightarrow> string \<Rightarrow> heartbeat_request" where
  "heartbeat_of E c pending =
     \<lparr>hr_AgentVersion = ct_version c, hr_OS = ct_osName c, hr_Arch = en_goarch E, hr_UpgradeError = pending,
      hr_PrimaryInterface = ct_primaryIf c, hr_BinaryPath = ct_binaryPath c, hr_PID = ct_pid c,
      hr_StartedAt = ct_startedAt c\<rparr>"

text \<open>The restart and the upgrade the panel may order; \<open>True\<close> when the process was replaced.\<close>

definition obey_restart :: "'w sys \<Rightarrow> heartbeat_response \<Rightarrow> ('w, 'm, bool) prog" where
  "obey_restart S resp =
     (if \<not> hb_Restart resp then State_Monad.return False
      else do {
        x \<leftarrow> do_call S Executable;
        if rerr x \<noteq> nil then State_Monad.return False
        else do {
          r \<leftarrow> do_call S (ReExec (rout x));
          State_Monad.return (rerr r = nil) } })"

definition obey_upgrade :: "libs \<Rightarrow> 'w sys \<Rightarrow> heartbeat_response \<Rightarrow> string \<Rightarrow> ('w, 'm, bool) prog" where
  "obey_upgrade E S resp current =
     (case hb_Upgrade resp of
        None \<Rightarrow> State_Monad.return False
      | Some u \<Rightarrow> do {
          o' \<leftarrow> Maybe S (en_goos E) (en_goarch E) (Some \<lparr>ord_Version = ud_Version u, ord_URL = ud_URL u\<rparr>) current;
          State_Monad.return (o' = Replaced) })"

definition heartbeatTick ::
  "libs \<Rightarrow> 'w sys \<Rightarrow> bool \<Rightarrow> controller \<Rightarrow> ('w, 'm, outcome \<times> controller) prog" where
  "heartbeatTick E S force c = do {
     pending \<leftarrow> PendingError;
     r \<leftarrow> Heartbeat (en_json E) S (ct_client c) (heartbeat_of E c pending);
     (case r of
        Inl err \<Rightarrow> State_Monad.return (Returned nil, c)
      | Inr resp \<Rightarrow> do {
          ClearError;
          gone \<leftarrow> obey_restart S resp;
          if gone then State_Monad.return (Replaced, c)
          else do {
            gone \<leftarrow> obey_upgrade E S resp (ct_version c);
            if gone then State_Monad.return (Replaced, c)
            else if force \<or> \<not> ct_revKnown c \<or> hb_ConfigRevision resp \<noteq> ct_revision c then do {
              c \<leftarrow> controller_sync E S c;
              State_Monad.return (Returned nil, c) }
            else State_Monad.return (Returned nil, c) } }) }"

definition status_peer_of :: "peer_stat \<Rightarrow> status_peer" where
  "status_peer_of s =
     \<lparr>sp_PublicKey = st_PublicKey s, sp_LastHandshake = st_LastHandshake s, sp_RxBytes = st_RxBytes s,
      sp_TxBytes = st_TxBytes s, sp_Endpoint = st_Endpoint s\<rparr>"

definition statusTick :: "libs \<Rightarrow> 'w sys \<Rightarrow> controller \<Rightarrow> ('w, 'm, unit) prog" where
  "statusTick E S c =
     (case ct_engine c of
        None \<Rightarrow> State_Monad.return ()
      | Some e \<Rightarrow> do {
          r \<leftarrow> engine_Stats E S e;
          (case r of
             Inl err \<Rightarrow> State_Monad.return ()
           | Inr stats \<Rightarrow>
               if length stats = 0 then State_Monad.return ()
               else do {
                 _ \<leftarrow> ReportStatus (en_json E) S (ct_client c) \<lparr>sq_Peers = map status_peer_of stats\<rparr>;
                 State_Monad.return () }) })"

definition policyWatchdogTick :: "'w sys \<Rightarrow> controller \<Rightarrow> ('w, 'm, unit) prog" where
  "policyWatchdogTick S c = for_each (ct_desired c) (\<lambda>i. do {
     (if if_PolicyRoutes i \<noteq> [] then EnsurePolicyRoutes S (if_PolicyRoutes i) else State_Monad.return ());
     (if \<not> IsZero (if_Extras i) then extras_Ensure S (if_Extras i) else State_Monad.return ()) })"

text \<open>
  \<open>Run\<close>: the first tick, the tickers, and one tick per event until the context is cancelled.
  \<open>time.NewTicker\<close> panics when its interval is not positive.
\<close>

datatype event = HeartbeatDue | StatusDue | WatchdogDue | Cancelled

datatype run_end = Waiting | Stopped | ProcessReplaced | Panicked

fun run_events :: "libs \<Rightarrow> 'w sys \<Rightarrow> event list \<Rightarrow> controller \<Rightarrow> ('w, 'm, run_end \<times> controller) prog" where
  "run_events E S [] c = State_Monad.return (Waiting, c)"
| "run_events E S (Cancelled # evs) c = do {
     c \<leftarrow> controller_Close E S c;
     State_Monad.return (Stopped, c) }"
| "run_events E S (HeartbeatDue # evs) c = do {
     (o', c) \<leftarrow> heartbeatTick E S False c;
     if o' = Replaced then State_Monad.return (ProcessReplaced, c) else run_events E S evs c }"
| "run_events E S (StatusDue # evs) c = do { statusTick E S c; run_events E S evs c }"
| "run_events E S (WatchdogDue # evs) c = do { policyWatchdogTick S c; run_events E S evs c }"

definition Run :: "libs \<Rightarrow> 'w sys \<Rightarrow> event list \<Rightarrow> controller \<Rightarrow> ('w, 'm, run_end \<times> controller) prog" where
  "Run E S evs c = do {
     (o', c) \<leftarrow> heartbeatTick E S True c;
     if o' = Replaced then State_Monad.return (ProcessReplaced, c)
     else if ct_hbEvery c \<le> 0 \<or> ct_statEvery c \<le> 0 then State_Monad.return (Panicked, c)
     else run_events E S evs c }"

end
