(* ===== verification/ControllerSteady.thy ===== *)
theory ControllerSteady
  imports Controller SingboxProcess
begin

text \<open>
  What holds through whole ticks of a controller: a condition on the world and the history that every
  single call keeps is kept by every operation of the agent.
\<close>

definition steady :: "'w sys \<Rightarrow> ('w \<Rightarrow> call list \<Rightarrow> bool) \<Rightarrow> bool" where
  "steady S J \<longleftrightarrow> (\<forall>c w t. J w t \<longrightarrow> J (snd (S c w)) (t @ [c]))"

lemma steady_calm: "steady S J \<Longrightarrow> calm S J"
  by (simp add: steady_def calm_def)

lemma steady_call: "steady S J \<Longrightarrow> keeps_calm J (do_call S c)"
  by (rule keeps_do_call) (simp add: steady_def)

section \<open>The parts that start no process\<close>

lemma calm_run_cmd: "calm S J \<Longrightarrow> keeps_calm J (run_cmd S name args)"
  unfolding run_cmd_def by (intro keeps_intros calm_call) (simp_all add: starts_process_def)

lemma calm_overlay:
  assumes "calm S J"
  shows "keeps_calm J (overlay_Reconcile S ord prev next)"
proof -
  have call: "keeps_calm J (do_call S c)" if "\<not> starts_process c" for c
    by (rule calm_call[OF assms that])
  note intros = keeps_intros calm_run_cmd[OF assms] call
  have ip: "keeps_calm J (overlay_ip S args)" for args
    unfolding overlay_ip_def by (intro intros) (simp add: starts_process_def)
  have remove: "keeps_calm J (overlay_Remove S n)" for n
    unfolding overlay_Remove_def firewallForget_def forwardForget_def by (intro intros ip)
  have ensure: "keeps_calm J (overlay_Ensure S c)" for c
    unfolding overlay_Ensure_def ensure_link_def configure_link_def finish_link_def relaxRPFilter_def
      firewallAllow_def forwardAllow_def ensureForwarding_def showLink_def showAddr_def
    by (intro intros ip) (simp_all add: starts_process_def)
  have warn: "keeps_calm J (warnOnce S key)" for key
    unfolding warnOnce_def by (intro intros calm_update calm_get) (simp_all add: starts_process_def)
  have dedupe: "keeps_calm J (dedupeRules S ord chain keep)" for chain keep
    unfolding dedupeRules_def by (intro intros) (simp add: starts_process_def)
  show ?thesis
    unfolding overlay_Reconcile_def SelfCheck_def
    by (intro intros ip remove ensure warn dedupe) (simp add: starts_process_def)
qed

lemma calm_extras:
  assumes "calm S J"
  shows "keeps_calm J (extras_Reconcile S prev next)" "keeps_calm J (extras_Ensure S e)"
proof -
  have call: "keeps_calm J (do_call S c)" if "\<not> starts_process c" for c
    by (rule calm_call[OF assms that])
  note intros = keeps_intros calm_run_cmd[OF assms] call
  have run: "keeps_calm J (extras_run S name args)" for name args
    unfolding extras_run_def by (intro intros) (simp add: starts_process_def)
  have nat: "keeps_calm J (nat_ensure S args)" for args
    unfolding nat_ensure_def by (intro intros run)
  show "keeps_calm J (extras_Reconcile S prev next)"
    unfolding extras_Reconcile_def applyRoutes_def applyRules_def applyNAT_def
    by (intro intros run nat)
  show "keeps_calm J (extras_Ensure S e)"
    unfolding extras_Ensure_def routePresent_def rulePresent_def
    by (intro intros run nat) (simp_all add: starts_process_def)
qed

lemma calm_kernel:
  assumes "calm S J"
  shows "keeps_calm J (kernel_Apply L S mord pord ifaces e)" "keeps_calm J (kernel_Stats L S mord e)"
proof -
  have call: "keeps_calm J (do_call S c)" if "\<not> starts_process c" for c
    by (rule calm_call[OF assms that])
  note intros = keeps_intros call
  have link: "keeps_calm J (EnsureLink L S name address mtu)" for name address mtu
    unfolding EnsureLink_def link_of_def by (intro intros) (simp_all add: starts_process_def)
  have wg: "keeps_calm J (wg_Reconcile L S pord iface)" for iface
    unfolding wg_Reconcile_def sync_peers_def by (intro intros link) (simp_all add: starts_process_def)
  have remove: "keeps_calm J (RemoveLink S name)" for name
    unfolding RemoveLink_def by (intro intros) (simp_all add: starts_process_def)
  show "keeps_calm J (kernel_Apply L S mord pord ifaces e)"
    unfolding kernel_Apply_def kernel_reconcile_def kernel_remove_def
    by (intro intros wg remove calm_NAT[OF assms] calm_policy[OF assms])
  have device: "keeps_calm J (DeviceStats L S name)" for name
    unfolding DeviceStats_def by (intro intros) (simp_all add: starts_process_def)
  have "keeps_calm J (read_stats L S names)" for names
    by (induction names) (auto intro!: keeps_intros device)
  then show "keeps_calm J (kernel_Stats L S mord e)"
    unfolding kernel_Stats_def by (intro intros)
qed

lemma calm_ensureExtras: "calm S J \<Longrightarrow> keeps_calm J (ensureExtras S is m)"
  by (induction "is" arbitrary: m) (auto simp: Let_def intro!: keeps_intros calm_extras)

lemma calm_client: "calm S J \<Longrightarrow> keeps_calm J (client_do L S c meth path body out)"
  unfolding client_do_def do_request_def
  by (auto split: option.splits sum.splits intro!: keeps_intros calm_call simp: starts_process_def)

lemma calm_requests:
  assumes "calm S J"
  shows "keeps_calm J (Heartbeat L S c req)" "keeps_calm J (Sync L S c)" "keeps_calm J (ReportStatus L S c sreq)"
  unfolding Heartbeat_def Sync_def ReportStatus_def by (intro keeps_intros calm_client[OF assms])+

lemma calm_ensureNAT: "calm S J \<Longrightarrow> keeps_calm J (ensureNAT S ifaces)"
  unfolding ensureNAT_def by (intro keeps_intros calm_NAT)

section \<open>The engines\<close>

lemma steady_singbox:
  assumes "steady S J"
  shows "keeps_calm J (singbox_Apply A S goos goarch word mord ifaces e)" "keeps_calm J (singbox_Close S mord e)"
proof -
  note call = steady_call[OF assms]
  note calm = steady_calm[OF assms]
  have stop: "keeps_calm J (stopLocked S e)" for e
    unfolding stopLocked_def by (intro keeps_intros call)
  have restart: "keeps_calm J (restartLocked A S goos goarch e)" for e
    unfolding restartLocked_def by (intro keeps_intros call stop calm_resolve[OF calm])
  show "keeps_calm J (singbox_Apply A S goos goarch word mord ifaces e)"
    unfolding singbox_Apply_def
    by (intro keeps_intros restart calm_write[OF calm] calm_applyNAT[OF calm])
  show "keeps_calm J (singbox_Close S mord e)"
    unfolding singbox_Close_def by (intro keeps_intros stop calm_NAT[OF calm])
qed

lemma keeps_engine:
  "(\<And>k. e = Kernel k \<Longrightarrow> keeps I (f k)) \<Longrightarrow> (\<And>b. e = Singbox b \<Longrightarrow> keeps I (g b))
   \<Longrightarrow> keeps I (case e of Kernel k \<Rightarrow> f k | Singbox b \<Rightarrow> g b)"
  by (cases e) auto

lemma steady_engine:
  assumes "steady S J"
  shows "keeps_calm J (engine_Apply E S ifaces e)" "keeps_calm J (engine_Close E S e)"
  unfolding engine_Apply_def engine_Close_def kernel_Close_def
  by (intro keeps_engine keeps_intros calm_kernel[OF steady_calm[OF assms]] steady_singbox[OF assms])+

section \<open>The ticks\<close>

lemma steady_ensureEngine: "steady S J \<Longrightarrow> keeps_calm J (ensureEngine E S ty c)"
  unfolding ensureEngine_def by (intro keeps_intros steady_engine)

lemma steady_converge:
  assumes "steady S J"
  shows "keeps_calm J (converge E S resp c)"
  unfolding converge_def
  by (intro keeps_intros steady_ensureEngine steady_engine assms calm_overlay calm_ensureNAT calm_ensureExtras
      steady_calm[OF assms])

lemma steady_sync: "steady S J \<Longrightarrow> keeps_calm J (controller_sync E S c)"
  unfolding controller_sync_def by (intro keeps_intros calm_requests steady_calm steady_converge)

end
