(* ===== verification/ControllerFacts.thy ===== *)
theory ControllerFacts
  imports ControllerSteady EngineFacts
begin

text \<open>
  What a controller promises: after a heartbeat that the panel answers, the node is at the panel's
  revision, and a heartbeat at the known revision does nothing; and what a response without data does.
\<close>

section \<open>One synchronisation\<close>

text \<open>The engine of a controller is of the type it remembers.\<close>

definition wf_controller :: "controller \<Rightarrow> bool" where
  "wf_controller c \<longleftrightarrow> (case ct_engine c of
     None \<Rightarrow> True
   | Some (Kernel k) \<Rightarrow> ct_engineType c \<noteq> ''singbox''
   | Some (Singbox b) \<Rightarrow> ct_engineType c = ''singbox'')"

definition type_of :: "string \<Rightarrow> string" where
  "type_of s = (if s = [] then ''kernel'' else s)"

lemma ensureEngine_result:
  assumes "wf_controller c" "ty \<noteq> ''singbox''"
  shows "\<exists>k. result (ensureEngine E S ty c) h = c\<lparr>ct_engine := Some (Kernel k), ct_engineType := type_of ty\<rparr>"
proof (cases "ct_engine c \<noteq> None \<and> type_of ty = ct_engineType c")
  case True
  then obtain e where e: "ct_engine c = Some e" "ct_engineType c = type_of ty" by auto
  moreover have "type_of ty \<noteq> ''singbox''" using assms(2) by (simp add: type_of_def)
  ultimately obtain k where "e = Kernel k"
    using assms(1) by (cases e) (simp_all add: wf_controller_def)
  moreover from this e have "c = c\<lparr>ct_engine := Some (Kernel k), ct_engineType := type_of ty\<rparr>" by simp
  ultimately show ?thesis using True
    by (intro exI[of _ k]) (simp add: ensureEngine_def type_of_def Let_def)
next
  case False
  have "type_of ty \<noteq> ''singbox''" using assms(2) by (simp add: type_of_def)
  with False show ?thesis
    by (intro exI[of _ NewKernelEngine])
      (auto simp: ensureEngine_def type_of_def[symmetric] Build_def result_bind Let_def simp del: run_state_bind)
qed

lemma kernel_engine_result:
  "result (engine_Apply E S ifaces (Kernel k)) h = (None, Kernel \<lparr>ke_managed = wanted_map ifaces\<rparr>)"
  by (cases k) (simp add: engine_Apply_def kernel_Apply_def result_bind del: run_state_bind)

lemma converge_result:
  assumes "wf_controller c" "sr_Engine resp \<noteq> ''singbox''"
  shows "\<exists>m. result (converge E S resp c) h
    = c\<lparr>ct_engineType := type_of (sr_Engine resp),
        ct_engine := Some (Kernel \<lparr>ke_managed = wanted_map (map toEngineInterface (sr_Interfaces resp))\<rparr>), ct_vxlan := overlayConfigs (sr_Interfaces resp), ct_extras := m,
        ct_revision := sr_ConfigRevision resp, ct_revKnown := True,
        ct_desired := map toEngineInterface (sr_Interfaces resp)\<rparr>"
proof -
  obtain k where "result (ensureEngine E S (sr_Engine resp) c) h
      = c\<lparr>ct_engine := Some (Kernel k), ct_engineType := type_of (sr_Engine resp)\<rparr>"
    using ensureEngine_result[OF assms] by blast
  then show ?thesis
    by (simp add: converge_def Let_def result_bind kernel_engine_result del: run_state_bind)
      (rule exI, rule refl)
qed

section \<open>The panel\<close>

text \<open>
  A panel that answers: \<open>R w\<close> is the revision it is at, \<open>D w\<close> the engine and the interfaces it wants.
  It orders neither a restart nor an upgrade, and the calls of the agent do not change what it wants.
\<close>

definition succeeds :: "reply \<Rightarrow> bool" where
  "succeeds r \<longleftrightarrow> rerr r = None \<and> 200 \<le> rnum r \<and> rnum r < 300"

definition panel_serves ::
  "json_lib \<Rightarrow> 'w sys \<Rightarrow> client \<Rightarrow> ('w \<Rightarrow> uint) \<Rightarrow> ('w \<Rightarrow> string \<times> panel_interface list) \<Rightarrow> bool" where
  "panel_serves J S cl R D \<longleftrightarrow>
     (\<forall>w body. (let r = fst (S (HttpPanel ''POST'' (cli_apiHost cl @ ''/api/v1/node/heartbeat'')
            (request_headers cl True) (Some body)) w)
        in succeeds r \<and> (\<exists>data warn. jl_envelope J (rout r) = Inr data \<and> data \<noteq> [] \<and> data \<noteq> ''null''
             \<and> jl_heartbeat J data
                 = Inr \<lparr>hb_ConfigRevision = R w, hb_Upgrade = None, hb_Restart = False, hb_Warn = warn\<rparr>)))
   \<and> (\<forall>w. (let r = fst (S (HttpPanel ''GET'' (cli_apiHost cl @ ''/api/v1/node/sync'') (request_headers cl False) None) w)
        in succeeds r \<and> (\<exists>data. jl_envelope J (rout r) = Inr data \<and> data \<noteq> [] \<and> data \<noteq> ''null''
             \<and> jl_sync J data
                 = Inr \<lparr>sr_ConfigRevision = R w, sr_Engine = fst (D w), sr_Interfaces = snd (D w)\<rparr>)))
   \<and> jl_NewRequest J ''POST'' (cli_apiHost cl @ ''/api/v1/node/heartbeat'') = None
   \<and> jl_NewRequest J ''GET'' (cli_apiHost cl @ ''/api/v1/node/sync'') = None
   \<and> (\<forall>w c. R (snd (S c w)) = R w \<and> D (snd (S c w)) = D w)"

abbreviation heartbeat_call :: "client \<Rightarrow> string \<Rightarrow> call" where
  "heartbeat_call cl body \<equiv> HttpPanel ''POST'' (cli_apiHost cl @ ''/api/v1/node/heartbeat'') (request_headers cl True) (Some body)"

lemma Heartbeat_answered:
  assumes "panel_serves J S cl R D"
  shows "\<exists>warn body. run_state (Heartbeat J S cl req) h
    = (Inr \<lparr>hb_ConfigRevision = R (world h), hb_Upgrade = None, hb_Restart = False, hb_Warn = warn\<rparr>,
       after (do_call S (heartbeat_call cl body)) h)"
proof -
  let ?cal = "heartbeat_call cl (Marshal (heartbeat_json req))"
  let ?r = "fst (S ?cal (world h))"
  obtain data warn where "succeeds ?r" "jl_envelope J (rout ?r) = Inr data" "data \<noteq> []" "data \<noteq> ''null''"
      "jl_heartbeat J data = Inr \<lparr>hb_ConfigRevision = R (world h), hb_Upgrade = None, hb_Restart = False, hb_Warn = warn\<rparr>"
    using assms unfolding panel_serves_def Let_def by blast
  moreover have "jl_NewRequest J ''POST'' (cli_apiHost cl @ ''/api/v1/node/heartbeat'') = None"
    using assms by (simp add: panel_serves_def)
  ultimately show ?thesis
    by (intro exI[of _ warn] exI[of _ "Marshal (heartbeat_json req)"])
      (simp add: Heartbeat_def client_do_def do_request_def run_do_call succeeds_def decode_reply_def)
qed

lemma Sync_answered:
  assumes "panel_serves J S cl R D"
  shows "result (Sync J S cl) h
    = Inr \<lparr>sr_ConfigRevision = R (world h), sr_Engine = fst (D (world h)), sr_Interfaces = snd (D (world h))\<rparr>"
proof -
  let ?r = "fst (S (HttpPanel ''GET'' (cli_apiHost cl @ ''/api/v1/node/sync'') (request_headers cl False) None) (world h))"
  obtain data where "succeeds ?r" "jl_envelope J (rout ?r) = Inr data" "data \<noteq> []" "data \<noteq> ''null''"
      "jl_sync J data = Inr \<lparr>sr_ConfigRevision = R (world h), sr_Engine = fst (D (world h)), sr_Interfaces = snd (D (world h))\<rparr>"
    using assms unfolding panel_serves_def Let_def by blast
  moreover have "jl_NewRequest J ''GET'' (cli_apiHost cl @ ''/api/v1/node/sync'') = None"
    using assms by (simp add: panel_serves_def)
  ultimately show ?thesis
    by (simp add: Sync_def client_do_def do_request_def run_do_call succeeds_def decode_reply_def)
qed

lemma panel_steady:
  assumes "panel_serves J S cl R D"
  shows "steady S (\<lambda>w t. R w = x)"
  using assms by (simp add: steady_def panel_serves_def)

section \<open>The heartbeat\<close>

lemma quiet_tick:
  assumes "panel_serves (en_json E) S (ct_client c) R D"
    and "\<not> force" "ct_revKnown c" "ct_revision c = R (world h)"
  shows "\<exists>body. run_state (heartbeatTick E S force c) h
    = ((Returned nil, c), after (do_call S (heartbeat_call (ct_client c) body)) h\<lparr>su_upgradeErr := []\<rparr>)"
proof -
  obtain warn body where "run_state (Heartbeat (en_json E) S (ct_client c) (heartbeat_of E c (su_upgradeErr h))) h
    = (Inr \<lparr>hb_ConfigRevision = R (world h), hb_Upgrade = None, hb_Restart = False, hb_Warn = warn\<rparr>,
       after (do_call S (heartbeat_call (ct_client c) body)) h)"
    using Heartbeat_answered[OF assms(1)] by blast
  then show ?thesis using assms(2-4)
    by (intro exI[of _ body])
      (simp add: heartbeatTick_def PendingError_def ClearError_def obey_restart_def obey_upgrade_def
        State_Monad.get_def State_Monad.update_def State_Monad.set_def)
qed

lemma syncing_tick:
  assumes "panel_serves (en_json E) S (ct_client c) R D"
    and "force \<or> \<not> ct_revKnown c \<or> ct_revision c \<noteq> R (world h)"
  shows "\<exists>g body. R (world g) = R (world h) \<and> D (world g) = D (world h)
    \<and> g = after (do_call S (heartbeat_call (ct_client c) body)) h\<lparr>su_upgradeErr := []\<rparr>
    \<and> run_state (heartbeatTick E S force c) h
      = ((Returned nil, result (controller_sync E S c) g), after (controller_sync E S c) g)"
proof -
  obtain warn body where hb: "run_state (Heartbeat (en_json E) S (ct_client c) (heartbeat_of E c (su_upgradeErr h))) h
    = (Inr \<lparr>hb_ConfigRevision = R (world h), hb_Upgrade = None, hb_Restart = False, hb_Warn = warn\<rparr>,
       after (do_call S (heartbeat_call (ct_client c) body)) h)"
    using Heartbeat_answered[OF assms(1)] by blast
  let ?g = "after (do_call S (heartbeat_call (ct_client c) body)) h\<lparr>su_upgradeErr := []\<rparr>"
  have "R (world ?g) = R (world h)" "D (world ?g) = D (world h)"
    using assms(1) by (simp_all add: panel_serves_def run_do_call)
  moreover have "run_state (heartbeatTick E S force c) h
      = ((Returned nil, result (controller_sync E S c) ?g), after (controller_sync E S c) ?g)"
    using hb assms(2)
    by (auto simp: heartbeatTick_def PendingError_def ClearError_def obey_restart_def obey_upgrade_def
        State_Monad.get_def State_Monad.update_def State_Monad.set_def split: prod.splits)
  ultimately show ?thesis by blast
qed

text \<open>
  C3. The agent tracks the panel. With a panel that answers and asks for the kernel engine, every
  heartbeat leaves the controller at the panel's revision: when it was not, it takes over the wanted
  interfaces and overlay links and manages exactly the wanted interfaces; when it was, the heartbeat is
  one request and nothing of the controller changes.
\<close>
theorem agent_tracks_panel:
  assumes "wf_controller c" and "panel_serves (en_json E) S (ct_client c) R D"
    and "fst (D (world h)) \<noteq> ''singbox''"
  shows "(case result (heartbeatTick E S force c) h of (o', c') \<Rightarrow>
     (let h' = after (heartbeatTick E S force c) h; new = snd (D (world h))
      in o' = Returned nil \<and> wf_controller c' \<and> ct_client c' = ct_client c
       \<and> R (world h') = R (world h) \<and> ct_revKnown c' \<and> ct_revision c' = R (world h)
       \<and> (if force \<or> \<not> ct_revKnown c \<or> ct_revision c \<noteq> R (world h)
          then ct_desired c' = map toEngineInterface new \<and> ct_vxlan c' = overlayConfigs new
            \<and> ct_engine c' = Some (Kernel \<lparr>ke_managed = wanted_map (map toEngineInterface new)\<rparr>)
          else c' = c \<and> length (calls (heartbeatTick E S force c) h) = 1)))"
proof (cases "force \<or> \<not> ct_revKnown c \<or> ct_revision c \<noteq> R (world h)")
  case True
  obtain g where g: "R (world g) = R (world h)" "D (world g) = D (world h)"
    and tick: "run_state (heartbeatTick E S force c) h
      = ((Returned nil, result (controller_sync E S c) g), after (controller_sync E S c) g)"
    using syncing_tick[OF assms(2) True] by blast
  let ?resp = "\<lparr>sr_ConfigRevision = R (world h), sr_Engine = fst (D (world h)), sr_Interfaces = snd (D (world h))\<rparr>"
  have "result (Sync (en_json E) S (ct_client c)) g = Inr ?resp"
    using Sync_answered[OF assms(2), of g] g by simp
  then have sync: "result (controller_sync E S c) g
      = result (converge E S ?resp c) (after (Sync (en_json E) S (ct_client c)) g)"
    by (simp add: controller_sync_def result_bind del: run_state_bind)
  obtain m where c': "result (controller_sync E S c) g
      = c\<lparr>ct_engineType := type_of (fst (D (world h))),
          ct_engine := Some (Kernel \<lparr>ke_managed = wanted_map (map toEngineInterface (snd (D (world h))))\<rparr>), ct_vxlan := overlayConfigs (snd (D (world h))), ct_extras := m,
          ct_revision := R (world h), ct_revKnown := True,
          ct_desired := map toEngineInterface (snd (D (world h)))\<rparr>"
    using converge_result[OF assms(1), of ?resp E S "after (Sync (en_json E) S (ct_client c)) g"] assms(3) sync by auto
  have "R (world (after (controller_sync E S c) g)) = R (world g)"
    by (rule keepsD[OF steady_sync[OF panel_steady[OF assms(2)]], where h = g]) simp
  then show ?thesis
    using tick c' True g(1) assms(3) by (simp add: Let_def wf_controller_def type_of_def)
next
  case False
  then obtain body where tick: "run_state (heartbeatTick E S force c) h
    = ((Returned nil, c), after (do_call S (heartbeat_call (ct_client c) body)) h\<lparr>su_upgradeErr := []\<rparr>)"
    using quiet_tick[OF assms(2), of force h] by auto
  moreover have "R (snd (S (heartbeat_call (ct_client c) body) (world h))) = R (world h)"
    using assms(2) by (simp add: panel_serves_def)
  ultimately show ?thesis using False assms(1) by (simp add: calls_def run_do_call)
qed

text \<open>A panel that is always at revision 3 and wants one interface, on a host where every call succeeds.\<close>

definition wanted_wg0 :: panel_interface where
  "wanted_wg0 = \<lparr>pi_Name = ''wg0'', pi_PrivateKey = ''k'', pi_ListenPort = 51820, pi_Address = ''10.0.0.1/24'', pi_MTU = 1420,
     pi_Masquerade = True, pi_EgressInterface = [], pi_NATSubnets = [], pi_PolicyRoutes = [], pi_ExtraRoutes = [],
     pi_ExtraRules = [], pi_ExtraNAT = [], pi_Peers = [], pi_Tunnels = [], pi_VXLAN = None\<rparr>"

definition serving_sys :: "unit sys" where
  "serving_sys c w = (ok_reply\<lparr>rnum := 200, rout := ''x''\<rparr>, w)"

definition serving_libs :: libs where
  "serving_libs = \<lparr>en_wg = \<lparr>lib_ParseKey = Inr, lib_KeyString = id, lib_ParseAddr = Inr\<rparr>,
     en_archive = \<lparr>arc_open = (\<lambda>b. Inl ''EOF''), arc_tag = (\<lambda>b. Inl ''EOF'')\<rparr>,
     en_json = \<lparr>jl_Hostname = (\<lambda>u. None), jl_NewRequest = (\<lambda>m u. None), jl_Time = (\<lambda>t. Inr []), jl_envelope = Inr,
       jl_heartbeat = (\<lambda>d. Inr \<lparr>hb_ConfigRevision = 3, hb_Upgrade = None, hb_Restart = False, hb_Warn = []\<rparr>),
       jl_sync = (\<lambda>d. Inr \<lparr>sr_ConfigRevision = 3, sr_Engine = [], sr_Interfaces = [wanted_wg0]\<rparr>)\<rparr>,
     en_goos = ''linux'', en_goarch = ''amd64'', en_links_order = rev, en_managed_order = rev,
     en_wanted_order = rev, en_peers_order = rev\<rparr>"

definition fresh_controller :: "string \<Rightarrow> controller" where
  "fresh_controller host = \<lparr>ct_client = New host 7 ''s'' 30, ct_singbox = \<lparr>sc_BinPath = [], sc_ConfigPath = [],
       sc_System = False, sc_LogLevel = []\<rparr>, ct_hbEvery = 15, ct_statEvery = 20, ct_version = ''1.0'', ct_osName = ''linux'',
     ct_binaryPath = [], ct_pid = 1, ct_startedAt = 0, ct_primaryIf = [], ct_engine = None, ct_engineType = [],
     ct_revKnown = False, ct_revision = 0, ct_desired = [], ct_vxlan = [], ct_extras = Map.empty\<rparr>"

theorem agent_tracks_panel_witness:
  "(let c' = snd (result (heartbeatTick serving_libs serving_sys True (fresh_controller ''https://p'')) (init_host ()))
    in ct_revKnown c' \<and> ct_revision c' = 3 \<and> ct_desired c' = [toEngineInterface wanted_wg0])"
proof -
  let ?c = "fresh_controller ''https://p''"
  have "wf_controller ?c" by (simp add: wf_controller_def fresh_controller_def)
  moreover have "panel_serves (en_json serving_libs) serving_sys (ct_client ?c) (\<lambda>w. 3) (\<lambda>w. ([], [wanted_wg0]))"
    by (simp add: panel_serves_def succeeds_def serving_sys_def serving_libs_def)
  ultimately show ?thesis
    using agent_tracks_panel[of ?c serving_libs serving_sys "\<lambda>w. 3" "\<lambda>w. ([], [wanted_wg0])" "init_host ()" True]
    by (auto simp: Let_def split: prod.splits)
qed

section \<open>A reply without data\<close>

text \<open>
  The success flag of a reply is not looked at: a reply with a status of success and an envelope
  without data is the zero value, a wanted state without interfaces.
\<close>

lemma Sync_without_data:
  assumes "jl_NewRequest J ''GET'' (cli_apiHost cl @ ''/api/v1/node/sync'') = None"
    and "fst (S (HttpPanel ''GET'' (cli_apiHost cl @ ''/api/v1/node/sync'') (request_headers cl False) None) (world h)) = r"
    and "succeeds r" "jl_envelope J (rout r) = Inr []"
  shows "\<exists>cal. run_state (Sync J S cl) h
    = (Inr zero_sync, h\<lparr>world := snd (S cal (world h)), trace := trace h @ [cal]\<rparr>) \<and> \<not> changes_links cal"
  using assms
  by (intro exI[of _ "HttpPanel ''GET'' (cli_apiHost cl @ ''/api/v1/node/sync'') (request_headers cl False) None"])
    (simp add: Sync_def client_do_def do_request_def run_do_call decode_reply_def succeeds_def)

lemma overlay_Reconcile_nothing: "overlay_Reconcile S ord [] [] = State_Monad.return ()"
proof -
  have "Plan [] [] = ([], [])" "staleRoutes [] [] = []" by code_simp+
  then show ?thesis by (simp add: overlay_Reconcile_def SelfCheck_def)
qed

lemma ensureEngine_same:
  "ct_engine c = Some e \<Longrightarrow> ct_engineType c = ''kernel'' \<Longrightarrow> ensureEngine E S [] c = State_Monad.return c"
  by (simp add: ensureEngine_def)

lemma engine_Apply_kernel:
  "run_state (engine_Apply E S ifaces (Kernel k)) h = ((None, Kernel \<lparr>ke_managed = wanted_map ifaces\<rparr>),
      after (kernel_Apply (en_wg E) S (en_managed_order E) (en_peers_order E) ifaces k) h)"
  using kernel_engine_result[of E S ifaces k h]
  by (auto simp: engine_Apply_def prod_eq_iff split: prod.splits)

lemma converge_nothing:
  assumes "ct_engine c = Some (Kernel k)" "ct_engineType c = ''kernel''" "ct_vxlan c = []"
  shows "run_state (converge E S zero_sync c) h
    = (c\<lparr>ct_engine := Some (Kernel \<lparr>ke_managed = []\<rparr>), ct_revision := 0, ct_revKnown := True, ct_desired := []\<rparr>,
       after (kernel_Apply (en_wg E) S (en_managed_order E) (en_peers_order E) [] k) h)"
  by (simp add: converge_def zero_sync_def Let_def overlayConfigs_def ensureNAT_def wanted_map_def
      overlay_Reconcile_nothing ensureEngine_same[OF assms(1,2)] engine_Apply_kernel assms)

text \<open>
  C37. A reply of the panel with a status of success but without data, such as the report of a failure
  in the envelope, takes down a node with the kernel engine and no overlay links: the synchronisation
  counts as successful, at revision 0, and every link the kernel engine manages is deleted.
\<close>
theorem reply_without_data_clears_the_node:
  assumes "netlink_ok S N" and "links_accept S" and "range_order (en_managed_order E)"
    and "ct_engine c = Some (Kernel k)" and "ct_engineType c = ''kernel''" and "ct_vxlan c = []"
    and "\<forall>i \<in> ran (map_of (ke_managed k)). plain_policy (if_PolicyRoutes i)"
    and "jl_NewRequest (en_json E) ''GET'' (cli_apiHost (ct_client c) @ ''/api/v1/node/sync'') = None"
    and "fst (S (HttpPanel ''GET'' (cli_apiHost (ct_client c) @ ''/api/v1/node/sync'')
          (request_headers (ct_client c) False) None) (world h)) = r"
    and "succeeds r" and "jl_envelope (en_json E) (rout r) = Inr []"
  shows "(let c' = result (controller_sync E S c) h; h' = after (controller_sync E S c) h
    in ct_revKnown c' \<and> ct_revision c' = 0 \<and> ct_desired c' = [] \<and> ct_engine c' = Some (Kernel \<lparr>ke_managed = []\<rparr>)
     \<and> ran (N (world h')) = ran (N (world h)) - dom (map_of (ke_managed k)))"
proof -
  obtain cal where cal: "run_state (Sync (en_json E) S (ct_client c)) h
      = (Inr zero_sync, h\<lparr>world := snd (S cal (world h)), trace := trace h @ [cal]\<rparr>)" "\<not> changes_links cal"
    using Sync_without_data[of "en_json E" "ct_client c" S h r] assms(8-11) by blast
  let ?h = "h\<lparr>world := snd (S cal (world h)), trace := trace h @ [cal]\<rparr>"
  have "N (world ?h) = N (world h)" using assms(1) cal(2) by (simp add: netlink_ok_def)
  moreover have "ran (N (world (after (kernel_Apply (en_wg E) S (en_managed_order E) (en_peers_order E) [] k) ?h)))
      = ran (N (world ?h)) - dom (map_of (ke_managed k))"
    using kernel_Apply_links[OF assms(1-3), of "[]" k "en_wg E" "en_peers_order E" ?h] assms(7) by simp
  ultimately show ?thesis
    by (simp add: controller_sync_def cal(1) converge_nothing[OF assms(4-6)])
qed

text \<open>A host with links, and a panel that answers every request with an empty envelope.\<close>

definition silent_sys :: "string list sys" where
  "silent_sys c w = (case c of HttpPanel meth url headers body \<Rightarrow> (ok_reply\<lparr>rnum := 200\<rparr>, w) | _ \<Rightarrow> name_sys c w)"

lemma silent_sys_links: "netlink_ok silent_sys name_links" "links_accept silent_sys"
proof -
  have "snd (silent_sys c w) = snd (name_sys c w)" for c w by (cases c) (simp_all add: silent_sys_def)
  moreover have "silent_sys (LinkByName n) w = name_sys (LinkByName n) w"
      "silent_sys (LinkAdd n m) w = name_sys (LinkAdd n m) w" "silent_sys (LinkDel l) w = name_sys (LinkDel l) w" for n m l w
    by (simp_all add: silent_sys_def)
  ultimately show "netlink_ok silent_sys name_links" "links_accept silent_sys"
    using name_netlink_ok name_links_accept unfolding netlink_ok_def links_accept_def by simp_all
qed

theorem reply_without_data_clears_the_node_witness:
  "(let c = (fresh_controller ''https://p'')\<lparr>ct_engine := Some (Kernel \<lparr>ke_managed = [(''wg0'', zero_interface)]\<rparr>),
          ct_engineType := ''kernel''\<rparr>
    in ran (name_links (world (after (controller_sync serving_libs silent_sys c) (init_host [''eth0'', ''wg0''])))) = {''eth0''})"
proof -
  let ?k = "\<lparr>ke_managed = [(''wg0'', zero_interface)]\<rparr>"
  let ?c = "(fresh_controller ''https://p'')\<lparr>ct_engine := Some (Kernel ?k), ct_engineType := ''kernel''\<rparr>"
  have "plain_policy (if_PolicyRoutes zero_interface)" by code_simp
  then have "\<forall>i \<in> ran (map_of (ke_managed ?k)). plain_policy (if_PolicyRoutes i)" by simp
  from reply_without_data_clears_the_node[OF silent_sys_links _ _ _ _ this, of serving_libs ?c "init_host [''eth0'', ''wg0'']"
      "ok_reply\<lparr>rnum := 200\<rparr>"]
  have "ran (name_links (world (after (controller_sync serving_libs silent_sys ?c) (init_host [''eth0'', ''wg0'']))))
      = ran (name_links [''eth0'', ''wg0'']) - {''wg0''}"
    by (simp add: Let_def succeeds_def serving_libs_def fresh_controller_def silent_sys_def range_order_id)
  then show ?thesis unfolding Let_def by (auto simp: ran_name_links)
qed

end
