(* ===== verification/NodeLinks.thy ===== *)
theory NodeLinks
  imports ControllerFacts OverlayConfined ExtrasEffects
begin

text \<open>
  The links of the node through a whole heartbeat: the engine, the overlay links, forwarding and the
  custom entries all run in one synchronisation, and together they leave the node with exactly the
  interfaces the panel wants and with every foreign link.
\<close>

section \<open>From the calls of a program to what it leaves alone\<close>

text \<open>
  The world of a program that acts through calls only (it keeps every condition that its calls keep) is
  changed by those calls alone.
\<close>

lemma confined_leaves:
  fixes m :: "('w, 'm, 'a) prog"
  assumes "\<And>J. steady S J \<Longrightarrow> keeps_calm J m" "emits Q m" "\<And>c w. Q c \<Longrightarrow> g (snd (S c w)) = g w"
  shows "leaves g m"
  unfolding leaves_def
proof
  fix h :: "('w, 'm) host_scheme"
  let ?J = "\<lambda>w t. \<exists>cs. t = trace h @ cs \<and> (list_all Q cs \<longrightarrow> g w = g (world h))"
  have "steady S ?J"
    unfolding steady_def
  proof (intro allI impI)
    fix c w t assume "?J w t"
    then obtain cs where "t = trace h @ cs" "list_all Q cs \<longrightarrow> g w = g (world h)" by blast
    then show "?J (snd (S c w)) (t @ [c])" using assms(3) by (intro exI[of _ "cs @ [c]"]) simp
  qed
  from keepsD[OF assms(1)[OF this], of h] obtain cs
    where "trace (after m h) = trace h @ cs" "list_all Q cs \<longrightarrow> g (world (after m h)) = g (world h)" by auto
  with emits_trace[OF assms(2), of h] emits_calls[OF assms(2), of h]
  show "g (world (after m h)) = g (world h)" by simp
qed

section \<open>The overlay and the custom entries\<close>

text \<open>
  What the manual pages of \<open>ip link\<close>, \<open>ip tunnel\<close> and \<open>ip address\<close> say of the links: a command acts on
  the link it names, and showing links or setting addresses creates and deletes none.
\<close>

definition ip_link_ok :: "'w sys \<Rightarrow> ('w \<Rightarrow> links) \<Rightarrow> bool" where
  "ip_link_ok S N \<longleftrightarrow>
     (\<forall>w object verb n rest. (object = ''link'' \<and> verb \<in> {''add'', ''del'', ''set''} \<or> object = ''tunnel'' \<and> verb = ''add'')
        \<longrightarrow> ran (N (snd (S (Exec ''ip'' (object # verb # n # rest)) w))) - {n} = ran (N w) - {n})
   \<and> (\<forall>w opt rest. opt \<in> {''addr'', ''-d'', ''-4''} \<longrightarrow> N (snd (S (Exec ''ip'' (opt # rest)) w)) = N w)"

text \<open>The links that are not overlay links of the given names.\<close>

definition outside :: "string set \<Rightarrow> links \<Rightarrow> string set" where
  "outside X N = ran N - X"

lemma outside_link_command:
  assumes "ip_link_ok S N" "n \<in> X"
  shows "verb \<in> {''add'', ''del'', ''set''}
     \<Longrightarrow> outside X (N (snd (S (Exec ''ip'' (''link'' # verb # n # rest)) w))) = outside X (N w)"
    and "outside X (N (snd (S (Exec ''ip'' (''tunnel'' # ''add'' # n # rest)) w))) = outside X (N w)"
proof -
  have del: "A - {n} = B - {n} \<Longrightarrow> A - X = B - X" for A B :: "string set" using assms(2) by blast
  show "outside X (N (snd (S (Exec ''ip'' (''link'' # verb # n # rest)) w))) = outside X (N w)"
    if "verb \<in> {''add'', ''del'', ''set''}"
    unfolding outside_def by (rule del) (use assms(1) that in \<open>simp add: ip_link_ok_def\<close>)
  show "outside X (N (snd (S (Exec ''ip'' (''tunnel'' # ''add'' # n # rest)) w))) = outside X (N w)"
    unfolding outside_def by (rule del) (use assms(1) in \<open>simp add: ip_link_ok_def\<close>)
qed

lemma outside_create:
  assumes "ip_link_ok S N" "cfg_Name c \<in> X"
  shows "outside X (N (snd (S (Exec ''ip'' (addArgs c)) w))) = outside X (N w)"
  by (simp add: addArgs_def Let_def outside_link_command[OF assms])

lemma outside_still: "netlink_ok S N \<Longrightarrow> \<not> changes_links cl \<Longrightarrow> outside X (N (snd (S cl w))) = outside X (N w)"
  by (simp add: netlink_ok_def)

lemma outside_shown:
  "ip_link_ok S N \<Longrightarrow> opt \<in> {''addr'', ''-d'', ''-4''} \<Longrightarrow> outside X (N (snd (S (Exec ''ip'' (opt # rest)) w))) = outside X (N w)"
  unfolding ip_link_ok_def by metis

lemma sync_call_outside:
  assumes "netlink_ok S N" "ip_link_ok S N" "link_names prev \<union> link_names next \<subseteq> X" "sync_call prev next cl"
  shows "outside X (N (snd (S cl w))) = outside X (N w)"
proof -
  have named: "cfg_Name c \<in> X" if "c \<in> set next" "applicable c" for c
  proof -
    have "cfg_Name c \<in> link_names next" using that by (auto simp: link_names_iff applicable_def split: if_splits)
    with assms(3) show ?thesis by blast
  qed
  show ?thesis
    using assms(4)
  proof cases
    case (look n args)
    then show ?thesis by (auto simp: outside_shown[OF assms(2)])
  next
    case (remove_link n)
    then have "n \<in> X" using assms(3) by blast
    with remove_link show ?thesis by (simp add: outside_link_command(1)[OF assms(2)])
  next
    case (rebuild_link c)
    with named[of c] show ?thesis by (simp add: outside_link_command(1)[OF assms(2)])
  next
    case (create_link c)
    with named[of c] show ?thesis by (simp add: outside_create[OF assms(2)])
  next
    case (link_up c)
    with named[of c] show ?thesis by (simp add: outside_link_command(1)[OF assms(2)])
  next
    case (link_size c)
    with named[of c] show ?thesis by (simp add: outside_link_command(1)[OF assms(2)])
  next
    case (flush_addr c)
    then show ?thesis by (simp add: outside_shown[OF assms(2)])
  next
    case (add_addr c)
    then show ?thesis by (simp add: outside_shown[OF assms(2)])
  qed (simp_all add: outside_still[OF assms(1)] routeArgs_def routeDelArgs_def)
qed

lemma overlay_outside:
  assumes "netlink_ok S N" "ip_link_ok S N" "range_order ord" "link_names prev \<union> link_names next \<subseteq> X"
  shows "leaves (\<lambda>w. outside X (N w)) (overlay_Reconcile S ord prev next)"
proof (rule confined_leaves[where S = S])
  show "emits (sync_call prev next) (overlay_Reconcile S ord prev next)" by (rule emits_overlay[OF assms(3)])
qed (simp_all add: calm_overlay steady_calm sync_call_outside[OF assms(1,2,4)])

lemma take_2_hd: "take 2 args = [a, b] \<Longrightarrow> hd args = a" for args :: "string list"
  by (cases args) auto

lemma extras_call_still: "extras_call cl \<Longrightarrow> \<not> changes_links cl"
  by (auto simp: extras_call_def dest: take_2_hd)

lemma extras_still:
  assumes "netlink_ok S N"
  shows "leaves N (extras_Reconcile S prev next)"
proof (rule confined_leaves[OF _ emits_extras_Reconcile])
  show "keeps_calm J (extras_Reconcile S prev next)" if "steady S J" for J
    by (rule calm_extras(1)[OF steady_calm[OF that]])
  show "N (snd (S c w)) = N w" if "extras_call c" for c w
    using extras_call_still[OF that] assms by (simp add: netlink_ok_def)
qed

lemma ensureExtras_still: "netlink_ok S N \<Longrightarrow> leaves N (ensureExtras S is m)"
  by (induction "is" arbitrary: m) (auto simp: Let_def intro!: leaves_intros extras_still)

lemma ensureNAT_still: "netlink_ok S N \<Longrightarrow> leaves N (ensureNAT S ifaces)"
  unfolding ensureNAT_def by (intro leaves_intros still_NAT)

lemma Sync_still: "netlink_ok S N \<Longrightarrow> leaves N (Sync J S c)"
  unfolding Sync_def client_do_def do_request_def
  by (intro leaves_intros netlink_still) (simp_all)

section \<open>One synchronisation\<close>

text \<open>The names of the links a controller manages, and their configurations.\<close>

definition managed_by :: "controller \<Rightarrow> interfaces" where
  "managed_by c = (case ct_engine c of Some (Kernel k) \<Rightarrow> ke_managed k | _ \<Rightarrow> [])"

lemma leaves_outside: "leaves N m \<Longrightarrow> leaves (\<lambda>w. outside X (N w)) m"
  by (simp add: leaves_def)

lemma after_engine_kernel:
  "after (engine_Apply E S ifaces (Kernel k)) h
   = after (kernel_Apply (en_wg E) S (en_managed_order E) (en_peers_order E) ifaces k) h"
  by (simp add: engine_Apply_def after_bind split_beta del: run_state_bind)

lemma engine_links:
  assumes "netlink_ok S N" "links_accept S" "range_order (en_managed_order E)"
    and "wf_controller c" "ct_engineType c \<noteq> ''singbox''" "ty \<noteq> ''singbox''"
    and "\<forall>i \<in> set ifaces \<union> ran (map_of (managed_by c)). plain_policy (if_PolicyRoutes i)"
  shows "(let c1 = result (ensureEngine E S ty c) h; h1 = after (ensureEngine E S ty c) h
     in ran (N (world (after (engine_Apply E S ifaces (the (ct_engine c1))) h1)))
        = ran (N (world h)) - (dom (map_of (managed_by c)) - if_Name ` set ifaces) \<union> if_Name ` set ifaces)"
proof -
  note apply_links = kernel_Apply_links[OF assms(1-3)]
  have kernel: "Build (type_of ty) sb = Kernel NewKernelEngine" for sb
    using assms(6) by (auto simp: Build_def type_of_def)
  show ?thesis
  proof (cases "ct_engine c")
    case None
    then show ?thesis
      using apply_links[of ifaces NewKernelEngine] assms(7) kernel
      by (simp add: ensureEngine_def type_of_def[symmetric] Let_def after_engine_kernel managed_by_def NewKernelEngine_def)
  next
    case (Some e)
    with assms(4,5) obtain k where k: "ct_engine c = Some (Kernel k)"
      by (cases e) (simp_all add: wf_controller_def)
    then have plain: "\<forall>i \<in> set ifaces \<union> ran (map_of (ke_managed k)). plain_policy (if_PolicyRoutes i)"
      using assms(7) by (simp add: managed_by_def)
    show ?thesis
    proof (cases "type_of ty = ct_engineType c")
      case True
      then show ?thesis
        using k apply_links[OF plain]
        by (simp add: ensureEngine_def type_of_def[symmetric] Let_def after_engine_kernel managed_by_def)
    next
      case False
      have "\<forall>i \<in> set [] \<union> ran (map_of (ke_managed k)). plain_policy (if_PolicyRoutes i)" using plain by simp
      from apply_links[OF this] have "ran (N (world (after (ensureEngine E S ty c) h)))
          = ran (N (world h)) - dom (map_of (ke_managed k))"
        using k False
        by (simp add: ensureEngine_def type_of_def[symmetric] Let_def after_bind split_beta after_engine_kernel
            engine_Close_def kernel_engine_result kernel_Close_def del: run_state_bind)
      moreover have "the (ct_engine (result (ensureEngine E S ty c) h)) = Kernel NewKernelEngine"
        using k False kernel
        by (simp add: ensureEngine_def type_of_def[symmetric] Let_def result_bind del: run_state_bind)
      moreover have "ran (N (world (after (kernel_Apply (en_wg E) S (en_managed_order E) (en_peers_order E) ifaces NewKernelEngine) g)))
          = ran (N (world g)) \<union> if_Name ` set ifaces" for g :: "('a, 'b) host_scheme"
        using apply_links[of ifaces NewKernelEngine] plain by (simp add: NewKernelEngine_def)
      moreover have "A - (B - W) \<union> W = A - B \<union> W" for A B W :: "string set" by blast
      ultimately show ?thesis using k by (simp add: Let_def after_engine_kernel managed_by_def)
    qed
  qed
qed

lemma converge_outside:
  assumes "netlink_ok S N" "links_accept S" "range_order (en_managed_order E)"
    and "ip_link_ok S N" "range_order (en_links_order E)"
    and "wf_controller c" "ct_engineType c \<noteq> ''singbox''" "sr_Engine resp \<noteq> ''singbox''"
    and "\<forall>i \<in> set (map toEngineInterface (sr_Interfaces resp)) \<union> ran (map_of (managed_by c)). plain_policy (if_PolicyRoutes i)"
    and "link_names (ct_vxlan c) \<union> link_names (overlayConfigs (sr_Interfaces resp)) \<subseteq> X"
  shows "outside X (N (world (after (converge E S resp c) h)))
    = (ran (N (world h)) - (dom (map_of (managed_by c)) - if_Name ` set (map toEngineInterface (sr_Interfaces resp)))
        \<union> if_Name ` set (map toEngineInterface (sr_Interfaces resp))) - X"
proof -
  let ?new = "map toEngineInterface (sr_Interfaces resp)"
  let ?c1 = "result (ensureEngine E S (sr_Engine resp) c) h" and ?h1 = "after (ensureEngine E S (sr_Engine resp) c) h"
  let ?h2 = "after (engine_Apply E S ?new (the (ct_engine ?c1))) ?h1"
  note still = overlay_outside[OF assms(1,4,5,10)] leaves_outside[OF ensureNAT_still[OF assms(1)]]
    leaves_outside[OF ensureExtras_still[OF assms(1)]]
  have "outside X (N (world (after (converge E S resp c) h))) = outside X (N (world ?h2))"
    unfolding converge_def Let_def
    by (subst after_bind) (rule leaves_then[where g = "\<lambda>w. outside X (N w)"], intro leaves_intros still)
  with engine_links[OF assms(1-3,6-9), of h] show ?thesis
    by (simp add: Let_def outside_def)
qed

text \<open>
  C1. The links of the node follow the panel. A heartbeat at a revision the controller does not know
  leaves the node, the overlay links apart, with all the links it had but the managed ones that are no
  longer wanted, and with every wanted interface; the controller then manages exactly the wanted ones.
  At the known revision no link changes. The engine, the overlay links, forwarding and the custom
  entries run in between, and whatever else fails on the way does not matter. The host accepts adding
  and deleting links, the panel answers, and lines of policy routes that call \<open>ip\<close> are
  \<open>ip route\<close> and \<open>ip rule\<close> lines.
\<close>
theorem node_links_follow_panel:
  assumes "netlink_ok S N" and "links_accept S" and "ip_link_ok S N"
    and "range_order (en_managed_order E)" and "range_order (en_links_order E)"
    and "panel_serves (en_json E) S (ct_client c) R D" and "fst (D (world h)) \<noteq> ''singbox''"
    and "wf_controller c" and "ct_engineType c \<noteq> ''singbox''"
    and "\<forall>i \<in> toEngineInterface ` set (snd (D (world h))) \<union> ran (map_of (managed_by c)). plain_policy (if_PolicyRoutes i)"
  shows "(let wanted = pi_Name ` set (snd (D (world h))); managed = dom (map_of (managed_by c));
              overlay = link_names (ct_vxlan c) \<union> link_names (overlayConfigs (snd (D (world h))));
              c' = snd (result (heartbeatTick E S force c) h); h' = after (heartbeatTick E S force c) h
    in if force \<or> \<not> ct_revKnown c \<or> ct_revision c \<noteq> R (world h)
       then ran (N (world h')) - overlay = (ran (N (world h)) - (managed - wanted) \<union> wanted) - overlay
         \<and> dom (map_of (managed_by c')) = wanted
       else N (world h') = N (world h) \<and> c' = c)"
proof (cases "force \<or> \<not> ct_revKnown c \<or> ct_revision c \<noteq> R (world h)")
  case True
  let ?new = "snd (D (world h))"
  let ?resp = "\<lparr>sr_ConfigRevision = R (world h), sr_Engine = fst (D (world h)), sr_Interfaces = ?new\<rparr>"
  obtain g body where g: "R (world g) = R (world h)" "D (world g) = D (world h)"
      "g = after (do_call S (heartbeat_call (ct_client c) body)) h\<lparr>su_upgradeErr := []\<rparr>"
    and tick: "run_state (heartbeatTick E S force c) h
      = ((Returned nil, result (controller_sync E S c) g), after (controller_sync E S c) g)"
    using syncing_tick[OF assms(6) True] by blast
  let ?h1 = "after (Sync (en_json E) S (ct_client c)) g"
  have beat: "N (world (after (do_call S (heartbeat_call (ct_client c) body)) h)) = N (world h)"
    by (rule leavesD[OF netlink_still[OF assms(1)]]) simp
  then have "N (world g) = N (world h)" by (simp add: g(3))
  then have N1: "N (world ?h1) = N (world h)" by (simp add: leavesD[OF Sync_still[OF assms(1)]])
  have "result (Sync (en_json E) S (ct_client c)) g = Inr ?resp"
    using Sync_answered[OF assms(6), of g] g by simp
  then have sync: "run_state (controller_sync E S c) g = run_state (converge E S ?resp c) ?h1"
    by (simp add: controller_sync_def split_beta)
  have names: "if_Name ` set (map toEngineInterface ?new) = pi_Name ` set ?new"
    by (simp add: image_image toEngineInterface_def)
  have "outside (link_names (ct_vxlan c) \<union> link_names (overlayConfigs ?new)) (N (world (after (converge E S ?resp c) ?h1)))
      = (ran (N (world h)) - (dom (map_of (managed_by c)) - pi_Name ` set ?new) \<union> pi_Name ` set ?new)
        - (link_names (ct_vxlan c) \<union> link_names (overlayConfigs ?new))"
    using converge_outside[OF assms(1,2,4,3,5,8,9), of ?resp "link_names (ct_vxlan c) \<union> link_names (overlayConfigs ?new)" ?h1]
      assms(7,10) N1 names by simp
  moreover have "dom (map_of (managed_by (result (converge E S ?resp c) ?h1))) = pi_Name ` set ?new"
  proof -
    obtain m where "result (converge E S ?resp c) ?h1 = c\<lparr>ct_engineType := type_of (sr_Engine ?resp),
        ct_engine := Some (Kernel \<lparr>ke_managed = wanted_map (map toEngineInterface (sr_Interfaces ?resp))\<rparr>),
        ct_vxlan := overlayConfigs (sr_Interfaces ?resp), ct_extras := m,
        ct_revision := sr_ConfigRevision ?resp, ct_revKnown := True,
        ct_desired := map toEngineInterface (sr_Interfaces ?resp)\<rparr>"
      using converge_result[OF assms(8), of ?resp E S ?h1] assms(7) by auto
    moreover have "dom (map_of (wanted_map (map toEngineInterface ?new))) = pi_Name ` set ?new"
      by (simp only: dom_wanted_map names)
    ultimately show ?thesis by (simp add: managed_by_def)
  qed
  ultimately show ?thesis using True tick sync by (simp add: Let_def outside_def)
next
  case False
  then obtain body where "run_state (heartbeatTick E S force c) h
    = ((Returned nil, c), after (do_call S (heartbeat_call (ct_client c) body)) h\<lparr>su_upgradeErr := []\<rparr>)"
    using quiet_tick[OF assms(6), of force h] by auto
  moreover have "N (world (after (do_call S (heartbeat_call (ct_client c) body)) h)) = N (world h)"
    by (rule leavesD[OF netlink_still[OF assms(1)]]) simp
  ultimately show ?thesis using False by simp
qed

text \<open>A host with links, and a panel that wants one interface.\<close>

definition wire_sys :: "string list sys" where
  "wire_sys c w = (case c of
     HttpPanel meth url headers body \<Rightarrow> (ok_reply\<lparr>rnum := 200, rout := ''x''\<rparr>, w)
   | Exec name args \<Rightarrow>
       (ok_reply,
        if name = ''ip'' \<and> length args \<ge> 3 \<and> take 2 args = [''link'', ''del''] then filter (\<lambda>n. n \<noteq> args ! 2) w
        else if name = ''ip'' \<and> length args \<ge> 3 \<and> take 2 args \<in> {[''link'', ''add''], [''tunnel'', ''add'']} then args ! 2 # w
        else w)
   | _ \<Rightarrow> name_sys c w)"

lemma wire_sys_links: "netlink_ok wire_sys name_links" "links_accept wire_sys" "ip_link_ok wire_sys name_links"
proof -
  have still: "snd (wire_sys c w) = w" if "\<not> changes_links c" for c w
  proof (cases c)
    case (Exec name args)
    then show ?thesis using that by (auto simp: wire_sys_def dest: take_2_hd)
  qed (use that name_sys_other[of c w] in \<open>simp_all add: wire_sys_def\<close>)
  have same: "wire_sys (LinkByName n) w = name_sys (LinkByName n) w"
      "wire_sys (LinkAdd n m) w = name_sys (LinkAdd n m) w" "wire_sys (LinkDel l) w = name_sys (LinkDel l) w" for n m l w
    by (simp_all add: wire_sys_def)
  show "netlink_ok wire_sys name_links"
    using name_netlink_ok still unfolding netlink_ok_def same by simp
  show "links_accept wire_sys" by (simp add: links_accept_def same)
  show "ip_link_ok wire_sys name_links"
    unfolding ip_link_ok_def by (auto simp: wire_sys_def ran_name_links)
qed

theorem node_links_follow_panel_witness:
  "(let c = (fresh_controller ''https://p'')\<lparr>ct_engine := Some (Kernel \<lparr>ke_managed = [(''old'', zero_interface)]\<rparr>),
          ct_engineType := ''kernel'', ct_vxlan := []\<rparr>
    in ran (name_links (world (after (heartbeatTick serving_libs wire_sys True c) (init_host [''eth0'', ''old'']))))
       = {''eth0'', ''wg0''})"
proof -
  let ?c = "(fresh_controller ''https://p'')\<lparr>ct_engine := Some (Kernel \<lparr>ke_managed = [(''old'', zero_interface)]\<rparr>),
          ct_engineType := ''kernel'', ct_vxlan := []\<rparr>"
  have "plain_policy []" by code_simp
  then have plain: "\<forall>i \<in> toEngineInterface ` set [wanted_wg0] \<union> ran (map_of (managed_by ?c)). plain_policy (if_PolicyRoutes i)"
    by (simp add: managed_by_def zero_interface_def toEngineInterface_def wanted_wg0_def)
  have panel: "panel_serves (en_json serving_libs) wire_sys (ct_client ?c) (\<lambda>w. 3) (\<lambda>w. ([], [wanted_wg0]))"
    by (simp add: panel_serves_def succeeds_def serving_libs_def) (simp add: wire_sys_def)
  have orders: "range_order (en_managed_order serving_libs)" "range_order (en_links_order serving_libs)"
    by (simp_all add: serving_libs_def range_order_id)
  have "overlayConfigs [wanted_wg0] = []" by (simp add: overlayConfigs_def tunnels_of_def wanted_wg0_def)
  then show ?thesis
    using node_links_follow_panel[OF wire_sys_links(1,2,3) orders panel, where h = "init_host [''eth0'', ''old'']" and force = True] plain
    by (auto simp: Let_def wf_controller_def fresh_controller_def ran_name_links link_names_def managed_by_def wanted_wg0_def)
qed

end
