(* ===== verification/ControllerRetries.thy ===== *)
theory ControllerRetries
  imports ControllerFacts
begin

text \<open>
  What a controller does when converging fails, and what it forgets. With the sing-box engine the
  revision of the panel counts as applied only once a process was started on the rendered configuration;
  until then every heartbeat asks for the wanted state again, and after that none does, even when the
  process has died. The custom entries of an interface that is no longer wanted stay.
\<close>

section \<open>The sing-box engine under failures\<close>







section \<open>One synchronisation\<close>







section \<open>Heartbeats\<close>

abbreviation sync_call :: "client \<Rightarrow> call" where
  "sync_call cl \<equiv> HttpPanel ''GET'' (cli_apiHost cl @ ''/api/v1/node/sync'') (request_headers cl False) None"


text \<open>The history has grown from \<open>t\<close>, by at least \<open>n\<close> requests for the wanted state.\<close>

definition asked :: "client \<Rightarrow> call list \<Rightarrow> nat \<Rightarrow> call list \<Rightarrow> bool" where
  "asked cl t n t' \<longleftrightarrow> (\<exists>cs. t' = t @ cs \<and> n \<le> count_list cs (sync_call cl))"

lemma asked_zero [simp]: "asked cl t 0 t"
  by (simp add: asked_def)













section \<open>Entries of an interface that is no longer wanted\<close>

lemma ensureExtras_elsewhere:
  fixes h :: "('w, 'm) host_scheme"
  shows "n \<notin> set (map if_Name is) \<Longrightarrow> run_state (ensureExtras S is (m(n := x))) h
    = ((result (ensureExtras S is m) h)(n := x), after (ensureExtras S is m) h)"
proof (induction "is" arbitrary: m h)
  case (Cons i "is")
  have n: "n \<noteq> if_Name i" and twist: "m(n := x, if_Name i \<mapsto> if_Extras i) = (m(if_Name i \<mapsto> if_Extras i))(n := x)"
    using Cons.prems by (auto simp: fun_upd_twist)
  have IH: "run_state (ensureExtras S is (k(n := x))) g = ((result (ensureExtras S is k) g)(n := x), after (ensureExtras S is k) g)" for k and g :: "('w, 'm) host_scheme"
    by (rule Cons.IH) (use Cons.prems in simp)
  show ?case
    using n by (simp add: Let_def twist IH fun_upd_other result_bind after_bind split_beta prod_eq_iff del: fun_upd_apply run_state_bind)
qed simp

lemma ensureEngine_extras:
  "run_state (ensureEngine E S ty (c\<lparr>ct_extras := m\<rparr>)) h
    = ((result (ensureEngine E S ty c) h)\<lparr>ct_extras := m\<rparr>, after (ensureEngine E S ty c) h)"
  by (auto simp: ensureEngine_def Let_def split_beta)

lemma ensureEngine_keeps_extras: "ct_extras (result (ensureEngine E S ty c) h) = ct_extras c"
  by (auto simp: ensureEngine_def Let_def result_bind split_beta simp del: run_state_bind)

text \<open>
  C40. The custom routes, rules and NAT entries of an interface that the panel no longer wants are not
  removed: what the controller remembers of them makes no difference to what a synchronisation does to
  the host, and it is remembered until the panel wants the interface again.
\<close>
theorem vanished_entries_are_forgotten:
  assumes "n \<notin> set (map pi_Name (sr_Interfaces resp))"
  shows "after (converge E S resp (c\<lparr>ct_extras := (ct_extras c)(n := x)\<rparr>)) h = after (converge E S resp c) h
    \<and> ct_extras (result (converge E S resp (c\<lparr>ct_extras := (ct_extras c)(n := x)\<rparr>)) h) n = x"
proof -
  have "n \<notin> set (map if_Name (map toEngineInterface (sr_Interfaces resp)))"
    using assms by (auto simp: toEngineInterface_def)
  note parts = ensureExtras_elsewhere[OF this] ensureEngine_extras ensureEngine_keeps_extras
  show ?thesis
    by (auto simp: converge_def Let_def parts split_beta split: option.splits)
qed

theorem vanished_entries_are_forgotten_witness:
  "(let c = fresh_controller ''https://p''; x = \<lparr>ex_Routes = [''10.9.0.0/16 via 10.0.0.1''], ex_Rules = [], ex_NAT = []\<rparr>;
        run = converge serving_libs serving_sys zero_sync (c\<lparr>ct_extras := (ct_extras c)(''wg0'' := Some x)\<rparr>)
    in after run (init_host ()) = after (converge serving_libs serving_sys zero_sync c) (init_host ())
     \<and> ct_extras (result run (init_host ())) ''wg0'' = Some x)"
  unfolding Let_def by (rule vanished_entries_are_forgotten) (simp add: zero_sync_def)

end
