(* ===== verification/Agent.thy ===== *)
theory Agent
  imports Commands Controller
begin

text \<open>
  \<open>src/main.go\<close>: how the agent starts. The parsed command line is an argument. The goroutines that run
  the controllers and \<open>selfupdate.Watch\<close> are started at the end of \<open>main_start\<close>; their steps are the
  operations of \<open>Controller\<close> and \<open>SelfUpdate\<close>. Log output is left out.
\<close>

definition singboxConfig :: "config \<Rightarrow> uint \<Rightarrow> singbox_config" where
  "singboxConfig cfg nodeID =
     (let sb = ec_Singbox (cf_Engine cfg)
      in \<lparr>sc_BinPath = so_BinPath sb,
          sc_ConfigPath = (if so_ConfigPath sb = []
            then ''/etc/exnode/sing-box-node'' @ uint_str nodeID @ ''.json'' else so_ConfigPath sb),
          sc_System = so_System sb, sc_LogLevel = so_LogLevel sb\<rparr>)"

definition defaultKey :: string where "defaultKey = ''exnodeKey-1123123''"

record flags =
  fg_config :: string
  fg_key :: string
  fg_encrypt :: bool
  fg_decrypt :: bool
  fg_version :: bool

datatype main_end =
    Exited
  | EncryptFatal command_error
  | DecryptFatal command_error
  | LoadFatal conf_error
  | Adopted
  | Serving "controller list"

definition newline :: string where "newline = [CHR 0x0A]"

definition print_version :: "'w sys \<Rightarrow> string \<Rightarrow> ('w, 'm, main_end) prog" where
  "print_version S version = do {
     _ \<leftarrow> do_call S (Stdout (version @ newline));
     x \<leftarrow> do_call S Executable;
     (if rerr x = nil then do { _ \<leftarrow> do_call S (Stdout (''path: '' @ rout x @ newline)); State_Monad.return () }
      else State_Monad.return ());
     State_Monad.return Exited }"

definition choose_passphrase :: "'w sys \<Rightarrow> string \<Rightarrow> ('w, 'm, string) prog" where
  "choose_passphrase S key =
     (if key \<noteq> [] then State_Monad.return key
      else do {
        k \<leftarrow> do_call S (Getenv ''EXNODE_KEY'');
        State_Monad.return (if rout k = [] then defaultKey else rout k) })"

fun new_controllers ::
  "'w sys \<Rightarrow> config \<Rightarrow> string \<Rightarrow> string \<Rightarrow> panel_config list \<Rightarrow> ('w, 'm, controller list) prog" where
  "new_controllers S cfg version osName [] = State_Monad.return []"
| "new_controllers S cfg version osName (p # ps) = do {
     c \<leftarrow> NewController S p (singboxConfig cfg (pn_NodeID p)) version osName;
     cs \<leftarrow> new_controllers S cfg version osName ps;
     State_Monad.return (c # cs) }"

definition serve ::
  "libs \<Rightarrow> 'w sys \<Rightarrow> string \<Rightarrow> config \<Rightarrow> ('w, 'm, main_end) prog" where
  "serve E S version cfg = do {
     a \<leftarrow> Adopt S version;
     (case a of
        Replaced \<Rightarrow> State_Monad.return Adopted
      | Returned e \<Rightarrow> do {
          cs \<leftarrow> new_controllers S cfg version (en_goos E) (cf_Nodes cfg);
          _ \<leftarrow> do_call S Executable;
          State_Monad.return (Serving cs) }) }"

definition main_start ::
  "crypto_lib \<Rightarrow> (string \<Rightarrow> config go_result) \<Rightarrow> libs \<Rightarrow> 'w sys \<Rightarrow> string \<Rightarrow> string list \<Rightarrow> flags
   \<Rightarrow> ('w, 'm, main_end) prog" where
  "main_start C Y E S version args fl =
     (if length args > 1 \<and> args ! 1 \<in> {''version'', ''v'', ''-v'', ''--version''} then print_version S version
      else if fg_version fl then do {
        _ \<leftarrow> do_call S (Stdout (version @ newline));
        State_Monad.return Exited }
      else do {
        passphrase \<leftarrow> choose_passphrase S (fg_key fl);
        if fg_encrypt fl then do {
          r \<leftarrow> encryptConfigFile C Y S (fg_config fl) passphrase;
          State_Monad.return (case r of Some e \<Rightarrow> EncryptFatal e | None \<Rightarrow> Exited) }
        else if fg_decrypt fl then do {
          r \<leftarrow> decryptConfigFile C S (fg_config fl) passphrase;
          (case r of
             Inl e \<Rightarrow> State_Monad.return (DecryptFatal e)
           | Inr yaml \<Rightarrow> do { _ \<leftarrow> do_call S (Stdout yaml); State_Monad.return Exited }) }
        else do {
          r \<leftarrow> LoadWithKey C Y S (fg_config fl) passphrase;
          (case r of
             Inl e \<Rightarrow> State_Monad.return (LoadFatal e)
           | Inr cfg \<Rightarrow> serve E S version cfg) } })"

end
