(* ===== verification/AgentFacts.thy ===== *)
theory AgentFacts
  imports Agent ConfFacts ControllerFacts
begin

text \<open>
  What the agent starts with: the controllers of a served agent are those of a complete configuration,
  one per panel and in its order.
\<close>

section \<open>A configuration that loads\<close>

lemma first_incomplete_None: "first_incomplete i ns = None \<longleftrightarrow> (\<forall>n \<in> set ns. complete n)"
  by (induction ns arbitrary: i) auto

lemma config_of_complete:
  assumes "config_of C Y key d = Inr cfg"
  shows "cf_Nodes cfg \<noteq> []" "\<forall>n \<in> set (cf_Nodes cfg). complete n"
proof -
  have "cf_Nodes cfg \<noteq> [] \<and> (\<forall>n \<in> set (cf_Nodes cfg). complete n)" if "parse_config Y yaml = Inr cfg" for yaml
    using that by (auto simp: parse_config_def first_incomplete_None split: sum.splits if_splits option.splits)
  then have "cf_Nodes cfg \<noteq> [] \<and> (\<forall>n \<in> set (cf_Nodes cfg). complete n)"
    using assms by (auto simp: config_of_def split: sum.splits if_splits)
  then show "cf_Nodes cfg \<noteq> []" "\<forall>n \<in> set (cf_Nodes cfg). complete n" by auto
qed

section \<open>Intervals and paths\<close>

text \<open>The product with the nanoseconds of a second is exact up to this many seconds.\<close>

definition max_seconds :: int where "max_seconds = 9223372036"

lemma of_seconds_exact:
  assumes "0 \<le> n" "n \<le> max_seconds"
  shows "of_seconds n = n * 1000000000"
proof -
  have "of_seconds n = sint (word_of_int (n * 1000000000) :: 64 word)" by (simp add: of_seconds_def)
  also have "\<dots> = n * 1000000000"
    unfolding sint_sbintrunc'
    by (rule signed_take_bit_int_eq_self) (use assms in \<open>simp_all add: max_seconds_def\<close>)
  finally show ?thesis .
qed

lemma intervals_positive:
  assumes "pn_HeartbeatSeconds p \<le> max_seconds" "pn_StatusSeconds p \<le> max_seconds"
  shows "0 < HeartbeatInterval p" "0 < StatusInterval p"
  using assms of_seconds_exact[of "pn_HeartbeatSeconds p"] of_seconds_exact[of "pn_StatusSeconds p"]
    of_seconds_exact[of 15] of_seconds_exact[of 20]
  by (auto simp: HeartbeatInterval_def StatusInterval_def max_seconds_def)

lemma config_paths:
  "sc_ConfigPath (singboxConfig cfg m) = sc_ConfigPath (singboxConfig cfg n)
   \<longleftrightarrow> so_ConfigPath (ec_Singbox (cf_Engine cfg)) \<noteq> [] \<or> m = n"
  by (simp add: singboxConfig_def uint_str_def nat_str_inject Let_def word_unat_eq_iff)

section \<open>The controllers\<close>

definition starts_as :: "config \<Rightarrow> panel_config \<Rightarrow> controller \<Rightarrow> bool" where
  "starts_as cfg p c \<longleftrightarrow>
     ct_client c = New (pn_ApiHost p) (pn_NodeID p) (pn_SecretKey p) (HTTPTimeout p)
   \<and> ct_singbox c = singboxConfig cfg (pn_NodeID p)
   \<and> ct_hbEvery c = HeartbeatInterval p \<and> ct_statEvery c = StatusInterval p
   \<and> ct_engine c = None \<and> \<not> ct_revKnown c \<and> ct_desired c = [] \<and> ct_vxlan c = [] \<and> ct_extras c = Map.empty"

lemma NewController_starts_as:
  "starts_as cfg p (result (NewController S p (singboxConfig cfg (pn_NodeID p)) version osName) h)"
  by (simp add: NewController_def starts_as_def result_bind del: run_state_bind)

lemma new_controllers_start:
  "list_all2 (starts_as cfg) ps (result (new_controllers S cfg version osName ps) h)"
  by (induction ps arbitrary: h) (simp_all add: result_bind NewController_starts_as del: run_state_bind)

lemma serve_Serving:
  "result (serve E S version cfg) h = Serving cs \<Longrightarrow> list_all2 (starts_as cfg) (cf_Nodes cfg) cs"
  using new_controllers_start[of cfg "cf_Nodes cfg" S version "en_goos E" "after (Adopt S version) h"]
  by (auto simp: serve_def result_bind simp del: run_state_bind split: outcome.splits)

lemma choose_passphrase_result:
  "result (choose_passphrase S key) h \<noteq> []" "key \<noteq> [] \<Longrightarrow> result (choose_passphrase S key) h = key"
  by (simp_all add: choose_passphrase_def defaultKey_def result_bind del: run_state_bind)

lemma choose_passphrase_still: "files_ok S F \<Longrightarrow> leaves F (choose_passphrase S key)"
  unfolding choose_passphrase_def by (intro leaves_intros files_still)

text \<open>What was true when the agent got as far as serving.\<close>

lemma main_start_Serving:
  assumes "result (main_start C Y E S version args fl) h = Serving cs"
  shows "\<not> fg_encrypt fl \<and> \<not> fg_decrypt fl \<and> \<not> fg_version fl
    \<and> (\<exists>cfg. result (LoadWithKey C Y S (fg_config fl) (result (choose_passphrase S (fg_key fl)) h))
          (after (choose_passphrase S (fg_key fl)) h) = Inr cfg
        \<and> list_all2 (starts_as cfg) (cf_Nodes cfg) cs)"
proof (cases "result (LoadWithKey C Y S (fg_config fl) (result (choose_passphrase S (fg_key fl)) h))
    (after (choose_passphrase S (fg_key fl)) h)")
  case (Inl e)
  then show ?thesis using assms
    by (auto simp: main_start_def print_version_def result_bind simp del: run_state_bind
        split: if_splits sum.splits option.splits)
next
  case (Inr cfg)
  then show ?thesis using assms
    by (auto simp: main_start_def print_version_def result_bind intro: serve_Serving simp del: run_state_bind
        split: if_splits sum.splits option.splits)
qed

text \<open>
  C39. An agent that gets as far as serving serves what its configuration says: neither a file command
  nor the version was asked for; the configuration file, decrypted with the given passphrase when there
  is one, decodes to a configuration in which every panel is complete; and there is one controller per
  panel, in its order, talking to that panel, without an engine or anything applied. No interval
  overflows up to 9223372036 seconds, so no controller panics. Two panels share the path of the rendered
  sing-box configuration exactly when a path is configured or their node ids are equal.
\<close>
theorem agent_serves_configuration:
  assumes "files_ok S F" and "no_config_in_env S"
    and "result (main_start C Y E S version args fl) h = Serving cs" and "F (world h) (fg_config fl) = Some d"
  shows "\<not> fg_encrypt fl \<and> \<not> fg_decrypt fl \<and> \<not> fg_version fl
    \<and> (\<exists>key cfg. key \<noteq> [] \<and> (fg_key fl = [] \<or> key = fg_key fl) \<and> config_of C Y key d = Inr cfg
      \<and> cf_Nodes cfg \<noteq> [] \<and> (\<forall>n \<in> set (cf_Nodes cfg). complete n)
      \<and> list_all2 (\<lambda>p c. starts_as cfg p c
           \<and> (pn_HeartbeatSeconds p \<le> max_seconds \<and> pn_StatusSeconds p \<le> max_seconds
              \<longrightarrow> 0 < ct_hbEvery c \<and> 0 < ct_statEvery c)) (cf_Nodes cfg) cs
      \<and> (\<forall>i < length cs. \<forall>j < length cs.
           sc_ConfigPath (ct_singbox (cs ! i)) = sc_ConfigPath (ct_singbox (cs ! j))
           \<longleftrightarrow> so_ConfigPath (ec_Singbox (cf_Engine cfg)) \<noteq> []
             \<or> pn_NodeID (cf_Nodes cfg ! i) = pn_NodeID (cf_Nodes cfg ! j)))"
proof -
  let ?key = "result (choose_passphrase S (fg_key fl)) h"
  from main_start_Serving[OF assms(3)] obtain cfg
    where flags: "\<not> fg_encrypt fl" "\<not> fg_decrypt fl" "\<not> fg_version fl"
      and load: "result (LoadWithKey C Y S (fg_config fl) ?key) (after (choose_passphrase S (fg_key fl)) h) = Inr cfg"
      and all: "list_all2 (starts_as cfg) (cf_Nodes cfg) cs" by blast
  have "F (world (after (choose_passphrase S (fg_key fl)) h)) (fg_config fl) = Some d"
    by (simp only: leavesD[OF choose_passphrase_still[OF assms(1)]] assms(4))
  from LoadWithKey_file[OF assms(1,2) this] load have cfg: "config_of C Y ?key d = Inr cfg" by simp
  have key: "?key \<noteq> []" "fg_key fl = [] \<or> ?key = fg_key fl"
    using choose_passphrase_result[where S = S and h = h and key = "fg_key fl"] by auto
  have timed: "list_all2 (\<lambda>p c. starts_as cfg p c
      \<and> (pn_HeartbeatSeconds p \<le> max_seconds \<and> pn_StatusSeconds p \<le> max_seconds
         \<longrightarrow> 0 < ct_hbEvery c \<and> 0 < ct_statEvery c)) (cf_Nodes cfg) cs"
    by (rule list_all2_mono[OF all]) (simp add: starts_as_def intervals_positive)
  have start: "starts_as cfg (cf_Nodes cfg ! k) (cs ! k)" if "k < length cs" for k
    using all that by (simp add: list_all2_conv_all_nth)
  have "sc_ConfigPath (ct_singbox (cs ! i)) = sc_ConfigPath (ct_singbox (cs ! j))
      \<longleftrightarrow> so_ConfigPath (ec_Singbox (cf_Engine cfg)) \<noteq> [] \<or> pn_NodeID (cf_Nodes cfg ! i) = pn_NodeID (cf_Nodes cfg ! j)"
    if "i < length cs" "j < length cs" for i j
    using start[OF that(1)] start[OF that(2)] by (simp add: starts_as_def config_paths)
  with flags key cfg config_of_complete[OF cfg] timed show ?thesis by blast
qed

text \<open>A host with one configuration file of one panel.\<close>

definition one_decoder :: "string \<Rightarrow> config go_result" where
  "one_decoder d = (if d = ''Nodes'' then Inr one_panel else Inl ''bad yaml'')"

definition plain_start :: flags where
  "plain_start = \<lparr>fg_config = ''c.yml'', fg_key = ''key'', fg_encrypt = False, fg_decrypt = False, fg_version = False\<rparr>"

lemma one_decoder_config: "config_of clear_crypto one_decoder key ''Nodes'' = Inr one_panel"
proof -
  have "\<not> IsEncrypted ''Nodes''" by code_simp
  moreover have "parse_config one_decoder ''Nodes'' = Inr one_panel"
    by (simp add: parse_config_def one_decoder_def one_panel_def complete_def)
  ultimately show ?thesis by (simp only: config_of_def if_False)
qed

lemma file_sys_files: "files_ok file_sys (\<lambda>w. w)" "no_config_in_env file_sys"
  by (auto simp: files_ok_def no_config_in_env_def split: option.splits)

lemma file_sys_serves:
  fixes h :: "(string \<Rightarrow> string option, 'm) host_scheme"
  assumes "world h ''c.yml'' = Some ''Nodes''"
  shows "\<exists>cs. result (main_start clear_crypto one_decoder serving_libs file_sys ''1.0'' [''exnode''] plain_start) h = Serving cs"
proof -
  have "result (LoadWithKey clear_crypto one_decoder file_sys ''c.yml'' ''key'') h = Inr one_panel"
    using LoadWithKey_file[OF file_sys_files, of h "''c.yml''"] assms one_decoder_config by simp
  moreover have "result (Adopt file_sys ''1.0'') g = Returned nil" for g :: "(string \<Rightarrow> string option, 'm) host_scheme"
    by (simp add: Adopt_def run_do_call)
  ultimately show ?thesis
    by (simp add: main_start_def plain_start_def choose_passphrase_def serve_def result_bind del: run_state_bind)
qed

theorem agent_serves_configuration_witness:
  "(case result (main_start clear_crypto one_decoder serving_libs file_sys ''1.0'' [''exnode''] plain_start)
        (init_host [''c.yml'' \<mapsto> ''Nodes'']) of
      Serving cs \<Rightarrow> length cs = 1 \<and> 0 < ct_hbEvery (hd cs) \<and> ct_engine (hd cs) = None
    | _ \<Rightarrow> False)"
proof -
  obtain cs where cs: "result (main_start clear_crypto one_decoder serving_libs file_sys ''1.0'' [''exnode''] plain_start)
      (init_host [''c.yml'' \<mapsto> ''Nodes'']) = Serving cs"
    using file_sys_serves[of "init_host [''c.yml'' \<mapsto> ''Nodes'']"] by auto
  have "world (init_host [''c.yml'' \<mapsto> ''Nodes'']) (fg_config plain_start) = Some ''Nodes''"
    by (simp add: plain_start_def)
  from agent_serves_configuration[where F = "\<lambda>w. w", OF file_sys_files cs this] obtain key cfg
    where cfg: "config_of clear_crypto one_decoder key ''Nodes'' = Inr cfg"
      and all: "list_all2 (\<lambda>p c. starts_as cfg p c
        \<and> (pn_HeartbeatSeconds p \<le> max_seconds \<and> pn_StatusSeconds p \<le> max_seconds
           \<longrightarrow> 0 < ct_hbEvery c \<and> 0 < ct_statEvery c)) (cf_Nodes cfg) cs" by blast
  from cfg have "cfg = one_panel" by (simp add: one_decoder_config)
  with all have "length cs = 1 \<and> 0 < ct_hbEvery (hd cs) \<and> ct_engine (hd cs) = None"
    by (auto simp: one_panel_def list_all2_Cons1 starts_as_def max_seconds_def)
  then show ?thesis by (simp only: cs main_end.case)
qed

end
