(* ===== verification/ControllerProcess.thy ===== *)
theory ControllerProcess
  imports ControllerFacts SelfUpdateFacts
begin

text \<open>
  The sing-box processes of a controller over its whole life: heartbeats, status reports, the
  watchdog, switches of the engine and the shutdown, with the processes ending at any time in between.
  \<open>P w\<close> is the set of the living processes the controller started, as in \<open>SingboxProcess\<close>.
\<close>

section \<open>The parts of a tick that start no process\<close>

lemma calm_upgrade:
  assumes "calm S J"
  shows "keeps_calm J (Maybe S goos goarch order current)"
proof -
  have call: "keeps_calm J (do_call S c)" if "\<not> starts_process c" for c
    by (rule calm_call[OF assms that])
  note intros = keeps_intros keeps_case_outcome call calm_get calm_update
  have enter: "keeps_calm J (enter_attempt S ver)" for ver
    unfolding enter_attempt_def by (intro intros) (simp_all add: starts_process_def)
  have upgrade: "keeps_calm J (selfUpgrade S goos goarch o')" for o'
    unfolding selfUpgrade_def download_def install_download_def discard_def checkExecutable_def
      assetURL_def Let_def
    by (intro intros) (simp_all add: starts_process_def)
  show ?thesis
    unfolding Maybe_def setUpgradeError_def by (intro intros enter upgrade) simp_all
qed

lemma calm_orders:
  assumes "calm S J"
  shows "keeps_calm J (obey_restart S resp)" "keeps_calm J (obey_upgrade E S resp current)"
  unfolding obey_restart_def obey_upgrade_def
  by (intro keeps_intros calm_upgrade[OF assms] calm_call[OF assms]; simp add: starts_process_def)+

lemma calm_pending: "keeps_calm J PendingError" "keeps_calm J ClearError"
  unfolding PendingError_def ClearError_def by (intro keeps_intros calm_get calm_update; simp)+

lemma calm_ensurePolicy: "calm S J \<Longrightarrow> keeps_calm J (EnsurePolicyRoutes S text)"
  unfolding EnsurePolicyRoutes_def applyPolicyLine_def policyLinePresent_def ipShow_def runPolicyLine_def ensure_each_def
    EnableForwarding_def
  by (intro keeps_intros calm_call calm_rules) (simp_all add: starts_process_def)

lemma calm_watchdog: "calm S J \<Longrightarrow> keeps_calm J (policyWatchdogTick S c)"
  unfolding policyWatchdogTick_def by (intro keeps_intros calm_ensurePolicy calm_extras)

lemma calm_engine_Stats: "calm S J \<Longrightarrow> keeps_calm J (engine_Stats E S e)"
  unfolding engine_Stats_def singbox_Stats_def by (intro keeps_engine keeps_intros calm_kernel)

lemma calm_status: "calm S J \<Longrightarrow> keeps_calm J (statusTick E S c)"
  unfolding statusTick_def by (intro keeps_intros calm_engine_Stats calm_requests)

section \<open>The contract of an engine\<close>

text \<open>
  \<open>datapath\<close> is the interface \<open>Engine\<close> of \<open>src/engine/engine.go\<close> as far as processes go: \<open>inv\<close> relates
  an engine to the world, \<open>idle\<close> says that nothing of an engine is left running. Both engines provide
  it on a host whose processes behave (\<open>host_processes\<close>), hence so does whichever is in use.
\<close>

locale datapath =
  fixes inv :: "'e \<Rightarrow> 'w \<Rightarrow> bool" and idle :: "'w \<Rightarrow> bool"
    and Apply :: "wg_interface list \<Rightarrow> 'e \<Rightarrow> ('w, 'm, 'r \<times> 'e) prog" and Close :: "'e \<Rightarrow> ('w, 'm, 'c) prog"
  assumes Apply_keeps: "inv e (world h)
      \<Longrightarrow> inv (snd (result (Apply ifaces e) h)) (world (after (Apply ifaces e) h))"
    and Close_ends: "inv e (world h) \<Longrightarrow> idle (world (after (Close e) h))"
begin

text \<open>Taking an engine out of use: its interfaces are removed, then it is closed.\<close>

lemma retire_ends:
  "inv e (world h) \<Longrightarrow> idle (world (after (Close (snd (result (Apply [] e) h))) (after (Apply [] e) h)))"
  by (rule Close_ends[OF Apply_keeps])

end

locale host_processes =
  fixes S :: "'w sys" and P :: "'w \<Rightarrow> int set"
  assumes processes: "processes_ok S P"

definition engine_held :: "('w \<Rightarrow> int set) \<Rightarrow> engine option \<Rightarrow> 'w \<Rightarrow> bool" where
  "engine_held P x w \<longleftrightarrow> (case x of Some (Singbox b) \<Rightarrow> held P b w | _ \<Rightarrow> P w = {})"

lemma kernel_starts_none: "processes_ok S P \<Longrightarrow> starts_none P (kernel_Apply L S mord pord ifaces k)"
  by (intro allI calm_kernel calm_processes)

sublocale host_processes \<subseteq> kernel: datapath "\<lambda>_ w. P w = {}" "\<lambda>w. P w = {}" "kernel_Apply L S mord pord" kernel_Close
  for L mord pord
proof unfold_locales
  fix e h ifaces
  show "P (world h) = {} \<Longrightarrow> P (world (after (kernel_Apply L S mord pord ifaces e) h)) = {}"
    using starts_noneD[OF kernel_starts_none[OF processes]] by blast
qed (simp add: kernel_Close_def)

sublocale host_processes \<subseteq> singbox: datapath "held P" "\<lambda>w. P w = {}"
    "singbox_Apply A S goos goarch word mord" "singbox_Close S mord"
  for A goos goarch word mord
  by unfold_locales (rule held_Apply[OF processes] held_Close[OF processes]; assumption)+

context host_processes
begin

lemma used_Apply:
  "engine_held P (Some e) (world h)
   \<Longrightarrow> engine_held P (Some (snd (result (engine_Apply E S ifaces e) h))) (world (after (engine_Apply E S ifaces e) h))"
  by (cases e) (simp_all add: engine_Apply_def engine_held_def result_bind after_bind split_beta
      kernel.Apply_keeps singbox.Apply_keeps del: run_state_bind)

lemma used_Close: "engine_held P (Some e) (world h) \<Longrightarrow> P (world (after (engine_Close E S e) h)) = {}"
  by (cases e) (simp_all add: engine_Close_def engine_held_def after_bind split_beta
      kernel.Close_ends singbox.Close_ends del: run_state_bind)

end

sublocale host_processes \<subseteq> used: datapath "\<lambda>e. engine_held P (Some e)" "\<lambda>w. P w = {}" "engine_Apply E S" "engine_Close E S"
  for E
  by unfold_locales (rule used_Apply used_Close; assumption)+

interpretation proc: host_processes proc_sys set
  by unfold_locales (rule proc_sys_ok)

section \<open>The controller holds its process\<close>

text \<open>A program that leaves the engine it returns holding its process.\<close>

definition holds :: "('w \<Rightarrow> int set) \<Rightarrow> engine option \<Rightarrow> ('a \<Rightarrow> engine option) \<Rightarrow> ('w, 'm, 'a) prog \<Rightarrow> bool" where
  "holds P x g m \<longleftrightarrow>
     (\<forall>h. engine_held P x (world h) \<longrightarrow> engine_held P (g (result m h)) (world (after m h)))"

named_theorems holds_intros

lemma engine_held_shrinks: "P w' \<subseteq> P w \<Longrightarrow> engine_held P x w \<Longrightarrow> engine_held P x w'"
  by (auto simp: engine_held_def held_def split: option.splits engine.splits)

lemma engine_held_empty: "P w = {} \<Longrightarrow> engine_held P x w"
  by (auto simp: engine_held_def held_def split: option.splits engine.splits)

lemma holds_return [holds_intros]: "g y = x \<Longrightarrow> holds P x g (State_Monad.return y)"
  by (simp add: holds_def)

lemma holds_calm:
  fixes m :: "('w, 'm, 'a) prog"
  assumes "starts_none P m" "\<And>y. holds P x g (f y)"
  shows "holds P x g (State_Monad.bind m f)"
  unfolding holds_def
proof (intro allI impI)
  fix h :: "('w, 'm) host_scheme"
  assume "engine_held P x (world h)"
  with starts_noneD[OF assms(1)] have "engine_held P x (world (after m h))" by (rule engine_held_shrinks)
  then show "engine_held P (g (result (State_Monad.bind m f) h)) (world (after (State_Monad.bind m f) h))"
    using assms(2)[of "result m h"] by (simp add: holds_def result_bind after_bind del: run_state_bind)
qed

lemma holds_bind:
  "holds P x g' m \<Longrightarrow> (\<And>y. holds P (g' y) g (f y)) \<Longrightarrow> holds P x g (State_Monad.bind m f)"
  unfolding holds_def by (simp add: result_bind after_bind del: run_state_bind)

text \<open>The same when the first program always leaves an engine.\<close>

lemma holds_bind_some:
  fixes m :: "('w, 'm, controller) prog"
  assumes "holds P x ct_engine m" "\<And>h. ct_engine (result m h) \<noteq> None"
    and "\<And>y e. ct_engine y = Some e \<Longrightarrow> holds P (Some e) g (f y)"
  shows "holds P x g (State_Monad.bind m f)"
  unfolding holds_def
proof (intro allI impI)
  fix h :: "('w, 'm) host_scheme"
  assume h: "engine_held P x (world h)"
  obtain e where e: "ct_engine (result m h) = Some e" using assms(2)[of h] by blast
  with assms(1) h have "engine_held P (Some e) (world (after m h))" unfolding holds_def by metis
  then show "engine_held P (g (result (State_Monad.bind m f) h)) (world (after (State_Monad.bind m f) h))"
    using assms(3)[OF e] by (simp add: holds_def result_bind after_bind del: run_state_bind)
qed

lemma holds_if [holds_intros]:
  "(b \<Longrightarrow> holds P x g m) \<Longrightarrow> (\<not> b \<Longrightarrow> holds P x g n) \<Longrightarrow> holds P x g (if b then m else n)"
  by simp

lemma holds_prod [holds_intros]:
  "(\<And>a b. y = (a, b) \<Longrightarrow> holds P x g (f a b)) \<Longrightarrow> holds P x g (case y of (a, b) \<Rightarrow> f a b)"
  by (cases y) simp

lemma holds_option [holds_intros]:
  "(y = None \<Longrightarrow> holds P x g m) \<Longrightarrow> (\<And>z. y = Some z \<Longrightarrow> holds P x g (f z))
   \<Longrightarrow> holds P x g (case y of None \<Rightarrow> m | Some z \<Rightarrow> f z)"
  by (cases y) simp_all

lemma holds_sum [holds_intros]:
  "(\<And>e. y = Inl e \<Longrightarrow> holds P x g (f e)) \<Longrightarrow> (\<And>z. y = Inr z \<Longrightarrow> holds P x g (f' z))
   \<Longrightarrow> holds P x g (case y of Inl e \<Rightarrow> f e | Inr z \<Rightarrow> f' z)"
  by (cases y) simp_all

lemma holds_let [holds_intros]: "holds P x g (f y) \<Longrightarrow> holds P x g (Let y f)"
  by simp

lemma holdsD: "holds P x g m \<Longrightarrow> engine_held P x (world h)
   \<Longrightarrow> engine_held P (g (result m h)) (world (after m h))"
  by (simp add: holds_def)

lemma controller_Close_engine: "ct_engine (result (controller_Close E S c) h) = None"
  by (simp add: controller_Close_def result_bind del: run_state_bind split: option.split)

context host_processes
begin

lemma controller_Close_ends:
  "engine_held P (ct_engine c) (world h) \<Longrightarrow> P (world (after (controller_Close E S c) h)) = {}"
  by (cases "ct_engine c")
    (simp_all add: controller_Close_def after_bind used.Close_ends del: run_state_bind, simp add: engine_held_def)

lemma holds_ensureEngine: "holds P (ct_engine c) ct_engine (ensureEngine E S ty c)"
proof (cases "ct_engine c")
  case None
  then show ?thesis
    by (auto simp: holds_def ensureEngine_def Let_def engine_held_def[of P None] intro: engine_held_empty)
next
  case (Some e)
  then show ?thesis
    by (simp add: holds_def ensureEngine_def Let_def after_bind result_bind split_beta engine_held_empty
        used.retire_ends del: run_state_bind)
qed

end

lemma ensureEngine_some: "ct_engine (result (ensureEngine E S ty c) h) \<noteq> None"
  by (simp add: ensureEngine_def Let_def result_bind del: run_state_bind)

context host_processes
begin

lemma holds_engine_then:
  assumes "ct_engine c = Some e" "\<And>y. holds P (Some (snd y)) g (f y)"
  shows "holds P (Some e) g (State_Monad.bind (engine_Apply E S ifaces (the (ct_engine c))) f)"
proof -
  have "holds P (Some e) (\<lambda>y. Some (snd y)) (engine_Apply E S ifaces e)"
    by (simp add: holds_def used.Apply_keeps)
  from holds_bind[OF this assms(2)] show ?thesis using assms(1) by simp
qed

lemma holds_converge: "holds P (ct_engine c) ct_engine (converge E S resp c)"
  unfolding converge_def
  by (intro holds_let holds_bind_some[OF holds_ensureEngine ensureEngine_some] holds_engine_then)
    (assumption | rule holds_intros holds_calm allI calm_overlay calm_ensureNAT calm_ensureExtras
      calm_processes[OF processes] | simp)+

lemma holds_sync: "holds P (ct_engine c) ct_engine (controller_sync E S c)"
  unfolding controller_sync_def
  by (intro holds_calm allI calm_requests calm_processes[OF processes] holds_intros holds_converge) simp

lemma holds_heartbeat: "holds P (ct_engine c) (\<lambda>y. ct_engine (snd y)) (heartbeatTick E S force c)"
proof -
  have "holds P (ct_engine c) (\<lambda>y. ct_engine (snd y))
      (do { c \<leftarrow> controller_sync E S c; State_Monad.return (Returned nil, c) })"
    by (rule holds_bind[OF holds_sync]) (simp add: holds_return)
  then show ?thesis
    unfolding heartbeatTick_def
    by - (assumption | rule holds_calm allI calm_pending calm_requests calm_orders calm_processes[OF processes]
        holds_intros | simp)+
qed

text \<open>The three ticks keep the controller holding its process.\<close>

lemma heartbeat_held:
  "run_state (heartbeatTick E S force c) h = ((r, c'), h') \<Longrightarrow> engine_held P (ct_engine c) (world h)
   \<Longrightarrow> engine_held P (ct_engine c') (world h')"
  using holdsD[OF holds_heartbeat, of c h E force] by simp

lemma status_held:
  assumes "engine_held P x (world h)"
  shows "engine_held P x (world (after (statusTick E S c) h))"
proof -
  have "starts_none P (statusTick E S c)" by (intro allI calm_status calm_processes[OF processes])
  from engine_held_shrinks[OF starts_noneD[OF this] assms] show ?thesis .
qed

lemma watchdog_held:
  assumes "engine_held P x (world h)"
  shows "engine_held P x (world (after (policyWatchdogTick S c) h))"
proof -
  have "starts_none P (policyWatchdogTick S c)" by (intro allI calm_watchdog calm_processes[OF processes])
  from engine_held_shrinks[OF starts_noneD[OF this] assms] show ?thesis .
qed

end

section \<open>The life of a controller\<close>

text \<open>
  The steps of a controller and its host: the ticks of \<open>Run\<close>, the shutdown, the goroutine that learns
  that a process of the current engine has ended, and anything else on the host, which starts no
  process of the controller. A tick that replaces the process image is no step: no controller is left.
  A tick is one step; that the goroutine may set its flag within a tick makes no difference, since the
  flag belongs to a process that has ended and nothing in a tick reads it after the engine was applied.
\<close>

inductive ctl_step ::
  "libs \<Rightarrow> 'w sys \<Rightarrow> ('w \<Rightarrow> int set) \<Rightarrow> controller \<times> 'w host \<Rightarrow> controller \<times> 'w host \<Rightarrow> bool"
  for E S P where
  ctl_heartbeat: "run_state (heartbeatTick E S force c) h = ((Returned r, c'), h') \<Longrightarrow> ctl_step E S P (c, h) (c', h')"
| ctl_status: "run_state (statusTick E S c) h = ((), h') \<Longrightarrow> ctl_step E S P (c, h) (c, h')"
| ctl_watchdog: "run_state (policyWatchdogTick S c) h = ((), h') \<Longrightarrow> ctl_step E S P (c, h) (c, h')"
| ctl_close: "run_state (controller_Close E S c) h = (c', h') \<Longrightarrow> ctl_step E S P (c, h) (c', h')"
| ctl_exited: "p \<notin> P (world h) \<Longrightarrow> ct_engine c = Some (Singbox b)
     \<Longrightarrow> ctl_step E S P (c, h) (c\<lparr>ct_engine := Some (Singbox (process_exited p b))\<rparr>, h)"
| ctl_other: "P (world h') \<subseteq> P (world h) \<Longrightarrow> ctl_step E S P (c, h) (c, h')"

lemma ctl_heartbeatI:
  "fst (result (heartbeatTick E S force c) h) = Returned r
   \<Longrightarrow> ctl_step E S P (c, h) (snd (result (heartbeatTick E S force c) h), after (heartbeatTick E S force c) h)"
  by (rule ctl_heartbeat[of E S force c h r]) (metis prod.collapse)

context host_processes
begin

lemma engine_held_step:
  "ctl_step E S P x y \<Longrightarrow> engine_held P (ct_engine (fst x)) (world (snd x))
   \<Longrightarrow> engine_held P (ct_engine (fst y)) (world (snd y))"
proof (induction rule: ctl_step.induct)
  case (ctl_heartbeat force c h r c' h')
  then show ?case by (simp add: heartbeat_held)
next
  case (ctl_status c h h')
  then show ?case using status_held[of "ct_engine c" h E c] by simp
next
  case (ctl_watchdog c h h')
  then show ?case using watchdog_held[of "ct_engine c" h c] by simp
next
  case (ctl_close c h c' h')
  then show ?case using controller_Close_ends[of c h E] by (simp add: engine_held_empty)
next
  case (ctl_exited p h c b)
  then show ?case by (auto simp: engine_held_def held_def process_exited_def split: if_splits)
next
  case (ctl_other h' h c)
  then show ?case by (auto intro: engine_held_shrinks)
qed

lemma engine_held_reachable:
  "(ctl_step E S P)\<^sup>*\<^sup>* x y \<Longrightarrow> engine_held P (ct_engine (fst x)) (world (snd x))
   \<Longrightarrow> engine_held P (ct_engine (fst y)) (world (snd y))"
  by (induction rule: rtranclp_induct) (auto intro: engine_held_step)

end

text \<open>
  However a controller runs, whatever the panel orders, whatever fails and whenever processes end:
  of the sing-box processes it started at most one is alive, the engine in use holds its handle and
  knows that it is running, also after any number of switches between the engines, and shutting the
  controller down leaves none alive.
\<close>
theorem one_singbox_per_controller:
  assumes "processes_ok S P" and "ct_engine c0 = None" and "P (world h0) = {}"
    and "(ctl_step E S P)\<^sup>*\<^sup>* (c0, h0) (c, h)"
  shows "(P (world h) = {}
      \<or> (\<exists>p b. P (world h) = {p} \<and> ct_engine c = Some (Singbox b) \<and> se_cmd b = Some p \<and> se_running b))
    \<and> P (world (after (controller_Close E S c) h)) = {}"
proof -
  note host = host_processes.intro[OF assms(1)]
  have held: "engine_held P (ct_engine c) (world h)"
    using host_processes.engine_held_reachable[OF host assms(4)] assms(2,3) by (simp add: engine_held_def)
  have "P (world h) = {}
      \<or> (\<exists>p b. P (world h) = {p} \<and> ct_engine c = Some (Singbox b) \<and> se_cmd b = Some p \<and> se_running b)"
  proof (cases "\<exists>b. ct_engine c = Some (Singbox b)")
    case True
    then obtain b where b: "ct_engine c = Some (Singbox b)" by blast
    with held have "P (world h) \<subseteq> (if se_running b then set_option (se_cmd b) else {})"
      by (simp add: engine_held_def held_def)
    with b show ?thesis by (cases "se_cmd b") (auto split: if_splits)
  next
    case False
    with held show ?thesis by (auto simp: engine_held_def split: option.splits engine.splits)
  qed
  then show ?thesis using host_processes.controller_Close_ends[OF host held] by blast
qed

text \<open>A panel that wants the sing-box engine without interfaces, and a host that keeps the living processes.\<close>

definition singbox_libs :: libs where
  "singbox_libs = serving_libs\<lparr>en_json := (en_json serving_libs)\<lparr>
     jl_sync := (\<lambda>d. Inr \<lparr>sr_ConfigRevision = 3, sr_Engine = ''singbox'', sr_Interfaces = []\<rparr>)\<rparr>\<rparr>"

definition node_sys :: "int list sys" where
  "node_sys c w = (case c of
     HttpPanel meth url headers body \<Rightarrow> (ok_reply\<lparr>rnum := 200, rout := ''x''\<rparr>, w)
   | _ \<Rightarrow> proc_sys c w)"

lemma node_sys_ok: "processes_ok node_sys set"
proof -
  have "snd (node_sys c w) = snd (proc_sys c w)" for c w by (cases c) (simp_all add: node_sys_def)
  moreover have "node_sys (StartProcess exe args) w = proc_sys (StartProcess exe args) w" for exe args w
    by (simp add: node_sys_def)
  ultimately show ?thesis using proc_sys_ok unfolding processes_ok_def by simp
qed

lemma forced_tick:
  assumes "result (Heartbeat (en_json E) S (ct_client c) (heartbeat_of E c (su_upgradeErr h))) h = Inr resp"
    and "\<not> hb_Restart resp" "hb_Upgrade resp = None"
    and "g = after (Heartbeat (en_json E) S (ct_client c) (heartbeat_of E c (su_upgradeErr h))) h\<lparr>su_upgradeErr := []\<rparr>"
  shows "run_state (heartbeatTick E S True c) h
    = ((Returned nil, result (controller_sync E S c) g), after (controller_sync E S c) g)"
  using assms(1-3) unfolding assms(4)
  by (auto simp: heartbeatTick_def PendingError_def ClearError_def obey_restart_def obey_upgrade_def
      State_Monad.get_def State_Monad.update_def State_Monad.set_def split: prod.splits)

theorem one_singbox_per_controller_witness:
  "(let out = run_state (heartbeatTick singbox_libs node_sys True (fresh_controller ''https://p'')) (init_host []);
        c = snd (fst out)
    in world (snd out) = [7] \<and> world (after (controller_Close singbox_libs node_sys c) (snd out)) = [])"
proof -
  let ?c = "fresh_controller ''https://p''"
  let ?beat = "Heartbeat (en_json singbox_libs) node_sys (ct_client ?c) (heartbeat_of singbox_libs ?c [])"
  let ?g = "after ?beat (init_host [])\<lparr>su_upgradeErr := []\<rparr>"
  let ?out = "run_state (heartbeatTick singbox_libs node_sys True ?c) (init_host [])"
  have "panel_serves (en_json singbox_libs) node_sys (ct_client ?c) (\<lambda>w. 3) (\<lambda>w. (''singbox'', []))"
    by (simp add: panel_serves_def succeeds_def singbox_libs_def serving_libs_def) (simp add: node_sys_def)
  then obtain warn where beat: "result ?beat (init_host [])
      = Inr \<lparr>hb_ConfigRevision = 3, hb_Upgrade = None, hb_Restart = False, hb_Warn = warn\<rparr>"
    using Heartbeat_answered[of "en_json singbox_libs" node_sys "ct_client ?c" "\<lambda>w. 3" "\<lambda>w. (''singbox'', [])"
        "heartbeat_of singbox_libs ?c []" "init_host []"] by auto
  have tick: "?out = ((Returned nil, result (controller_sync singbox_libs node_sys ?c) ?g),
      after (controller_sync singbox_libs node_sys ?c) ?g)"
    by (rule forced_tick[where resp = "\<lparr>hb_ConfigRevision = 3, hb_Upgrade = None, hb_Restart = False, hb_Warn = warn\<rparr>"])
      (simp_all only: init_host_simps beat heartbeat_response.simps simp_thms)
  have fst: "fst (fst ?out) = Returned nil" unfolding tick by simp
  have "ctl_step singbox_libs node_sys set (?c, init_host []) (snd (fst ?out), snd ?out)"
    by (rule ctl_heartbeatI[OF fst])
  note run = r_into_rtranclp[of "ctl_step singbox_libs node_sys set", OF this]
  have init: "ct_engine ?c = None" "set (world (init_host [])) = {}"
    by (simp_all add: fresh_controller_def)
  note one_singbox_per_controller[OF node_sys_ok init run, THEN conjunct2]
  then have "world (after (controller_Close singbox_libs node_sys (snd (fst ?out))) (snd ?out)) = []"
    by (rule set_empty[THEN iffD1])
  moreover have "world (snd ?out) = [7]" unfolding tick snd_conv by code_simp
  ultimately show ?thesis unfolding Let_def by blast
qed

section \<open>A run\<close>

lemma settings_kept:
  "ct_hbEvery (result (ensureEngine E S ty c) h) = ct_hbEvery c"
  "ct_statEvery (result (ensureEngine E S ty c) h) = ct_statEvery c"
  by (simp_all add: ensureEngine_def Let_def result_bind del: run_state_bind)

lemma converge_settings:
  "ct_hbEvery (result (converge E S resp c) h) = ct_hbEvery c
   \<and> ct_statEvery (result (converge E S resp c) h) = ct_statEvery c"
  by (simp add: converge_def Let_def result_bind split_beta settings_kept del: run_state_bind split: option.split)

lemma sync_settings:
  "ct_hbEvery (result (controller_sync E S c) h) = ct_hbEvery c
   \<and> ct_statEvery (result (controller_sync E S c) h) = ct_statEvery c"
  by (simp add: controller_sync_def result_bind converge_settings del: run_state_bind split: sum.split)

lemma tick_settings:
  "ct_hbEvery (snd (result (heartbeatTick E S force c) h)) = ct_hbEvery c
   \<and> ct_statEvery (snd (result (heartbeatTick E S force c) h)) = ct_statEvery c"
  by (simp add: heartbeatTick_def result_bind sync_settings del: run_state_bind split: sum.split)

text \<open>How a run ends that is told to end.\<close>

abbreviation ended :: "('w \<Rightarrow> int set) \<Rightarrow> (run_end \<times> controller) \<times> ('w, 'm) host_scheme \<Rightarrow> bool" where
  "ended P x \<equiv> fst (fst x) = ProcessReplaced
     \<or> fst (fst x) = Stopped \<and> ct_engine (snd (fst x)) = None \<and> P (world (snd x)) = {}"

context host_processes
begin

lemma events_end:
  "Cancelled \<in> set evs \<Longrightarrow> engine_held P (ct_engine c) (world h) \<Longrightarrow> ended P (run_state (run_events E S evs c) h)"
proof (induction evs arbitrary: c h)
  case (Cons ev evs)
  show ?case
  proof (cases ev)
    case HeartbeatDue
    obtain r c' h' where tick: "run_state (heartbeatTick E S False c) h = ((r, c'), h')" by (metis surj_pair)
    from heartbeat_held[OF this Cons.prems(2)] Cons HeartbeatDue tick show ?thesis by simp
  next
    case StatusDue
    from Cons.IH[OF _ status_held[OF Cons.prems(2), of E c]] Cons.prems(1) StatusDue show ?thesis
      by (cases "run_state (statusTick E S c) h") simp
  next
    case WatchdogDue
    from Cons.IH[OF _ watchdog_held[OF Cons.prems(2), of c]] Cons.prems(1) WatchdogDue show ?thesis
      by (cases "run_state (policyWatchdogTick S c) h") simp
  next
    case Cancelled
    with controller_Close_ends[OF Cons.prems(2)] controller_Close_engine show ?thesis
      by (simp add: after_bind result_bind del: run_state_bind)
  qed
qed simp

end

text \<open>
  C17. A controller that is told to stop stops, whatever happened before: if the context is cancelled at
  some point, \<open>Run\<close> returns with no engine and no living sing-box process, unless the process was
  replaced on an order of the panel; and it panics at the start exactly when an interval is not positive.
\<close>
theorem cancelled_run_stops:
  assumes "processes_ok S P" and "ct_engine c = None" and "P (world h) = {}" and "Cancelled \<in> set evs"
  shows "(case run_state (Run E S evs c) h of ((e, c'), h') \<Rightarrow>
     e = ProcessReplaced
     \<or> (if ct_hbEvery c \<le> 0 \<or> ct_statEvery c \<le> 0 then e = Panicked
        else e = Stopped \<and> ct_engine c' = None \<and> P (world h') = {}))"
proof -
  have init: "engine_held P (ct_engine c) (world h)" using assms(2,3) by (simp add: engine_held_def)
  obtain r c' h' where tick: "run_state (heartbeatTick E S True c) h = ((r, c'), h')" by (metis surj_pair)
  note host = host_processes.intro[OF assms(1)]
  note host_processes.heartbeat_held[OF host tick init]
  from host_processes.events_end[OF host assms(4) this, of E] tick show ?thesis
    using tick_settings[of E S True c h] by (auto simp: Run_def split: prod.split)
qed

theorem cancelled_run_stops_witness:
  "(case run_state (Run singbox_libs node_sys [StatusDue, Cancelled] (fresh_controller ''https://p'')) (init_host []) of
      ((e, c'), h') \<Rightarrow> e = ProcessReplaced \<or> e = Stopped \<and> ct_engine c' = None \<and> world h' = [])"
proof -
  let ?c = "fresh_controller ''https://p''"
  have "ct_engine ?c = None" "set (world (init_host [])) = {}" "Cancelled \<in> set [StatusDue, Cancelled]"
      "\<not> (ct_hbEvery ?c \<le> 0 \<or> ct_statEvery ?c \<le> 0)"
    by (simp_all add: fresh_controller_def)
  with cancelled_run_stops[OF node_sys_ok this(1-3), of singbox_libs] show ?thesis
    by (simp only: if_False set_empty)
qed

section \<open>A restart\<close>

text \<open>Nothing of the agent but \<open>Kill\<close> ends a process.\<close>

definition only_kills :: "'w sys \<Rightarrow> ('w \<Rightarrow> int set) \<Rightarrow> bool" where
  "only_kills S P \<longleftrightarrow> (\<forall>w c. (\<forall>p. c \<noteq> KillProcess p) \<longrightarrow> P w \<subseteq> P (snd (S c w)))"

lemma only_kills_call: "only_kills S P \<Longrightarrow> (\<And>p. c \<noteq> KillProcess p) \<Longrightarrow> keeps_calm (\<lambda>w t. X \<subseteq> P w) (do_call S c)"
  by (rule keeps_do_call) (simp add: only_kills_def; blast)

lemma NewController_keeps:
  "only_kills S P \<Longrightarrow> keeps_calm (\<lambda>w t. X \<subseteq> P w) (NewController S p cfg version osName)"
  unfolding NewController_def primaryInterface_def selfPath_def
  by (intro keeps_intros only_kills_call) simp_all

lemma NewController_engine: "ct_engine (result (NewController S p cfg version osName) h) = None"
  by (simp add: NewController_def result_bind del: run_state_bind)

text \<open>
  C38. A restart loses the sing-box process. When the panel orders a restart and the executable can be
  run again, the tick replaces the agent without stopping the process its engine holds: the controller
  of the new agent has no engine, so a living sing-box is out of its reach, and shutting the new
  controller down leaves it running.
\<close>
theorem restart_orphans_singbox:
  assumes "only_kills S P"
    and "\<forall>w. rerr (fst (S Executable w)) = None" and "\<forall>w exe. rerr (fst (S (ReExec exe) w)) = None"
    and "jl_NewRequest (en_json E) ''POST'' (cli_apiHost (ct_client c) @ ''/api/v1/node/heartbeat'') = None"
    and "\<forall>w body. fst (S (HttpPanel ''POST'' (cli_apiHost (ct_client c) @ ''/api/v1/node/heartbeat'')
          (request_headers (ct_client c) True) (Some body)) w) = r"
    and "succeeds r" and "jl_envelope (en_json E) (rout r) = Inr data" and "data \<noteq> []" and "data \<noteq> ''null''"
    and "jl_heartbeat (en_json E) data = Inr resp" and "hb_Restart resp"
  shows "(let new = NewController S p cfg version osName;
              h1 = after (heartbeatTick E S force c) h;
              c2 = result new (init_host (world h1)); h2 = after new (init_host (world h1))
    in fst (result (heartbeatTick E S force c) h) = Replaced
     \<and> ct_engine c2 = None
     \<and> P (world h) \<subseteq> P (world h2) \<and> P (world h) \<subseteq> P (world (after (controller_Close E S c2) h2)))"
proof -
  let ?hb = "do_call S (HttpPanel ''POST'' (cli_apiHost (ct_client c) @ ''/api/v1/node/heartbeat'')
      (request_headers (ct_client c) True) (Some (Marshal (heartbeat_json (heartbeat_of E c (su_upgradeErr h))))))"
  have hb: "run_state (Heartbeat (en_json E) S (ct_client c) (heartbeat_of E c (su_upgradeErr h))) h = (Inr resp, after ?hb h)"
    using assms(4-10) by (simp add: Heartbeat_def client_do_def do_request_def run_do_call succeeds_def decode_reply_def)
  let ?g = "(after ?hb h)\<lparr>su_upgradeErr := []\<rparr>"
  have tick: "run_state (heartbeatTick E S force c) h = ((Replaced, c), after (obey_restart S resp) ?g)"
    using hb assms(2,3,11)
    by (simp add: heartbeatTick_def PendingError_def ClearError_def State_Monad.get_def State_Monad.update_def
        State_Monad.set_def obey_restart_def run_do_call)
  have "P (world h) \<subseteq> P (world (after ?hb h))"
    by (rule keepsD[OF only_kills_call[OF assms(1)]]) simp_all
  moreover have "P (world (after ?hb h)) \<subseteq> P (world (after (obey_restart S resp) ?g))"
    by (rule keepsD[where h = ?g]) (simp_all add: obey_restart_def keeps_intros only_kills_call[OF assms(1)])
  ultimately have "P (world h) \<subseteq> P (world (after (heartbeatTick E S force c) h))" unfolding tick by simp
  then have "P (world h) \<subseteq> P (world (after (NewController S p cfg version osName)
      (init_host (world (after (heartbeatTick E S force c) h)))))"
    by (intro keepsD[OF NewController_keeps[OF assms(1)]]) simp
  then show ?thesis unfolding Let_def
    by (simp add: tick NewController_engine controller_Close_def)
qed

text \<open>A panel that orders a restart.\<close>

definition restart_libs :: libs where
  "restart_libs = serving_libs\<lparr>en_json := (en_json serving_libs)\<lparr>
     jl_heartbeat := (\<lambda>d. Inr \<lparr>hb_ConfigRevision = 3, hb_Upgrade = None, hb_Restart = True, hb_Warn = []\<rparr>)\<rparr>\<rparr>"

lemma node_sys_kills: "only_kills node_sys set"
proof -
  have "set w \<subseteq> set (snd (node_sys c w))" if "\<forall>p. c \<noteq> KillProcess p" for c w
    using that by (cases c) (auto simp: node_sys_def)
  then show ?thesis by (simp add: only_kills_def)
qed

lemma node_sys_exec: "rerr (fst (node_sys Executable w)) = None" "rerr (fst (node_sys (ReExec exe) w)) = None"
  by (simp_all add: node_sys_def ok_reply_def)

theorem restart_orphans_singbox_witness:
  "(let b = (NewSingboxEngine (ct_singbox (fresh_controller ''https://p'')))\<lparr>se_cmd := Some 7, se_running := True\<rparr>;
        c = (fresh_controller ''https://p'')\<lparr>ct_engine := Some (Singbox b)\<rparr>;
        tick = run_state (heartbeatTick restart_libs node_sys False c) (init_host [7]);
        p = \<lparr>pn_ApiHost = ''https://p'', pn_NodeID = 7, pn_SecretKey = ''s'', pn_Timeout = 0,
          pn_HeartbeatSeconds = 0, pn_StatusSeconds = 0\<rparr>;
        new = run_state (NewController node_sys p (ct_singbox c) ''1.0'' ''linux'') (init_host (world (snd tick)))
    in fst (fst tick) = Replaced \<and> 7 \<in> set (world (after (controller_Close restart_libs node_sys (fst new)) (snd new))))"
proof -
  let ?b = "(NewSingboxEngine (ct_singbox (fresh_controller ''https://p'')))\<lparr>se_cmd := Some 7, se_running := True\<rparr>"
  let ?c = "(fresh_controller ''https://p'')\<lparr>ct_engine := Some (Singbox ?b)\<rparr>"
  let ?resp = "\<lparr>hb_ConfigRevision = 3, hb_Upgrade = None, hb_Restart = True, hb_Warn = []\<rparr>"
  have json: "jl_NewRequest (en_json restart_libs) m u = None" "jl_envelope (en_json restart_libs) ''x'' = Inr ''x''"
      "jl_heartbeat (en_json restart_libs) d = Inr ?resp" for m u d
    by (simp_all add: restart_libs_def serving_libs_def)
  have reply: "fst (node_sys (HttpPanel m u hs b) w) = ok_reply\<lparr>rnum := 200, rout := ''x''\<rparr>" for m u hs b w
    by (simp add: node_sys_def)
  have "succeeds (ok_reply\<lparr>rnum := 200, rout := ''x''\<rparr>)" "rout (ok_reply\<lparr>rnum := 200, rout := ''x''\<rparr>) = ''x''"
    by (simp_all add: succeeds_def ok_reply_def)
  then show ?thesis
    using restart_orphans_singbox[where S = node_sys and P = set and E = restart_libs and c = ?c and force = False
      and h = "init_host [7]" and resp = ?resp and data = "''x''" and r = "ok_reply\<lparr>rnum := 200, rout := ''x''\<rparr>",
      OF node_sys_kills _ _ json(1) _ _ _ _ _ json(3)]
    by (simp add: node_sys_exec reply json(2) Let_def del: run_state_bind)
qed

end
