(* ===== verification/AgentLife.thy ===== *)
theory AgentLife
  imports AgentFacts ControllerProcess
begin

text \<open>
  The running agent: the goroutines \<open>main\<close> starts, interleaved. Each controller runs its first tick and
  then one tick per event; \<open>selfupdate.Watch\<close> looks at the binary now and then; goroutines learn that
  processes have ended; a signal cancels the context, whereupon every controller shuts down and \<open>main\<close>
  returns when the last has. A goroutine runs a tick as one step. A step that replaces the process image,
  or that panics, leaves no agent.
\<close>

section \<open>The goroutines\<close>

datatype stage = Starting | Looping | Finished

record agent =
  ag_runs :: "(stage \<times> controller) list"
  ag_watch :: "(string \<times> string) option"
  ag_cancelled :: bool

definition agent_of :: "controller list \<Rightarrow> agent" where
  "agent_of cs = \<lparr>ag_runs = map (Pair Starting) cs, ag_watch = None, ag_cancelled = False\<rparr>"

text \<open>\<open>wg.Wait\<close> returns.\<close>

definition agent_done :: "agent \<Rightarrow> bool" where
  "agent_done a \<longleftrightarrow> (\<forall>r \<in> set (ag_runs a). fst r = Finished)"

text \<open>The start of \<open>Watch\<close> and one round of its loop, with the stamp it goes on with.\<close>

definition watch_start :: "'w sys \<Rightarrow> ('w, 'm, (string \<times> string) option) prog" where
  "watch_start S = do {
     r \<leftarrow> do_call S Executable;
     if rerr r \<noteq> nil \<or> rout r = [] then State_Monad.return None
     else do {
       stamp \<leftarrow> fileStamp S (rout r);
       State_Monad.return (Some (rout r, stamp)) } }"

definition watch_round :: "'w sys \<Rightarrow> string \<Rightarrow> string \<Rightarrow> string \<Rightarrow> ('w, 'm, outcome \<times> string) prog" where
  "watch_round S exe current stamp = do {
     now_stamp \<leftarrow> fileStamp S exe;
     if now_stamp = stamp then State_Monad.return (Returned nil, stamp)
     else do {
       a \<leftarrow> adopt S exe current;
       State_Monad.return (a, now_stamp) } }"

lemma watch_ticks_rounds:
  "watch_ticks S exe current (Suc n) stamp = do {
     (a, next_stamp) \<leftarrow> watch_round S exe current stamp;
     (case a of Replaced \<Rightarrow> State_Monad.return Replaced
      | Returned e \<Rightarrow> watch_ticks S exe current n next_stamp) }"
  by (rule state.expand) (auto simp: watch_round_def fun_eq_iff split: prod.splits outcome.splits)

lemma Watch_rounds:
  "Watch S current n = do {
     w \<leftarrow> watch_start S;
     (case w of None \<Rightarrow> State_Monad.return (Returned nil)
      | Some (exe, stamp) \<Rightarrow> watch_ticks S exe current n stamp) }"
  by (rule state.expand) (auto simp: Watch_def watch_start_def fun_eq_iff split: prod.splits outcome.splits)

inductive agent_step ::
  "libs \<Rightarrow> 'w sys \<Rightarrow> ('w \<Rightarrow> int set) \<Rightarrow> string \<Rightarrow> agent \<times> 'w host \<Rightarrow> agent \<times> 'w host \<Rightarrow> bool"
  for E S P version where
  run_first: "i < length (ag_runs a) \<Longrightarrow> ag_runs a ! i = (Starting, c)
     \<Longrightarrow> run_state (heartbeatTick E S True c) h = ((Returned r, c'), h')
     \<Longrightarrow> 0 < ct_hbEvery c' \<Longrightarrow> 0 < ct_statEvery c'
     \<Longrightarrow> agent_step E S P version (a, h) (a\<lparr>ag_runs := (ag_runs a)[i := (Looping, c')]\<rparr>, h')"
| run_event: "i < length (ag_runs a) \<Longrightarrow> ag_runs a ! i = (Looping, c) \<Longrightarrow> ev \<noteq> Cancelled
     \<Longrightarrow> run_state (run_events E S [ev] c) h = ((Waiting, c'), h')
     \<Longrightarrow> agent_step E S P version (a, h) (a\<lparr>ag_runs := (ag_runs a)[i := (Looping, c')]\<rparr>, h')"
| run_stops: "i < length (ag_runs a) \<Longrightarrow> ag_runs a ! i = (Looping, c) \<Longrightarrow> ag_cancelled a
     \<Longrightarrow> run_state (run_events E S [Cancelled] c) h = ((Stopped, c'), h')
     \<Longrightarrow> agent_step E S P version (a, h) (a\<lparr>ag_runs := (ag_runs a)[i := (Finished, c')]\<rparr>, h')"
| exited: "i < length (ag_runs a) \<Longrightarrow> ag_runs a ! i = (st, c) \<Longrightarrow> p \<notin> P (world h)
     \<Longrightarrow> ct_engine c = Some (Singbox b)
     \<Longrightarrow> agent_step E S P version (a, h)
          (a\<lparr>ag_runs := (ag_runs a)[i := (st, c\<lparr>ct_engine := Some (Singbox (process_exited p b))\<rparr>)]\<rparr>, h)"
| watch_starts: "run_state (watch_start S) h = (w, h')
     \<Longrightarrow> agent_step E S P version (a, h) (a\<lparr>ag_watch := w\<rparr>, h')"
| watches: "ag_watch a = Some (exe, stamp)
     \<Longrightarrow> run_state (watch_round S exe version stamp) h = ((Returned r, stamp'), h')
     \<Longrightarrow> agent_step E S P version (a, h) (a\<lparr>ag_watch := Some (exe, stamp')\<rparr>, h')"
| signalled: "agent_step E S P version (a, h) (a\<lparr>ag_cancelled := True\<rparr>, h)"
| outside: "P (world h') \<subseteq> P (world h) \<Longrightarrow> agent_step E S P version (a, h) (a, h')"

section \<open>Who holds the processes\<close>

text \<open>The process an engine holds, when it knows that it runs.\<close>

definition handles :: "engine option \<Rightarrow> int set" where
  "handles x = (case x of Some (Singbox b) \<Rightarrow> if se_running b then set_option (se_cmd b) else {} | _ \<Rightarrow> {})"

lemma engine_held_handles: "engine_held P x w \<longleftrightarrow> P w \<subseteq> handles x"
  by (auto simp: engine_held_def held_def handles_def split: option.splits engine.splits)

text \<open>
  What one controller does is seen through \<open>\<lambda>w. P w - X\<close>, where \<open>X\<close> is what the others hold: starting
  and ending processes looks there as it does on the whole.
\<close>

lemma processes_frame:
  assumes "processes_ok S P"
  shows "processes_ok S (\<lambda>w. P w - X)"
proof -
  have "P (snd (S (StartProcess exe args) w)) - X
      \<subseteq> (case rerr (fst (S (StartProcess exe args) w)) of
           None \<Rightarrow> insert (rnum (fst (S (StartProcess exe args) w))) (P w - X) | Some _ \<Rightarrow> P w - X)" for w exe args
    using assms[unfolded processes_ok_def, THEN conjunct1, rule_format, of exe args w]
    by (cases "rerr (fst (S (StartProcess exe args) w))") auto
  moreover have "P (snd (S (KillProcess p) w)) - X \<subseteq> P w - X - {p}" for w p
    using assms unfolding processes_ok_def by blast
  moreover have "P (snd (S c w)) - X \<subseteq> P w - X" if "\<not> starts_process c" for w c
    using assms that unfolding processes_ok_def by blast
  ultimately show ?thesis unfolding processes_ok_def by simp
qed

definition run_handles :: "stage \<times> controller \<Rightarrow> int set" where
  "run_handles r = handles (ct_engine (snd r))"

definition agent_handles :: "(stage \<times> controller) list \<Rightarrow> int set" where
  "agent_handles rs = (\<Union>i < length rs. run_handles (rs ! i))"

definition others :: "(stage \<times> controller) list \<Rightarrow> nat \<Rightarrow> int set" where
  "others rs i = (\<Union>j \<in> {..<length rs} - {i}. run_handles (rs ! j))"

lemma agent_handles_split: "i < length rs \<Longrightarrow> agent_handles (rs[i := r]) = run_handles r \<union> others rs i"
  by (fastforce simp: agent_handles_def others_def nth_list_update split: if_splits)

lemma agent_handles_at: "i < length rs \<Longrightarrow> agent_handles rs = run_handles (rs ! i) \<union> others rs i"
  using agent_handles_split[of i rs "rs ! i"] by simp

definition agent_inv :: "('w \<Rightarrow> int set) \<Rightarrow> agent \<Rightarrow> 'w \<Rightarrow> bool" where
  "agent_inv P a w \<longleftrightarrow> P w \<subseteq> agent_handles (ag_runs a)
     \<and> (\<forall>r \<in> set (ag_runs a). fst r = Finished \<longrightarrow> ct_engine (snd r) = None)"

text \<open>A step of one controller, given what it does to what only it may hold.\<close>

lemma agent_inv_run:
  assumes "agent_inv P a w" "i < length (ag_runs a)" "ag_runs a ! i = (st, c)"
    and "\<And>X. engine_held (\<lambda>w. P w - X) (ct_engine c) w \<Longrightarrow> engine_held (\<lambda>w. P w - X) (ct_engine c') w'"
    and "st' = Finished \<Longrightarrow> ct_engine c' = None"
  shows "agent_inv P (a\<lparr>ag_runs := (ag_runs a)[i := (st', c')]\<rparr>) w'"
proof -
  have "P w \<subseteq> run_handles (st, c) \<union> others (ag_runs a) i"
    using assms(1-3) by (simp add: agent_inv_def agent_handles_at)
  then have "P w' - others (ag_runs a) i \<subseteq> handles (ct_engine c')"
    using assms(4)[of "others (ag_runs a) i"] by (auto simp: engine_held_handles run_handles_def)
  then have "P w' \<subseteq> agent_handles ((ag_runs a)[i := (st', c')])"
    by (auto simp: agent_handles_split[OF assms(2)] run_handles_def)
  moreover have "\<forall>r \<in> set ((ag_runs a)[i := (st', c')]). fst r = Finished \<longrightarrow> ct_engine (snd r) = None"
    using assms(1,5) set_update_subset_insert[of "ag_runs a" i "(st', c')"] by (fastforce simp: agent_inv_def)
  ultimately show ?thesis by (simp add: agent_inv_def)
qed

section \<open>The steps keep it\<close>

lemma calm_watch:
  assumes "calm S J"
  shows "keeps_calm J (watch_start S)" "keeps_calm J (watch_round S exe current stamp)" "keeps_calm J (Adopt S current)"
  unfolding watch_start_def watch_round_def Adopt_def adopt_def fileStamp_def
  by (intro keeps_intros keeps_case_outcome calm_call[OF assms]; simp add: starts_process_def)+

context host_processes
begin

lemma event_held:
  assumes "run_state (run_events E S [ev] c) h = ((e, c'), h')" "engine_held P (ct_engine c) (world h)"
  shows "engine_held P (ct_engine c') (world h')"
proof (cases ev)
  case HeartbeatDue
  then show ?thesis
    using assms heartbeat_held[of E False c h] by (auto split: prod.splits if_splits)
next
  case StatusDue
  then show ?thesis using assms status_held[of "ct_engine c" h E c] by (auto split: prod.splits)
next
  case WatchdogDue
  then show ?thesis using assms watchdog_held[of "ct_engine c" h c] by (auto split: prod.splits)
next
  case Cancelled
  then show ?thesis
    using assms controller_Close_ends[of c h E] by (auto simp: engine_held_empty split: prod.splits)
qed

end

lemma agent_inv_step:
  assumes "processes_ok S P"
  shows "agent_step E S P version x y \<Longrightarrow> agent_inv P (fst x) (world (snd x)) \<Longrightarrow> agent_inv P (fst y) (world (snd y))"
proof (induction rule: agent_step.induct)
  case (run_first i a c h r c' h')
  note host = host_processes.intro[OF processes_frame[OF assms]]
  from agent_inv_run[where P = P and w = "world h" and st' = Looping, OF _ run_first(1,2) host_processes.heartbeat_held[OF host run_first(3)]] run_first(6)
  show ?case by simp
next
  case (run_event i a c ev h c' h')
  note host = host_processes.intro[OF processes_frame[OF assms]]
  from agent_inv_run[where P = P and w = "world h" and st' = Looping, OF _ run_event(1,2) host_processes.event_held[OF host run_event(4)]] run_event(5)
  show ?case by simp
next
  case (run_stops i a c h c' h')
  note host = host_processes.intro[OF processes_frame[OF assms]]
  have "ct_engine c' = None"
    using run_stops(4) controller_Close_engine[of E S c h] by (auto split: prod.splits)
  with agent_inv_run[where P = P and w = "world h" and st' = Finished, OF _ run_stops(1,2) host_processes.event_held[OF host run_stops(4)]] run_stops(5)
  show ?case by simp
next
  case (exited i a st c p h b)
  have "st \<noteq> Finished" using exited(1,2,4,5) nth_mem[OF exited(1)] by (auto simp: agent_inv_def)
  moreover have "engine_held (\<lambda>w. P w - X) (Some (Singbox (process_exited p b))) (world h)"
    if "engine_held (\<lambda>w. P w - X) (Some (Singbox b)) (world h)" for X
    using that exited(3) by (auto simp: engine_held_def held_def process_exited_def split: if_splits)
  ultimately show ?case
    using agent_inv_run[OF _ exited(1,2), of P "world h" "c\<lparr>ct_engine := Some (Singbox (process_exited p b))\<rparr>" "world h" st]
      exited(4,5) by simp
next
  case (watch_starts h w h' a)
  have "starts_none P (watch_start S)" by (intro allI calm_watch calm_processes[OF assms])
  from starts_noneD[OF this, of h] watch_starts show ?case by (auto simp: agent_inv_def)
next
  case (watches a exe stamp h r stamp' h')
  have "starts_none P (watch_round S exe version stamp)" by (intro allI calm_watch calm_processes[OF assms])
  from starts_noneD[OF this, of h] watches show ?case by (auto simp: agent_inv_def)
next
  case (signalled a h)
  then show ?case by (simp add: agent_inv_def)
next
  case (outside h' h a)
  then show ?case by (auto simp: agent_inv_def)
qed

lemma agent_inv_reachable:
  assumes "processes_ok S P"
  shows "(agent_step E S P version)\<^sup>*\<^sup>* x y \<Longrightarrow> agent_inv P (fst x) (world (snd x))
    \<Longrightarrow> agent_inv P (fst y) (world (snd y))"
  by (induction rule: rtranclp_induct) (auto intro: agent_inv_step[OF assms])

lemma agent_runs_length:
  "(agent_step E S P version)\<^sup>*\<^sup>* x y \<Longrightarrow> length (ag_runs (fst y)) = length (ag_runs (fst x))"
proof (induction rule: rtranclp_induct)
  case (step y z)
  from step(2) have "length (ag_runs (fst z)) = length (ag_runs (fst y))" by cases simp_all
  with step(3) show ?case by simp
qed simp

section \<open>From the start to the end\<close>

lemma calm_commands:
  assumes "calm S J"
  shows "keeps_calm J (LoadWithKey C Y S path key)" "keeps_calm J (encryptConfigFile C Y S path key)"
    "keeps_calm J (decryptConfigFile C S path key)" "keeps_calm J (choose_passphrase S key)"
    "keeps_calm J (print_version S version)"
proof -
  have call: "keeps_calm J (do_call S c)" if "\<not> starts_process c" for c
    by (rule calm_call[OF assms that])
  have load: "keeps_calm J (LoadWithKey C Y S path key)" for key
    unfolding LoadWithKey_def by (intro keeps_intros call) (simp_all add: starts_process_def)
  have encrypt: "keeps_calm J (Encrypt C S d key)" for d
    unfolding Encrypt_def by (intro keeps_intros call) (simp_all add: starts_process_def)
  show "keeps_calm J (LoadWithKey C Y S path key)" by (rule load)
  show "keeps_calm J (encryptConfigFile C Y S path key)"
    unfolding encryptConfigFile_def by (intro keeps_intros call load encrypt) (simp_all add: starts_process_def)
  show "keeps_calm J (decryptConfigFile C S path key)" "keeps_calm J (choose_passphrase S key)"
    "keeps_calm J (print_version S version)"
    unfolding decryptConfigFile_def choose_passphrase_def print_version_def
    by (intro keeps_intros call; simp add: starts_process_def)+
qed

lemma calm_new_controllers: "calm S J \<Longrightarrow> keeps_calm J (new_controllers S cfg version osName ps)"
proof (induction ps)
  case (Cons p ps)
  note call = calm_call[OF Cons.prems]
  have "keeps_calm J (NewController S p sb version osName)" for sb
    unfolding NewController_def primaryInterface_def selfPath_def
    by (intro keeps_intros call) (simp_all add: starts_process_def)
  then show ?case unfolding new_controllers.simps using Cons by (intro keeps_intros) simp_all
qed (simp add: keeps_intros)

lemma calm_main:
  assumes "calm S J"
  shows "keeps_calm J (main_start C Y E S version args fl)"
  unfolding main_start_def serve_def
  by (intro keeps_intros keeps_case_outcome calm_commands[OF assms] calm_watch[OF assms] calm_new_controllers[OF assms]
      calm_call[OF assms]) (simp_all add: starts_process_def)

lemma agent_starts_empty:
  "result (main_start C Y E S version args fl) h = Serving cs \<Longrightarrow> \<forall>c \<in> set cs. ct_engine c = None"
proof -
  assume "result (main_start C Y E S version args fl) h = Serving cs"
  then obtain cfg where "list_all2 (starts_as cfg) (cf_Nodes cfg) cs" using main_start_Serving by blast
  then show ?thesis by (induction rule: list_all2_induct) (simp_all add: starts_as_def)
qed

text \<open>Once the context is cancelled every controller past its first tick can finish.\<close>

lemma looping_left:
  assumes "i < length rs" "fst (rs ! i) = Looping"
  shows "length (filter (\<lambda>r. fst r = Looping) (rs[i := (Finished, c)])) < length (filter (\<lambda>r. fst r = Looping) rs)"
proof -
  have "rs = take i rs @ rs ! i # drop (Suc i) rs" using assms(1) by (rule id_take_nth_drop)
  then have "length (filter (\<lambda>r. fst r = Looping) rs)
      = length (filter (\<lambda>r. fst r = Looping) (take i rs @ rs ! i # drop (Suc i) rs))" by simp
  then show ?thesis using assms by (simp add: upd_conv_take_nth_drop)
qed

lemma agent_can_stop:
  fixes h :: "'w host"
  assumes "ag_cancelled a" "\<forall>r \<in> set (ag_runs a). fst r \<noteq> Starting"
  shows "\<exists>a' h'. (agent_step E S P version)\<^sup>*\<^sup>* (a, h) (a', h') \<and> agent_done a'"
  using assms
proof (induction "length (filter (\<lambda>r. fst r = Looping) (ag_runs a))" arbitrary: a h rule: less_induct)
  case less
  show ?case
  proof (cases "agent_done a")
    case True
    then show ?thesis by blast
  next
    case False
    then obtain i where i: "i < length (ag_runs a)" "fst (ag_runs a ! i) \<noteq> Finished"
      by (auto simp: agent_done_def in_set_conv_nth)
    moreover from this less.prems(2) have loop: "fst (ag_runs a ! i) = Looping"
      by (metis nth_mem stage.exhaust)
    ultimately obtain c where c: "ag_runs a ! i = (Looping, c)" by (metis prod.collapse)
    obtain c' h' where stop: "run_state (run_events E S [Cancelled] c) h = ((Stopped, c'), h')"
      by (cases "run_state (controller_Close E S c) h") simp
    let ?a = "a\<lparr>ag_runs := (ag_runs a)[i := (Finished, c')]\<rparr>"
    have step: "agent_step E S P version (a, h) (?a, h')"
      by (rule run_stops[OF i(1) c less.prems(1) stop])
    have "\<forall>r \<in> set (ag_runs ?a). fst r \<noteq> Starting"
      using less.prems(2) set_update_subset_insert[of "ag_runs a" i "(Finished, c')"] by fastforce
    with less.hyps[of ?a h'] looping_left[OF i(1) loop, of c'] less.prems(1)
    obtain a'' h'' where "(agent_step E S P version)\<^sup>*\<^sup>* (?a, h') (a'', h'')" "agent_done a''" by auto
    with converse_rtranclp_into_rtranclp[of "agent_step E S P version", OF step] show ?thesis by blast
  qed
qed

text \<open>The controllers that drive a running sing-box.\<close>

definition drives_singbox :: "stage \<times> controller \<Rightarrow> bool" where
  "drives_singbox r \<longleftrightarrow> (case ct_engine (snd r) of Some (Singbox b) \<Rightarrow> se_running b | _ \<Rightarrow> False)"

lemma run_handles_one: "run_handles r = {} \<or> drives_singbox r \<and> (\<exists>p. run_handles r = {p})"
proof (cases "\<exists>b. ct_engine (snd r) = Some (Singbox b) \<and> se_running b")
  case True
  then obtain b where "ct_engine (snd r) = Some (Singbox b)" "se_running b" by blast
  then show ?thesis by (cases "se_cmd b") (simp_all add: run_handles_def handles_def drives_singbox_def)
qed (auto simp: run_handles_def handles_def split: option.splits engine.splits)

lemma card_agent_handles: "finite (agent_handles rs) \<and> card (agent_handles rs) \<le> length (filter drives_singbox rs)"
proof -
  have one: "finite (run_handles r) \<and> card (run_handles r) \<le> (if drives_singbox r then 1 else 0)" for r
    using run_handles_one[of r] by auto
  have "agent_handles rs = \<Union> (run_handles ` set rs)"
    by (auto simp: agent_handles_def set_conv_nth)
  moreover have "finite (\<Union> (run_handles ` set rs)) \<and> card (\<Union> (run_handles ` set rs)) \<le> length (filter drives_singbox rs)"
  proof (induction rs)
    case (Cons r rs)
    have "card (run_handles r \<union> \<Union> (run_handles ` set rs))
        \<le> card (run_handles r) + card (\<Union> (run_handles ` set rs))" by (rule card_Un_le)
    with Cons one[of r] show ?case by (auto split: if_splits)
  qed simp
  ultimately show ?thesis by simp
qed

text \<open>
  C2. The agent leaves no sing-box behind. From the start of \<open>main\<close>, however its controllers, the watch
  on the binary, signals and the end of processes interleave: the living sing-box processes are all held
  by engines in use, at most one per controller that drives sing-box; when \<open>main\<close> returns, after a
  signal, none is alive; and once every controller is past its first tick \<open>main\<close> can always return.
\<close>
theorem agent_leaves_no_singbox:
  assumes "processes_ok S P" and "P (world h0) = {}"
    and "result (main_start C Y E S version args fl) h0 = Serving cs"
    and "(agent_step E S P version)\<^sup>*\<^sup>* (agent_of cs, after (main_start C Y E S version args fl) h0) (a, h)"
  shows "length (ag_runs a) = length cs
    \<and> (\<forall>p \<in> P (world h). \<exists>r \<in> set (ag_runs a). p \<in> run_handles r)
    \<and> finite (P (world h)) \<and> card (P (world h)) \<le> length (filter drives_singbox (ag_runs a))
    \<and> (agent_done a \<longrightarrow> P (world h) = {})
    \<and> ((\<forall>r \<in> set (ag_runs a). fst r \<noteq> Starting)
        \<longrightarrow> (\<exists>a' h'. (agent_step E S P version)\<^sup>*\<^sup>* (a, h) (a', h') \<and> agent_done a'))"
proof -
  let ?h0 = "after (main_start C Y E S version args fl) h0"
  have "starts_none P (main_start C Y E S version args fl)"
    by (intro allI calm_main calm_processes[OF assms(1)])
  from starts_noneD[OF this, of h0] assms(2) have "P (world ?h0) = {}" by simp
  then have "agent_inv P (agent_of cs) (world ?h0)" by (simp add: agent_inv_def agent_of_def)
  then have inv: "agent_inv P a (world h)"
    using agent_inv_reachable[OF assms(1,4)] by simp
  then have sub: "P (world h) \<subseteq> agent_handles (ag_runs a)" by (simp add: agent_inv_def)
  have held: "\<forall>p \<in> P (world h). \<exists>r \<in> set (ag_runs a). p \<in> run_handles r"
    using sub nth_mem by (fastforce simp: agent_handles_def)
  have card: "finite (P (world h)) \<and> card (P (world h)) \<le> length (filter drives_singbox (ag_runs a))"
    using card_agent_handles[of "ag_runs a"] finite_subset[OF sub] card_mono[OF _ sub] by linarith
  have "P (world h) = {}" if "agent_done a"
  proof -
    have "run_handles r = {}" if "r \<in> set (ag_runs a)" for r
      using inv that \<open>agent_done a\<close> by (simp add: agent_inv_def agent_done_def run_handles_def handles_def)
    with held show ?thesis by blast
  qed
  moreover have "length (ag_runs a) = length cs"
    using agent_runs_length[OF assms(4)] by (simp add: agent_of_def)
  moreover have "\<exists>a' h'. (agent_step E S P version)\<^sup>*\<^sup>* (a, h) (a', h') \<and> agent_done a'"
    if "\<forall>r \<in> set (ag_runs a). fst r \<noteq> Starting"
  proof -
    have "agent_step E S P version (a, h) (a\<lparr>ag_cancelled := True\<rparr>, h)" by (rule signalled)
    with agent_can_stop[of "a\<lparr>ag_cancelled := True\<rparr>" E S P version h] that show ?thesis
      by simp (meson converse_rtranclp_into_rtranclp)
  qed
  ultimately show ?thesis using held card by blast
qed

text \<open>A host with a configuration file and one panel, which wants sing-box.\<close>

definition agent_sys :: "int list sys" where
  "agent_sys c w = (case c of ReadFile p \<Rightarrow> (ok_reply\<lparr>rout := ''Nodes''\<rparr>, w) | _ \<Rightarrow> node_sys c w)"

lemma agent_sys_ok: "processes_ok agent_sys set"
proof -
  have snds: "snd (agent_sys c w) = snd (node_sys c w)" for c w
    by (cases c) (simp_all add: agent_sys_def node_sys_def)
  have start: "agent_sys (StartProcess exe args) w = node_sys (StartProcess exe args) w" for exe args w
    by (simp add: agent_sys_def)
  show ?thesis
    using node_sys_ok unfolding processes_ok_def start snds by blast
qed

lemma agent_sys_serves:
  fixes h :: "(int list, 'm) host_scheme"
  shows "\<exists>c. result (main_start clear_crypto one_decoder singbox_libs agent_sys ''1.0'' [''exnode''] plain_start) h = Serving [c]
    \<and> 0 < ct_hbEvery c \<and> 0 < ct_statEvery c"
proof -
  have "result (LoadWithKey clear_crypto one_decoder agent_sys ''c.yml'' ''key'') h = Inr one_panel"
    by (simp add: LoadWithKey_def run_do_call agent_sys_def node_sys_def one_decoder_config)
  moreover have "result (Adopt agent_sys ''1.0'') g = Returned nil" for g :: "(int list, 'm) host_scheme"
    by (simp add: Adopt_def run_do_call agent_sys_def node_sys_def)
  ultimately obtain g :: "(int list, 'm) host_scheme"
    where "result (main_start clear_crypto one_decoder singbox_libs agent_sys ''1.0'' [''exnode''] plain_start) h
      = Serving (result (new_controllers agent_sys one_panel ''1.0'' ''linux'' (cf_Nodes one_panel)) g)"
    by (simp add: main_start_def plain_start_def choose_passphrase_def serve_def result_bind singbox_libs_def
        serving_libs_def del: run_state_bind)
  then obtain cs
    where "result (main_start clear_crypto one_decoder singbox_libs agent_sys ''1.0'' [''exnode''] plain_start) h = Serving cs"
      and "list_all2 (starts_as one_panel) (cf_Nodes one_panel) cs"
    using new_controllers_start[of one_panel "cf_Nodes one_panel" agent_sys "''1.0''" "''linux''" g] by blast
  then show ?thesis
    using intervals_positive[of "hd (cf_Nodes one_panel)"]
    by (auto simp: one_panel_def list_all2_Cons1 starts_as_def max_seconds_def)
qed

lemma agent_sys_panel:
  "panel_serves (en_json singbox_libs) agent_sys cl (\<lambda>w. 3) (\<lambda>w. (''singbox'', []))"
  by (simp add: panel_serves_def succeeds_def singbox_libs_def serving_libs_def)
    (simp add: agent_sys_def node_sys_def)

theorem agent_leaves_no_singbox_witness:
  "\<exists>cs a h. result (main_start clear_crypto one_decoder singbox_libs agent_sys ''1.0'' [''exnode''] plain_start) (init_host [])
      = Serving cs
    \<and> (agent_step singbox_libs agent_sys set ''1.0'')\<^sup>*\<^sup>*
        (agent_of cs, after (main_start clear_crypto one_decoder singbox_libs agent_sys ''1.0'' [''exnode''] plain_start) (init_host []))
        (a, h)
    \<and> agent_done a \<and> world h = []"
proof -
  let ?main = "main_start clear_crypto one_decoder singbox_libs agent_sys ''1.0'' [''exnode''] plain_start"
  let ?h = "after ?main (init_host [])"
  obtain c where c: "result ?main (init_host []) = Serving [c]" "0 < ct_hbEvery c" "0 < ct_statEvery c"
    using agent_sys_serves[of "init_host []"] by blast
  let ?tick = "heartbeatTick singbox_libs agent_sys True c"
  have "fst (result ?tick ?h) = Returned nil"
    using syncing_tick[OF agent_sys_panel, of True c ?h] by auto
  then have tick: "run_state ?tick ?h = ((Returned nil, snd (result ?tick ?h)), after ?tick ?h)"
    by (metis prod.collapse)
  let ?a = "(agent_of [c])\<lparr>ag_runs := (ag_runs (agent_of [c]))[0 := (Looping, snd (result ?tick ?h))]\<rparr>"
  have "agent_step singbox_libs agent_sys set ''1.0'' (agent_of [c], ?h) (?a, after ?tick ?h)"
    by (rule run_first[OF _ _ tick]) (use c tick_settings[of singbox_libs agent_sys True c ?h] in \<open>simp_all add: agent_of_def\<close>)
  then have first: "(agent_step singbox_libs agent_sys set ''1.0'')\<^sup>*\<^sup>* (agent_of [c], ?h) (?a, after ?tick ?h)" by blast
  have init: "set (world (init_host ([] :: int list))) = {}" by simp
  have "\<forall>r \<in> set (ag_runs ?a). fst r \<noteq> Starting" by (simp add: agent_of_def)
  with agent_leaves_no_singbox[OF agent_sys_ok init c(1) first] obtain a' h'
    where "(agent_step singbox_libs agent_sys set ''1.0'')\<^sup>*\<^sup>* (?a, after ?tick ?h) (a', h')" "agent_done a'" by blast
  with first have run: "(agent_step singbox_libs agent_sys set ''1.0'')\<^sup>*\<^sup>* (agent_of [c], ?h) (a', h')" by (meson rtranclp_trans)
  from agent_leaves_no_singbox[OF agent_sys_ok init c(1) run] \<open>agent_done a'\<close> have "world h' = []" by simp
  with c(1) run \<open>agent_done a'\<close> show ?thesis by blast
qed

end
