(* ===== verification/Spec2Isabelle.thy ===== *)
theory Spec2Isabelle
  imports OverlayConfined OverlayWarnings ExtrasEffects SelfUpdateVersions SelfUpdateSafety
    WgPeers WgNatSync WgSources EngineFacts SingboxInstallFacts SingboxProcess SingboxRender ConfFacts PanelFacts
    NodeLinks ControllerRetries AgentLife
begin

text \<open>
  A verification development for \<open>exnode\<close>, the agent a panel installs on a node to run its WireGuard
  interfaces, overlay links, firewall rules and routes.

  \<^bold>\<open>The program\<close>

  \<open>main.go\<close> loads the (possibly encrypted) configuration, adopts a newer binary it finds on disk, and
  starts one controller per panel. A controller (\<open>node/controller.go\<close>) sends heartbeats to its panel
  (\<open>panel/client.go\<close>); when the panel is at another revision it fetches the wanted state and converges
  to it: the datapath engine (\<open>engine/\<close>: WireGuard in the kernel through \<open>wg/engine.go\<close>, or a sing-box
  process, installed by \<open>singbox/singbox.go\<close> when missing), forwarding and masquerading (\<open>wg/nat.go\<close>),
  policy routes (\<open>wg/policy.go\<close>), overlay links (\<open>overlay/overlay.go\<close>) and the custom routes, rules
  and NAT entries of the operator (\<open>extras/extras.go\<close>). A heartbeat may also carry the order to restart
  or to upgrade (\<open>selfupdate/selfupdate.go\<close>). A watchdog restores routes and NAT entries that vanish.

  \<^bold>\<open>The model\<close>

  Everything outside the process is a parameter \<open>S :: 'w sys\<close> of the definitions (theory \<open>Host\<close>): it
  answers a \<open>call\<close> (a command, a file operation, a netlink or wgctrl request, an HTTP exchange, the clock,
  starting or killing a process, ...) with a \<open>reply\<close> and moves its own state. A procedure of the program
  is a state monad over \<open>'w host\<close>: the world, the history of calls, and the package variables of the
  process (\<open>ov_warnSeen\<close>, \<open>su_upgradeErr\<close>, \<open>su_upgrading\<close>, \<open>su_lastAttempt\<close>, \<open>sb_lastAttempt\<close>, ...).
  Objects with methods (controllers, engines, clients) are records their operations take and return. Go
  errors are \<open>string option\<close> or a datatype with a constructor per error site, results with an error are
  sums; every early return is a branch. Integers have Go's width where arithmetic can wrap (version
  components, node ids, addresses), and are \<open>int\<close> where they are only compared and printed. The order of a
  Go range over a map is an argument, any permutation (\<open>range_order\<close>).

  Shared ground: \<open>Prelude\<close> (lists, results), \<open>GoStrings\<close> (\<open>strings\<close>, \<open>strconv\<close>, over bytes),
  \<open>GoPaths\<close> (\<open>path/filepath\<close>), \<open>GoJson\<close> and \<open>GoJsonFacts\<close> (the writer of \<open>encoding/json\<close>; distinct values
  have distinct texts), \<open>Base64\<close>, \<open>NetIP\<close> (\<open>net\<close>), \<open>Host\<close> (calls, the monad, what programs keep).

  \<^item> \<open>src/overlay/overlay.go\<close>: definitions in \<open>Overlay\<close>. \<open>OverlayEffects\<close> and \<open>OverlaySync\<close>: the firewall
    rules of a link converge, repeating adds nothing, a link that comes and goes leaves none of its own.
    \<open>OverlaySelfCheck\<close>: duplicates are reduced to one copy. \<open>OverlayWarnings\<close>: warnings are rate
    limited. \<open>OverlayPlan\<close>: what a sync removes, MTUs, creation arguments, when an existing link
    matches. \<open>OverlayConfined\<close>: the shapes of all commands, and that only own things are deleted.
  \<^item> \<open>src/extras/extras.go\<close>: \<open>Extras\<close>. \<open>ExtrasLines\<close>: the three parsers accept exactly their formats and
    read back what is written. \<open>ExtrasEffects\<close>: only checked commands run, NAT entries converge, wanted
    entries survive a sync, the watchdog restores them.
  \<^item> \<open>src/wg/engine.go\<close>: \<open>WgEngine\<close>; \<open>WgPeers\<close> refines a sync of a device to an abstract peer table.
    \<open>src/wg/nat.go\<close>: \<open>WgNat\<close>; \<open>WgNatFacts\<close>, \<open>WgNatSync\<close> (convergence, and the firewall is restored
    exactly), \<open>WgSources\<close> (source subnets are networks). \<open>src/wg/policy.go\<close>: \<open>WgPolicy\<close>,
    \<open>WgPolicyFacts\<close>.
  \<^item> \<open>src/engine/kernel.go\<close>: \<open>Engine\<close>; \<open>EngineFacts\<close> refines it to an abstract step on the links of the
    host. \<open>src/engine/singbox.go\<close>, \<open>engine.go\<close>: \<open>SingboxEngine\<close>; \<open>SingboxProcess\<close> (the process over
    the life of an engine), \<open>SingboxRender\<close> (an unchanged rendering is an unchanged configuration).
    \<open>src/singbox/singbox.go\<close>: \<open>SingboxInstall\<close>, \<open>SingboxInstallFacts\<close>.
  \<^item> \<open>src/selfupdate/selfupdate.go\<close>: \<open>SelfUpdate\<close>; \<open>SelfUpdateFacts\<close> (attempts are paced),
    \<open>SelfUpdateSafety\<close> (only a checked download is installed, one upgrade at a time, failures are kept),
    \<open>SelfUpdateVersions\<close> (the order of versions).
  \<^item> \<open>src/conf/crypto.go\<close>, \<open>src/conf/conf.go\<close>: \<open>Conf\<close>; the commands of \<open>main.go\<close> that encrypt and
    decrypt a file: \<open>Commands\<close>; \<open>ConfFacts\<close>: encrypting in place keeps the configuration.
  \<^item> \<open>src/panel/client.go\<close>: \<open>Panel\<close>; \<open>PanelFacts\<close>: no error reveals the host of the panel.
  \<^item> \<open>src/node/controller.go\<close>: \<open>Controller\<close>; \<open>ControllerSteady\<close> (what whole ticks keep),
    \<open>ControllerFacts\<close> (the agent tracks the panel; a reply without data clears the node),
    \<open>ControllerProcess\<close> (at most one sing-box per controller, how a run ends, what a restart leaves),
    \<open>ControllerRetries\<close> (a sing-box node asks again until a process runs the wanted revision,
    and no more after that, even if the process dies; the custom entries of a vanished interface stay), \<open>NodeLinks\<close> (a heartbeat as one
    abstract step on the links of the host, through the engine, the overlay and the custom entries).
  \<^item> \<open>src/main.go\<close>: \<open>Agent\<close>; \<open>AgentFacts\<close> (an agent serves what its configuration says). \<open>AgentLife\<close>: the
    running agent, its controllers, the watch on the binary (\<open>selfupdate.Watch\<close>) and the signal that ends
    it, interleaved; no sing-box process is left when \<open>main\<close> returns, and it can always return.

  \<^bold>\<open>Interfaces\<close>

  Contracts are locales. \<open>stale_plan\<close> (\<open>Interfaces\<close>): what a reconcile step tears down, for links, peers,
  interfaces, policy lines and subnets. \<open>cooldown\<close> and, for programs, \<open>paced\<close> (\<open>Pacing\<close>): at most one
  action per period, for warnings and upgrade attempts. \<open>line_format\<close> (\<open>ExtrasLines\<close>): a parser and its
  writer. \<open>netfilter\<close> (\<open>Netfilter\<close>): the two idioms on firewall rules. \<open>host_processes\<close> and \<open>datapath\<close>
  (\<open>ControllerProcess\<close>): the \<open>Engine\<close> interface with respect to processes, provided by both engines.

  \<^bold>\<open>What is relied on outside the repository\<close>

  Each is a named hypothesis of the properties that need it, documented behaviour of that code, and each
  is shown to hold for a concrete host. \<open>iptables_ok\<close>, \<open>iptables_list_ok\<close>: \<open>-C\<close>, \<open>-A\<close>, \<open>-I\<close>, \<open>-D\<close> and
  \<open>-S\<close>. \<open>netlink_ok\<close>, \<open>links_accept\<close>: adding and deleting links; \<open>ip_link_ok\<close>: \<open>ip link\<close> changes the link
  it names only. \<open>wgctrl_ok\<close>, \<open>key_lib_ok\<close>: configuring a
  device, and the text of keys. \<open>processes_ok\<close>, \<open>only_kills\<close>: starting and ending processes.
  \<open>files_ok\<close>, \<open>random_ok\<close>, \<open>aead_ok\<close>: files, random bytes, and that opening inverts sealing.
  \<open>monotone_clock\<close>: the clock does not go back. \<open>panel_serves\<close>: a panel that answers. Functions of
  libraries are parameters: WireGuard keys and addresses (\<open>wg_lib\<close>), gzip and tar (\<open>archive_lib\<close>), reading
  JSON, URLs and the text of times (\<open>json_lib\<close>), scrypt, AES and GCM (\<open>crypto_lib\<close>), YAML.

  \<^bold>\<open>Loops and bounds\<close>

  All definitions are total and executable. Loops over lists are recursions on the list; the deletions
  of duplicate rules try at most 8 times, as in the code, and the theorems about them state that bound
  where it matters. No definition uses fuel. \<open>Run\<close> is a function of the events its \<open>select\<close> receives;
  concurrency is in the step relations \<open>up_step\<close> (controllers that upgrade), \<open>sb_step\<close> and \<open>ctl_step\<close>
  (the goroutine that waits for a process, beside everything else) and \<open>agent_step\<close> (all goroutines of
  the agent, each step a whole tick).

  \<^bold>\<open>Not modelled\<close>

  Log lines, but for the self-check warnings, whose rate is behaviour, and the output of commands; the
  parsing of the command line (package \<open>flag\<close>); signals, but for the step that cancels the agent; the
  interleaving of the calls within two ticks of different controllers, beyond the relations above, which
  interleave whole ticks, and \<open>up_step\<close>, which interleaves the stages of an upgrade; timeouts, which
  are errors a call may return; the wording of errors where no caller looks at it. The tests, the
  installation script and the container image are not part of the program.
\<close>

end
